(* ===== verification/Prelude.thy ===== *)
theory Prelude
  imports Main "HOL-Library.Word"
begin

text \<open>
  Shared vocabulary of the development: the ways a C operation of the library can go wrong
  (\<open>c_error\<close>), the result type of fallible operations and its sequencing, the machine
  integers, and the list and word lemmas that the component theories rely on.
\<close>

section \<open>Collections of facts\<close>

named_theorems res_simps "rules that run a sequence of fallible operations"
named_theorems fmt_simps "rules that evaluate formatted output and input"
named_theorems wire_defs "definitions of serialisers and deserialisers"

section \<open>Machine integers and addresses\<close>

type_synonym u32 = "32 word"
type_synonym u64 = "64 word"
type_synonym addr = nat
type_synonym buffer = "char list"

text \<open>A C \<open>int\<close> is an HOL \<open>int\<close> in this range; leaving it is signed overflow.\<close>

definition int32_ok :: "int \<Rightarrow> bool" where
  "int32_ok i \<longleftrightarrow> - (2 ^ 31) \<le> i \<and> i < 2 ^ 31"

lemma int32_ok_sint [simp]: "int32_ok (sint (w :: u32))"
  using sint_ge [of w] sint_lt [of w] by (simp add: int32_ok_def)

lemma word_of_int_sint [simp]: "word_of_int (sint (w :: 'a::len word)) = w"
  by simp

section \<open>Fallible operations\<close>

text \<open>
  An operation that the C standard leaves undefined, or that aborts the process, is an error
  value: the models never pick a result for it.
\<close>

datatype c_error =
    Buffer_Overflow  \<comment> \<open>a write past the end of an allocated block\<close>
  | Out_Of_Bounds    \<comment> \<open>a read past the end of an allocated block\<close>
  | Null_Deref       \<comment> \<open>a dereference of a null pointer\<close>
  | Wild_Pointer     \<comment> \<open>an access or a free through a pointer to no live block\<close>
  | Uninitialised    \<comment> \<open>a decision on an indeterminate value\<close>
  | Int_Overflow     \<comment> \<open>a value not representable in a signed integer\<close>
  | Div_By_Zero
  | Bad_Format       \<comment> \<open>arguments that do not fit a format string\<close>
  | Type_Confusion   \<comment> \<open>a \<open>void *\<close> used at a type that is not the object's\<close>
  | Assert_Failed    \<comment> \<open>a failed \<open>assert\<close>: the process aborts\<close>
  | Exited           \<comment> \<open>a call of \<open>exit\<close>\<close>
  | Diverges         \<comment> \<open>a loop that never ends\<close>
  | Blocked          \<comment> \<open>a lock or a wait that nothing ends\<close>

type_synonym 'a res = "c_error + 'a"

definition rbind :: "'a res \<Rightarrow> ('a \<Rightarrow> 'b res) \<Rightarrow> 'b res" where
  "rbind m f = (case m of Inl e \<Rightarrow> Inl e | Inr x \<Rightarrow> f x)"

definition rassert :: "bool \<Rightarrow> c_error \<Rightarrow> 'a res \<Rightarrow> 'a res" where
  "rassert P e m = (if P then m else Inl e)"

lemma rbind_simps [simp, res_simps]:
  "rbind (Inl e) f = Inl e"
  "rbind (Inr x) f = f x"
  by (simp_all add: rbind_def)

lemma rbind_assoc: "rbind (rbind m f) g = rbind m (\<lambda>x. rbind (f x) g)"
  by (cases m) simp_all

lemma rbind_eq_Inr [res_simps]:
  "rbind m f = Inr y \<longleftrightarrow> (\<exists>x. m = Inr x \<and> f x = Inr y)"
  by (cases m) simp_all

lemma rassert_simps [simp, res_simps]:
  "rassert True e m = m"
  "rassert False e m = Inl e"
  by (simp_all add: rassert_def)

lemma rassert_eq_Inr [res_simps]: "rassert P e m = Inr y \<longleftrightarrow> P \<and> m = Inr y"
  by (simp add: rassert_def)

text \<open>A possibly endless computation inside a longer operation.\<close>

definition settle :: "'a res option \<Rightarrow> 'a res" where
  "settle r = (case r of None \<Rightarrow> Inl Diverges | Some x \<Rightarrow> x)"

lemma settle_simps [simp, res_simps]: "settle None = Inl Diverges" "settle (Some x) = x"
  by (simp_all add: settle_def)

lemma settle_eq_Inr [res_simps]: "settle r = Inr y \<longleftrightarrow> r = Some (Inr y)"
  by (cases r) simp_all

section \<open>Lists\<close>

lemma takeWhile_append_stop:
  "(\<And>x. x \<in> set xs \<Longrightarrow> P x) \<Longrightarrow> \<not> P y \<Longrightarrow> takeWhile P (xs @ y # ys) = xs"
  by (simp add: takeWhile_append2)

lemma dropWhile_append_stop:
  "(\<And>x. x \<in> set xs \<Longrightarrow> P x) \<Longrightarrow> \<not> P y \<Longrightarrow> dropWhile P (xs @ y # ys) = y # ys"
  by (simp add: dropWhile_append2)

lemma takeWhile_dropWhile_all:
  assumes "\<And>x. x \<in> set xs \<Longrightarrow> P x"
  shows "takeWhile P xs = xs" and "dropWhile P xs = []"
  using assms by simp_all

lemma map_fun_upd_notin [simp]: "x \<notin> set as \<Longrightarrow> map (\<lambda>a. f ((h(x := v)) a)) as = map (\<lambda>a. f (h a)) as"
  by (auto intro!: map_cong)

end
