(* ===== verification/C_Text.thy ===== *)
theory C_Text
  imports Prelude
begin

text \<open>
  The part of the C library that the message codecs use: character classes, decimal output and
  input (\<open>%d\<close>), words (\<open>%s\<close>), \<open>sprintf\<close> and \<open>sscanf\<close> driven by their format strings,
  \<open>strcat\<close>, \<open>memcpy\<close> and \<open>strtok\<close>. Buffers are lists of bytes of the allocated size, so a
  write or a read past the end is an error value. The lemmas give the inverse laws that the
  round trips of the codecs rest on.
\<close>

section \<open>Characters and C strings\<close>

definition NUL :: char where
  "NUL = CHR 0x00"

definition isspace :: "char \<Rightarrow> bool" where
  "isspace c \<longleftrightarrow> c = CHR 0x20 \<or> c = CHR 0x09 \<or> c = CHR 0x0A \<or> c = CHR 0x0B \<or> c = CHR 0x0C \<or> c = CHR 0x0D"

definition isdigit :: "char \<Rightarrow> bool" where
  "isdigit c \<longleftrightarrow> 48 \<le> (of_char c :: nat) \<and> (of_char c :: nat) \<le> 57"

definition digit_char :: "nat \<Rightarrow> char" where
  "digit_char n = char_of (48 + n)"

definition digit_val :: "char \<Rightarrow> nat" where
  "digit_val c = of_char c - 48"

text \<open>The string at the start of a buffer: without a terminator the read runs off the end.\<close>

definition c_str :: "buffer \<Rightarrow> string res" where
  "c_str buf = (if NUL \<in> set buf then Inr (takeWhile (\<lambda>c. c \<noteq> NUL) buf) else Inl Out_Of_Bounds)"

text \<open>Storing a string and its terminator at the start of a buffer.\<close>

definition write_str :: "string \<Rightarrow> buffer \<Rightarrow> buffer res" where
  "write_str s buf =
     (if length s < length buf then Inr (s @ NUL # drop (Suc (length s)) buf) else Inl Buffer_Overflow)"

section \<open>Decimal integers\<close>

fun show_nat :: "nat \<Rightarrow> string" where
  "show_nat n = (if n < 10 then [digit_char n] else show_nat (n div 10) @ [digit_char (n mod 10)])"

declare show_nat.simps [simp del]

definition show_int :: "int \<Rightarrow> string" where
  "show_int i = (if i < 0 then CHR ''-'' # show_nat (nat (- i)) else show_nat (nat i))"

text \<open>\<open>%d\<close> prints the 32 bits of its argument as a signed number, also where the source passes a
  \<open>uint32_t\<close>.\<close>

definition fmt_d :: "u32 \<Rightarrow> string" where
  "fmt_d w = show_int (sint w)"

definition dec_val :: "string \<Rightarrow> nat" where
  "dec_val ds = foldl (\<lambda>a c. 10 * a + digit_val c) 0 ds"

definition scan_sign :: "string \<Rightarrow> bool \<times> string" where
  "scan_sign s = (case s of [] \<Rightarrow> (False, []) | c # cs \<Rightarrow>
     if c = CHR ''-'' then (True, cs) else if c = CHR ''+'' then (False, cs) else (False, s))"

text \<open>The input item of \<open>%d\<close>: blanks, an optional sign, digits. \<open>None\<close> is a matching or input
  failure.\<close>

definition scan_int :: "string \<Rightarrow> (int \<times> string) option" where
  "scan_int s =
     (let (neg, t) = scan_sign (dropWhile isspace s); ds = takeWhile isdigit t
      in if ds = [] then None
         else Some ((if neg then - int (dec_val ds) else int (dec_val ds)), dropWhile isdigit t))"

text \<open>The input item of \<open>%s\<close>: blanks, then the longest run of other characters.\<close>

definition scan_word :: "string \<Rightarrow> (string \<times> string) option" where
  "scan_word s =
     (let t = dropWhile isspace s; w = takeWhile (\<lambda>c. \<not> isspace c) t
      in if w = [] then None else Some (w, dropWhile (\<lambda>c. \<not> isspace c) t))"

section \<open>Format strings\<close>

datatype directive = Conv_d | Conv_s | Lit char

datatype arg = AInt u32 | AStr string

datatype dest = To_int | To_buf nat

fun parse_fmt :: "string \<Rightarrow> directive list" where
  "parse_fmt [] = []"
| "parse_fmt [c] = [Lit c]"
| "parse_fmt (c # d # cs) =
     (if c = CHR ''%'' \<and> d = CHR ''d'' then Conv_d # parse_fmt cs
      else if c = CHR ''%'' \<and> d = CHR ''s'' then Conv_s # parse_fmt cs
      else Lit c # parse_fmt (d # cs))"

fun format_out :: "directive list \<Rightarrow> arg list \<Rightarrow> string res" where
  "format_out [] as = Inr []"
| "format_out (Lit c # ds) as = rbind (format_out ds as) (\<lambda>t. Inr (c # t))"
| "format_out (Conv_d # ds) (AInt w # as) = rbind (format_out ds as) (\<lambda>t. Inr (fmt_d w @ t))"
| "format_out (Conv_s # ds) (AStr s # as) = rbind (format_out ds as) (\<lambda>t. Inr (s @ t))"
| "format_out (_ # ds) as = Inl Bad_Format"

definition sprintf :: "buffer \<Rightarrow> string \<Rightarrow> arg list \<Rightarrow> buffer res" where
  "sprintf buf f as = rbind (format_out (parse_fmt f) as) (\<lambda>s. write_str s buf)"

text \<open>
  \<open>sscanf\<close> returns the values it assigned, in order: it stops at the first item that does not
  match, and the remaining destinations keep what they held. A number that does not fit an
  \<open>int\<close>, or a word that does not fit its buffer, is undefined behaviour.
\<close>

fun scan :: "directive list \<Rightarrow> dest list \<Rightarrow> string \<Rightarrow> arg list res" where
  "scan [] dst s = Inr []"
| "scan (Lit c # ds) dst s =
     (if isspace c then scan ds dst (dropWhile isspace s)
      else (case s of [] \<Rightarrow> Inr [] | x # xs \<Rightarrow> if x = c then scan ds dst xs else Inr []))"
| "scan (Conv_d # ds) (To_int # dst) s =
     (case scan_int s of None \<Rightarrow> Inr []
      | Some (v, r) \<Rightarrow>
          rassert (int32_ok v) Int_Overflow (rbind (scan ds dst r) (\<lambda>as. Inr (AInt (word_of_int v) # as))))"
| "scan (Conv_s # ds) (To_buf n # dst) s =
     (case scan_word s of None \<Rightarrow> Inr []
      | Some (w, r) \<Rightarrow>
          rassert (length w < n) Buffer_Overflow (rbind (scan ds dst r) (\<lambda>as. Inr (AStr w # as))))"
| "scan (_ # ds) dst s = Inl Bad_Format"

definition sscanf :: "string \<Rightarrow> string \<Rightarrow> dest list \<Rightarrow> arg list res" where
  "sscanf s f dst = scan (parse_fmt f) dst s"

text \<open>The value a destination holds after \<open>sscanf\<close>: the assigned one, or the old one.\<close>

definition int_arg :: "arg list \<Rightarrow> nat \<Rightarrow> u32 \<Rightarrow> u32" where
  "int_arg as i old = (case drop i as of AInt w # _ \<Rightarrow> w | _ \<Rightarrow> old)"

definition str_arg :: "arg list \<Rightarrow> nat \<Rightarrow> string \<Rightarrow> string" where
  "str_arg as i old = (case drop i as of AStr s # _ \<Rightarrow> s | _ \<Rightarrow> old)"

section \<open>Copying and tokenising\<close>

definition strcat :: "buffer \<Rightarrow> string \<Rightarrow> buffer res" where
  "strcat buf t = rbind (c_str buf) (\<lambda>s. write_str (s @ t) buf)"

text \<open>\<open>memcpy(buf + off, src, n)\<close> and \<open>memcpy(dst, buf + off, n)\<close> with a fresh \<open>dst\<close> of \<open>n\<close> bytes.\<close>

definition memcpy_to :: "buffer \<Rightarrow> nat \<Rightarrow> char list \<Rightarrow> nat \<Rightarrow> buffer res" where
  "memcpy_to buf off src n =
     rassert (n \<le> length src) Out_Of_Bounds
       (rassert (off + n \<le> length buf) Buffer_Overflow
         (Inr (take off buf @ take n src @ drop (off + n) buf)))"

definition memcpy_from :: "buffer \<Rightarrow> nat \<Rightarrow> nat \<Rightarrow> char list res" where
  "memcpy_from buf off n = rassert (off + n \<le> length buf) Out_Of_Bounds (Inr (take n (drop off buf)))"

text \<open>
  One call of \<open>strtok\<close> with the delimiters \<open>\r\n\<close> on the text from its saved position: the next
  token and the text after the delimiter that ended it.
\<close>

definition iseol :: "char \<Rightarrow> bool" where
  "iseol c \<longleftrightarrow> c = CHR 0x0D \<or> c = CHR 0x0A"

definition strtok :: "string \<Rightarrow> (string \<times> string) option" where
  "strtok s =
     (let t = dropWhile iseol s
      in if t = [] then None
         else Some (takeWhile (\<lambda>c. \<not> iseol c) t, drop 1 (dropWhile (\<lambda>c. \<not> iseol c) t)))"

text \<open>
  The same call on the buffer itself: \<open>pos\<close> is the saved position, the delimiter that ends the
  token is overwritten with a terminator, and the position moves behind it.
\<close>

definition strtok_buf :: "buffer \<Rightarrow> nat \<Rightarrow> (string \<times> nat \<times> buffer) option res" where
  "strtok_buf buf pos =
     rbind (c_str (drop pos buf)) (\<lambda>s.
       let k = length (takeWhile iseol s); t = takeWhile (\<lambda>c. \<not> iseol c) (drop k s); e = pos + k + length t
       in if k = length s then Inr None
          else if k + length t = length s then Inr (Some (t, e, buf))
          else Inr (Some (t, Suc e, buf[e := NUL])))"

definition sscanf_buf :: "buffer \<Rightarrow> string \<Rightarrow> dest list \<Rightarrow> arg list res" where
  "sscanf_buf buf f dst = rbind (c_str buf) (\<lambda>s. sscanf s f dst)"

section \<open>Words that survive formatted input\<close>

text \<open>A string that \<open>%s\<close> reads back from what \<open>%s\<close> printed into a buffer of \<open>n\<close> bytes.\<close>

definition word_ok :: "nat \<Rightarrow> string \<Rightarrow> bool" where
  "word_ok n s \<longleftrightarrow> s \<noteq> [] \<and> list_all (\<lambda>c. \<not> isspace c \<and> c \<noteq> NUL) s \<and> length s < n"

section \<open>Decimal output and input are inverse\<close>

lemma isdigit_digit_char [simp]: "n < 10 \<Longrightarrow> isdigit (digit_char n)"
  by (simp add: isdigit_def digit_char_def)

lemma digit_val_digit_char [simp]: "n < 10 \<Longrightarrow> digit_val (digit_char n) = n"
  by (simp add: digit_val_def digit_char_def)

lemma not_isdigit_blank [simp]:
  "\<not> isdigit (CHR 0x20)" "\<not> isdigit (CHR 0x0A)" "\<not> isdigit (CHR ''-'')" "\<not> isdigit (CHR ''+'')"
  by (simp_all add: isdigit_def)

lemma isdigit_not_isspace: "isdigit c \<Longrightarrow> \<not> isspace c"
  by (auto simp: isdigit_def isspace_def)

lemma isdigit_not_NUL: "isdigit c \<Longrightarrow> c \<noteq> NUL"
  by (auto simp: isdigit_def NUL_def)

lemma isspace_simps [simp]:
  "isspace (CHR 0x20)" "isspace (CHR 0x0A)" "\<not> isspace (CHR ''-'')"
  by (simp_all add: isspace_def)

lemma not_NUL_simps [simp]:
  "CHR 0x20 \<noteq> NUL" "CHR 0x0A \<noteq> NUL" "CHR ''-'' \<noteq> NUL"
  "NUL \<noteq> CHR 0x20" "NUL \<noteq> CHR 0x0A" "NUL \<noteq> CHR ''-''"
  by (simp_all add: NUL_def)

lemma iseol_simps [simp]: "\<not> iseol (CHR 0x20)" "iseol (CHR 0x0A)" "\<not> iseol (CHR ''-'')"
  by (simp_all add: iseol_def)

lemma iseol_isspace: "iseol c \<Longrightarrow> isspace c"
  by (auto simp: iseol_def isspace_def)

lemma show_nat_digits: "c \<in> set (show_nat n) \<Longrightarrow> isdigit c"
proof (induction n rule: show_nat.induct)
  case (1 n)
  then show ?case
    by (cases "n < 10") (auto simp: show_nat.simps [of n])
qed

lemma show_nat_nonempty [simp]: "show_nat n \<noteq> []"
  by (subst show_nat.simps) simp

lemma dec_val_snoc: "dec_val (ds @ [c]) = 10 * dec_val ds + digit_val c"
  by (simp add: dec_val_def)

lemma dec_val_show_nat [simp]: "dec_val (show_nat n) = n"
proof (induction n rule: show_nat.induct)
  case (1 n)
  show ?case
  proof (cases "n < 10")
    case True
    then show ?thesis by (simp add: show_nat.simps [of n] dec_val_def)
  next
    case False
    with 1 show ?thesis by (simp add: show_nat.simps [of n] dec_val_snoc)
  qed
qed

lemma length_show_nat: "n < 10 ^ Suc k \<Longrightarrow> length (show_nat n) \<le> Suc k"
proof (induction k arbitrary: n)
  case 0
  then show ?case by (simp add: show_nat.simps [of n])
next
  case (Suc k)
  show ?case
  proof (cases "n < 10")
    case True
    then show ?thesis by (simp add: show_nat.simps [of n])
  next
    case False
    from Suc.prems have "n div 10 < 10 ^ Suc k"
      by (simp add: less_mult_imp_div_less mult.commute)
    with Suc.IH False show ?thesis by (simp add: show_nat.simps [of n])
  qed
qed

lemma show_int_chars: "c \<in> set (show_int i) \<Longrightarrow> isdigit c \<or> c = CHR ''-''"
  by (auto simp: show_int_def dest: show_nat_digits split: if_splits)

lemma show_int_head: "\<exists>c cs. show_int i = c # cs \<and> \<not> isspace c \<and> c \<noteq> CHR ''+''"
proof (cases "i < 0")
  case True
  then show ?thesis by (simp add: show_int_def)
next
  case False
  obtain c cs where "show_nat (nat i) = c # cs"
    by (cases "show_nat (nat i)") simp_all
  moreover from this have "isdigit c"
    using show_nat_digits [of c "nat i"] by simp
  ultimately show ?thesis
    using False by (auto simp: show_int_def dest: isdigit_not_isspace)
qed

lemma scan_sign_show_int:
  "scan_sign (show_int i @ r) = (i < 0, show_nat (nat \<bar>i\<bar>) @ r)"
proof (cases "i < 0")
  case True
  then show ?thesis by (simp add: show_int_def scan_sign_def)
next
  case False
  obtain c cs where c: "show_nat (nat i) = c # cs"
    by (cases "show_nat (nat i)") simp_all
  then have "isdigit c"
    using show_nat_digits [of c "nat i"] by simp
  then have "c \<noteq> CHR ''-''" and "c \<noteq> CHR ''+''" by auto
  with False c show ?thesis by (simp add: show_int_def scan_sign_def)
qed

lemma dropWhile_isspace_show_int [simp]: "dropWhile isspace (show_int i @ r) = show_int i @ r"
  using show_int_head [of i] by auto

lemma takeWhile_isdigit_show_nat:
  assumes "r = [] \<or> \<not> isdigit (hd r)"
  shows "takeWhile isdigit (show_nat n @ r) = show_nat n"
    and "dropWhile isdigit (show_nat n @ r) = r"
proof -
  have d: "\<And>c. c \<in> set (show_nat n) \<Longrightarrow> isdigit c" by (rule show_nat_digits)
  then have "takeWhile isdigit (show_nat n @ r) = show_nat n @ takeWhile isdigit r"
    and "dropWhile isdigit (show_nat n @ r) = dropWhile isdigit r"
    by (simp_all add: takeWhile_append2 dropWhile_append2)
  moreover have "takeWhile isdigit r = []" and "dropWhile isdigit r = r"
    using assms by (cases r; simp)+
  ultimately show "takeWhile isdigit (show_nat n @ r) = show_nat n"
    and "dropWhile isdigit (show_nat n @ r) = r" by simp_all
qed

text \<open>Reading back a printed integer, whatever follows it that is not a digit.\<close>

lemma scan_int_show_int:
  "r = [] \<or> \<not> isdigit (hd r) \<Longrightarrow> scan_int (show_int i @ r) = Some (i, r)"
  by (simp add: scan_int_def scan_sign_show_int takeWhile_isdigit_show_nat Let_def)

lemma fmt_d_nonempty [simp]: "fmt_d w \<noteq> []"
  using show_int_head [of "sint w"] by (auto simp: fmt_d_def)

lemma dropWhile_isspace_fmt_d [simp]: "dropWhile isspace (fmt_d w @ r) = fmt_d w @ r"
  by (simp add: fmt_d_def)

lemma fmt_d_chars: "c \<in> set (fmt_d w) \<Longrightarrow> \<not> isspace c \<and> c \<noteq> NUL"
  by (auto simp: fmt_d_def dest!: show_int_chars dest: isdigit_not_isspace isdigit_not_NUL)

lemma NUL_notin_fmt_d [simp]: "NUL \<notin> set (fmt_d w)"
  using fmt_d_chars by blast

lemma scan_int_fmt_d [simp, fmt_simps]:
  "scan_int (fmt_d w) = Some (sint w, [])"
  "\<not> isdigit c \<Longrightarrow> scan_int (fmt_d w @ c # r) = Some (sint w, c # r)"
  using scan_int_show_int [of "[]" "sint w"] scan_int_show_int [of "c # r" "sint w"]
  by (simp_all add: fmt_d_def)

text \<open>The longest \<open>%d\<close> output is that of \<open>INT_MIN\<close>: eleven characters.\<close>

lemma length_fmt_d: "length (fmt_d w) \<le> 11"
proof -
  have "\<bar>sint w\<bar> \<le> 2 ^ 31"
    using int32_ok_sint [of w] by (auto simp: int32_ok_def)
  then have "nat \<bar>sint w\<bar> < 10 ^ Suc 9" by simp
  then have "length (show_nat (nat \<bar>sint w\<bar>)) \<le> 10"
    using length_show_nat [of "nat \<bar>sint w\<bar>" 9] by simp
  then show ?thesis by (auto simp: fmt_d_def show_int_def)
qed

section \<open>Words\<close>

lemma word_ok_chars: "word_ok n s \<Longrightarrow> c \<in> set s \<Longrightarrow> \<not> isspace c \<and> c \<noteq> NUL"
  by (auto simp: word_ok_def list_all_iff)

lemma word_ok_nonempty: "word_ok n s \<Longrightarrow> s \<noteq> []"
  by (simp add: word_ok_def)

lemma word_ok_length: "word_ok n s \<Longrightarrow> length s < n"
  by (simp add: word_ok_def)

lemma NUL_notin_word [simp]: "word_ok n s \<Longrightarrow> NUL \<notin> set s"
  using word_ok_chars by blast

lemma dropWhile_isspace_word [simp]:
  assumes "word_ok n s"
  shows "dropWhile isspace (s @ r) = s @ r"
proof -
  from assms obtain c cs where "s = c # cs" by (cases s) (simp_all add: word_ok_def)
  with assms show ?thesis by (simp add: word_ok_def)
qed

lemma scan_word_ok [simp, fmt_simps]:
  assumes "word_ok n s"
  shows "scan_word s = Some (s, [])"
    and "isspace c \<Longrightarrow> scan_word (s @ c # r) = Some (s, c # r)"
proof -
  note sp = word_ok_chars [OF assms]
  have "dropWhile isspace s = s"
    using dropWhile_isspace_word [OF assms, of "[]"] by simp
  with sp show "scan_word s = Some (s, [])"
    using assms by (simp add: scan_word_def word_ok_def takeWhile_dropWhile_all)
  assume "isspace c"
  with sp have "takeWhile (\<lambda>c. \<not> isspace c) (s @ c # r) = s"
    and "dropWhile (\<lambda>c. \<not> isspace c) (s @ c # r) = c # r"
    by (simp_all add: takeWhile_append_stop dropWhile_append_stop)
  then show "scan_word (s @ c # r) = Some (s, c # r)"
    using assms by (simp add: scan_word_def word_ok_nonempty Let_def)
qed

section \<open>Buffers\<close>

lemma write_str_fits: "length s < length buf \<Longrightarrow> write_str s buf = Inr (s @ NUL # drop (Suc (length s)) buf)"
  by (simp add: write_str_def)

lemma write_str_eq_Inr:
  "write_str s buf = Inr b \<longleftrightarrow> length s < length buf \<and> b = s @ NUL # drop (Suc (length s)) buf"
  by (auto simp: write_str_def)

lemma length_write_str: "write_str s buf = Inr b \<Longrightarrow> length b = length buf"
  by (auto simp: write_str_eq_Inr)

lemma c_str_written: "NUL \<notin> set s \<Longrightarrow> c_str (s @ NUL # r) = Inr s"
  by (auto simp: c_str_def intro!: takeWhile_append_stop)

lemma c_str_write_str: "write_str s buf = Inr b \<Longrightarrow> NUL \<notin> set s \<Longrightarrow> c_str b = Inr s"
  by (auto simp: write_str_eq_Inr c_str_written)

lemma c_str_cases: "c_str buf = Inr s \<Longrightarrow> NUL \<notin> set s \<and> length s < length buf \<and> take (length s) buf = s"
proof -
  assume a: "c_str buf = Inr s"
  then have n: "NUL \<in> set buf" and s: "s = takeWhile (\<lambda>c. c \<noteq> NUL) buf"
    by (auto simp: c_str_def split: if_splits)
  from n have "dropWhile (\<lambda>c. c \<noteq> NUL) buf \<noteq> []" by auto
  moreover have "buf = s @ dropWhile (\<lambda>c. c \<noteq> NUL) buf" by (simp add: s)
  ultimately have "length s < length buf"
    by (metis length_append length_greater_0_conv less_add_same_cancel1)
  moreover have "take (length s) buf = s" by (simp add: s takeWhile_eq_take [symmetric])
  ultimately show ?thesis by (auto simp: s dest: set_takeWhileD)
qed

lemma memcpy_to_eq_Inr:
  "memcpy_to buf off src n = Inr b \<longleftrightarrow>
     n \<le> length src \<and> off + n \<le> length buf \<and> b = take off buf @ take n src @ drop (off + n) buf"
  by (auto simp: memcpy_to_def res_simps)

lemma length_memcpy_to: "memcpy_to buf off src n = Inr b \<Longrightarrow> length b = length buf"
  by (auto simp: memcpy_to_eq_Inr)

lemma memcpy_from_to: "memcpy_to buf off src n = Inr b \<Longrightarrow> memcpy_from b off n = Inr (take n src)"
  by (auto simp: memcpy_to_eq_Inr memcpy_from_def)

lemma c_str_split:
  assumes "c_str buf = Inr s"
  obtains r where "buf = s @ NUL # r"
proof -
  from assms have nul: "NUL \<in> set buf" and s: "s = takeWhile (\<lambda>c. c \<noteq> NUL) buf"
    by (auto simp: c_str_def split: if_splits)
  then obtain y ys where y: "dropWhile (\<lambda>c. c \<noteq> NUL) buf = y # ys"
    by (cases "dropWhile (\<lambda>c. c \<noteq> NUL) buf") auto
  then have "y = NUL" by (auto simp: dropWhile_eq_Cons_conv)
  with y s have "buf = s @ NUL # ys" by (metis takeWhile_dropWhile_id)
  then show thesis by (rule that)
qed

text \<open>A string that ends before a copied region is not disturbed by the copy.\<close>

lemma c_str_memcpy_to:
  assumes "c_str buf = Inr s" and "length s < off" and "memcpy_to buf off src n = Inr b"
  shows "c_str b = Inr s"
proof -
  obtain r where r: "buf = s @ NUL # r" by (rule c_str_split [OF assms(1)])
  then have "take off buf = s @ NUL # take (off - Suc (length s)) r"
    using assms(2) by (simp add: take_Cons')
  moreover have "NUL \<notin> set s" using assms(1) c_str_cases by blast
  ultimately show ?thesis
    using assms(3) by (auto simp: memcpy_to_eq_Inr c_str_written)
qed

lemma int_arg_simps [simp, fmt_simps]:
  "int_arg (AInt w # as) 0 d = w"
  "int_arg (x # as) (Suc i) d = int_arg as i d"
  "int_arg [] i d = d"
  by (simp_all add: int_arg_def)

lemma str_arg_simps [simp, fmt_simps]:
  "str_arg (AStr s # as) 0 d = s"
  "str_arg (x # as) (Suc i) d = str_arg as i d"
  "str_arg [] i d = d"
  by (simp_all add: str_arg_def)

lemma int_arg_numeral [simp, fmt_simps]:
  "int_arg (x # as) (numeral k) d = int_arg as (pred_numeral k) d"
  "int_arg (x # as) 1 d = int_arg as 0 d"
  by (simp_all add: numeral_eq_Suc)

lemma str_arg_numeral [simp, fmt_simps]:
  "str_arg (x # as) (numeral k) d = str_arg as (pred_numeral k) d"
  "str_arg (x # as) 1 d = str_arg as 0 d"
  by (simp_all add: numeral_eq_Suc)

section \<open>Formatted input reads back formatted output\<close>

text \<open>
  \<open>covers ps ss\<close>: input format \<open>ss\<close> follows output format \<open>ps\<close> conversion by conversion, each
  conversion of \<open>ps\<close> being ended by a blank or the end of the text. \<open>fits\<close>: the values suit the
  destinations. \<open>printable\<close>: the values suit the format and hold no terminator.
  \<open>out_bound\<close>: the longest text the format can produce for the values.
\<close>

fun breaks :: "directive list \<Rightarrow> bool" where
  "breaks [] = True"
| "breaks (Lit c # ps) = isspace c"
| "breaks (_ # ps) = False"

fun covers :: "directive list \<Rightarrow> directive list \<Rightarrow> bool" where
  "covers ps [] = True"
| "covers (Lit c # ps) (Lit d # ss) = (isspace c \<and> isspace d \<and> covers ps ss)"
| "covers [] (Lit d # ss) = (isspace d \<and> covers [] ss)"
| "covers (Conv_d # ps) (Conv_d # ss) = (breaks ps \<and> covers ps ss)"
| "covers (Conv_s # ps) (Conv_s # ss) = (breaks ps \<and> covers ps ss)"
| "covers ps ss = False"

fun fits :: "directive list \<Rightarrow> dest list \<Rightarrow> arg list \<Rightarrow> bool" where
  "fits [] dst as = (as = [])"
| "fits (Lit c # ss) dst as = fits ss dst as"
| "fits (Conv_d # ss) (To_int # dst) (AInt w # as) = fits ss dst as"
| "fits (Conv_s # ss) (To_buf n # dst) (AStr s # as) = (word_ok n s \<and> fits ss dst as)"
| "fits ss dst as = False"

fun printable :: "directive list \<Rightarrow> arg list \<Rightarrow> bool" where
  "printable [] as = True"
| "printable (Lit c # ds) as = (c \<noteq> NUL \<and> printable ds as)"
| "printable (Conv_d # ds) (AInt w # as) = printable ds as"
| "printable (Conv_s # ds) (AStr s # as) = (NUL \<notin> set s \<and> printable ds as)"
| "printable ds as = False"

fun out_bound :: "directive list \<Rightarrow> arg list \<Rightarrow> nat" where
  "out_bound [] as = 0"
| "out_bound (Lit c # ds) as = Suc (out_bound ds as)"
| "out_bound (Conv_d # ds) (AInt w # as) = 11 + out_bound ds as"
| "out_bound (Conv_s # ds) (AStr s # as) = length s + out_bound ds as"
| "out_bound ds as = 0"

lemma format_out_printable:
  "printable ds as \<Longrightarrow> \<exists>s. format_out ds as = Inr s \<and> NUL \<notin> set s \<and> length s \<le> out_bound ds as"
proof (induction ds as rule: printable.induct)
  case (3 ds w as)
  then show ?case using length_fmt_d [of w] by force
qed (force)+

lemma dropWhile_isspace_idem [simp]: "dropWhile isspace (dropWhile isspace s) = dropWhile isspace s"
  by (induction s) auto

lemma scan_skips_blanks: "covers ps ss \<Longrightarrow> scan ss dst (dropWhile isspace s) = scan ss dst s"
proof (induction ss)
  case Nil
  then show ?case by simp
next
  case (Cons d ss)
  then show ?case
    by (cases d; cases dst; cases "hd dst"; cases ps; cases "hd ps")
       (auto simp: scan_int_def scan_word_def)
qed

lemma format_out_breaks:
  "breaks ps \<Longrightarrow> format_out ps as = Inr s \<Longrightarrow> s = [] \<or> (\<exists>c r. s = c # r \<and> isspace c)"
  by (cases ps; cases "hd ps") (auto simp: res_simps)

lemma isspace_not_isdigit: "isspace c \<Longrightarrow> \<not> isdigit c"
  using isdigit_not_isspace by blast

theorem scan_format_out:
  "covers ps ss \<Longrightarrow> fits ss dst as \<Longrightarrow> format_out ps (as @ bs) = Inr s \<Longrightarrow> scan ss dst s = Inr as"
proof (induction ps ss arbitrary: dst as s rule: covers.induct)
  case (1 ps)
  then show ?case by simp
next
  case (2 c ps d ss)
  then obtain s' where s: "s = c # s'" and "format_out ps (as @ bs) = Inr s'" by (auto simp: res_simps)
  with 2 have "scan ss dst s' = Inr as" by simp
  moreover from 2 have "covers ps ss" by simp
  ultimately show ?case using 2 s by (simp add: scan_skips_blanks [of ps ss])
next
  case (3 d ss)
  then show ?case by simp
next
  case (4 ps ss)
  then obtain dst' w as' where eq: "dst = To_int # dst'" "as = AInt w # as'" and f: "fits ss dst' as'"
    by (cases "(Conv_d # ss, dst, as)" rule: fits.cases) auto
  with 4 obtain s' where s: "s = fmt_d w @ s'" and s': "format_out ps (as' @ bs) = Inr s'"
    by (auto simp: res_simps)
  from 4 have "breaks ps" by simp
  then have "s' = [] \<or> (\<exists>c r. s' = c # r \<and> isspace c)" using s' by (rule format_out_breaks)
  then have "scan_int s = Some (sint w, s')" by (auto simp: s isspace_not_isdigit)
  moreover from 4 f s' have "scan ss dst' s' = Inr as'" by simp
  ultimately show ?case by (simp add: eq)
next
  case (5 ps ss)
  then obtain dst' n w as' where eq: "dst = To_buf n # dst'" "as = AStr w # as'"
    and w: "word_ok n w" and f: "fits ss dst' as'"
    by (cases "(Conv_s # ss, dst, as)" rule: fits.cases) auto
  with 5 obtain s' where s: "s = w @ s'" and s': "format_out ps (as' @ bs) = Inr s'"
    by (auto simp: res_simps)
  from 5 have "breaks ps" by simp
  then have "s' = [] \<or> (\<exists>c r. s' = c # r \<and> isspace c)" using s' by (rule format_out_breaks)
  then have "scan_word s = Some (w, s')" using w by (auto simp: s)
  moreover from 5 f s' have "scan ss dst' s' = Inr as'" by simp
  ultimately show ?case using word_ok_length [OF w] by (simp add: eq)
qed simp_all

section \<open>Formatted text in buffers\<close>

lemma sprintf_total:
  "printable (parse_fmt f) as \<Longrightarrow> out_bound (parse_fmt f) as < length buf \<Longrightarrow> \<exists>b. sprintf buf f as = Inr b"
  using format_out_printable [of "parse_fmt f" as] by (force simp: sprintf_def write_str_def)

lemma length_sprintf: "sprintf buf f as = Inr b \<Longrightarrow> length b = length buf"
  by (auto simp: sprintf_def res_simps length_write_str)

text \<open>What \<open>sprintf\<close> left in the buffer is a string without terminator of bounded length.\<close>

lemma sprintf_c_str:
  assumes "sprintf buf f as = Inr b" and "printable (parse_fmt f) as"
  obtains s where "c_str b = Inr s" "format_out (parse_fmt f) as = Inr s"
    "NUL \<notin> set s" "length s \<le> out_bound (parse_fmt f) as"
proof -
  from assms(2) obtain s where "format_out (parse_fmt f) as = Inr s" "NUL \<notin> set s"
    "length s \<le> out_bound (parse_fmt f) as" using format_out_printable by blast
  with assms(1) show thesis using that by (auto simp: sprintf_def c_str_write_str)
qed

lemma sprintf_sscanf:
  assumes "sprintf buf f (as @ bs) = Inr b" and "printable (parse_fmt f) (as @ bs)"
    and "covers (parse_fmt f) (parse_fmt f')" and "fits (parse_fmt f') dst as"
  shows "sscanf_buf b f' dst = Inr as"
proof -
  from assms(1,2) obtain s where "c_str b = Inr s" "format_out (parse_fmt f) (as @ bs) = Inr s"
    by (rule sprintf_c_str)
  with assms(3,4) show ?thesis by (simp add: sscanf_buf_def sscanf_def scan_format_out)
qed

lemma sscanf_buf_cong: "c_str b = c_str b' \<Longrightarrow> sscanf_buf b f dst = sscanf_buf b' f dst"
  by (simp add: sscanf_buf_def)

end
