(* ===== verification/Messages.thy ===== *)
theory Messages
  imports Prelude
begin

text \<open>
  The data of the wire protocol, after \<open>include/dynpm_common.h\<close> and \<open>include/dynpm_network.h\<close>:
  the enumerations with their numeric codes, and one record per message structure. Counters and
  codes are the 32-bit words of the structures, \<open>time_t\<close> is a 64-bit word, a \<open>char *\<close> is the
  string it points to, a payload pointer is \<open>None\<close> when null.
\<close>

section \<open>Constants and enumerations\<close>

definition DYNPM_MAX_MESSAGE_SIZE :: nat where
  "DYNPM_MAX_MESSAGE_SIZE = 4096"

definition MAX_SERVER_CONNECTIONS :: nat where
  "MAX_SERVER_CONNECTIONS = 64"

datatype dynpm_source_type =
  INVALID_SOURCE | SCHEDULER | NODE_MANAGER | PROCESS_MANAGER | LAUNCHER

fun source_code :: "dynpm_source_type \<Rightarrow> u32" where
  "source_code INVALID_SOURCE = 0"
| "source_code SCHEDULER = 1"
| "source_code NODE_MANAGER = 2"
| "source_code PROCESS_MANAGER = 3"
| "source_code LAUNCHER = 4"

datatype dynpm_message_type =
    INVALID_MESSAGE
  | REGISTER_CONNECTION
  | DEREGISTER_CONNECTION
  | REGISTER_PROCESS_MANAGER
  | REGISTER_PROCESS_MANAGER_ACK
  | DEREGISTER_PROCESS_MANAGER
  | OFFER_RESOURCES
  | CREATE_TBON
  | READY_TBON
  | READY_TBON_ACK
  | ALLOCATION_REQUEST
  | REALLOCATION_START
  | REALLOCATION_START_ACK
  | REALLOCATION_COMPLETE
  | DYNAMIC_PM_LAUNCH
  | READY_DYNAMIC_PM
  | DYNAMIC_IO_OUT
  | DYNAMIC_IO_OUT_ACK
  | PROCESSES_DONE
  | PROCESSES_DONE_ACK
  | POLL_PROCESS_DATA
  | REPORT_PROCESS_DATA

fun message_code :: "dynpm_message_type \<Rightarrow> u32" where
  "message_code INVALID_MESSAGE = 0"
| "message_code REGISTER_CONNECTION = 1"
| "message_code DEREGISTER_CONNECTION = 2"
| "message_code REGISTER_PROCESS_MANAGER = 3"
| "message_code REGISTER_PROCESS_MANAGER_ACK = 4"
| "message_code DEREGISTER_PROCESS_MANAGER = 5"
| "message_code OFFER_RESOURCES = 6"
| "message_code CREATE_TBON = 7"
| "message_code READY_TBON = 8"
| "message_code READY_TBON_ACK = 9"
| "message_code ALLOCATION_REQUEST = 10"
| "message_code REALLOCATION_START = 11"
| "message_code REALLOCATION_START_ACK = 12"
| "message_code REALLOCATION_COMPLETE = 13"
| "message_code DYNAMIC_PM_LAUNCH = 14"
| "message_code READY_DYNAMIC_PM = 15"
| "message_code DYNAMIC_IO_OUT = 16"
| "message_code DYNAMIC_IO_OUT_ACK = 17"
| "message_code PROCESSES_DONE = 18"
| "message_code PROCESSES_DONE_ACK = 19"
| "message_code POLL_PROCESS_DATA = 20"
| "message_code REPORT_PROCESS_DATA = 21"

section \<open>Message structures\<close>

record dynpm_header =
  hdr_source_type :: u32
  hdr_message_type :: u32

record dynpm_register_connection_msg =
  rc_pid :: u32
  rc_hostname :: string

record dynpm_deregister_connection_msg =
  dc_pid :: u32
  dc_hostname :: string
  dc_error_code :: u32

record dynpm_application =
  app_application_index :: u32
  app_malleability_mode :: u32
  app_node_count :: u32
  app_nodes :: string

record dynpm_register_process_manager_msg =
  rp_pid :: u32
  rp_hostname :: string
  rp_job_index :: u32
  rp_application_count :: u32
  rp_applications :: "dynpm_application list"

record dynpm_deregister_process_manager_msg =
  dp_pid :: u32
  dp_hostname :: string
  dp_error_code :: u32

record dynpm_allocation_request_msg =
  ar_application_index :: u32
  ar_partition_index :: u32
  ar_type :: u32
  ar_node_count :: u32

record dynpm_reallocation_start_msg =
  rs_application_index :: u32
  rs_partition_index :: u32
  rs_type :: u32
  rs_current_node_count :: u32
  rs_current_nodes :: string
  rs_delta_node_count :: u32
  rs_delta_nodes :: string
  rs_updated_node_count :: u32
  rs_updated_nodes :: string

record dynpm_reallocation_complete_msg =
  rf_application_index :: u32
  rf_partition_index :: u32
  rf_type :: u32
  rf_node_count :: u32
  rf_nodes :: string
  rf_status_code :: u32

record dynpm_resource_offer_msg =
  ro_application_index :: u32
  ro_partition_index :: u32
  ro_node_count :: u32
  ro_creation_time :: u64
  ro_end_time :: u64

record dynpm_create_tbon_msg =
  ct_id :: u32
  ct_degree :: u32
  ct_total :: u32
  ct_nodes :: string

text \<open>\<open>dynpm_ready_tbon_msg_t\<close>, \<open>dynpm_ready_dynamic_pm_msg_t\<close> and \<open>dynpm_processes_done_msg_t\<close>
  have the layout of \<open>dynpm_ready_msg_t\<close>, and the code casts them to it.\<close>

record dynpm_ready_msg =
  rd_id :: u32
  rd_subtree_ready_count :: u32
  rd_error_code :: u32

record dynpm_dynamic_pm_launch_msg =
  dl_id :: u32
  dl_type :: u32
  dl_payload_bytes :: u32
  dl_payload :: "char list option"

record dynpm_dynamic_io_out_msg =
  io_id :: u32
  io_host :: string
  io_payload_bytes :: u32
  io_payload :: "char list option"

record dynpm_report_process_data_msg =
  pr_id :: u32
  pr_job_index :: u32
  pr_application_index :: u32
  pr_malleability_mode :: u32
  pr_payload_bytes :: u32
  pr_payload :: "char list option"

section \<open>Codes identify message types\<close>

definition message_types :: "dynpm_message_type list" where
  "message_types =
     [INVALID_MESSAGE, REGISTER_CONNECTION, DEREGISTER_CONNECTION, REGISTER_PROCESS_MANAGER,
      REGISTER_PROCESS_MANAGER_ACK, DEREGISTER_PROCESS_MANAGER, OFFER_RESOURCES, CREATE_TBON,
      READY_TBON, READY_TBON_ACK, ALLOCATION_REQUEST, REALLOCATION_START, REALLOCATION_START_ACK,
      REALLOCATION_COMPLETE, DYNAMIC_PM_LAUNCH, READY_DYNAMIC_PM, DYNAMIC_IO_OUT,
      DYNAMIC_IO_OUT_ACK, PROCESSES_DONE, PROCESSES_DONE_ACK, POLL_PROCESS_DATA, REPORT_PROCESS_DATA]"

definition message_of_code :: "u32 \<Rightarrow> dynpm_message_type option" where
  "message_of_code w = (if unat w < length message_types then Some (message_types ! unat w) else None)"

lemma message_of_code_inverse [simp]: "message_of_code (message_code t) = Some t"
  by (cases t) (simp_all add: message_of_code_def message_types_def)

lemma message_code_inject [simp]: "message_code s = message_code t \<longleftrightarrow> s = t"
  by (metis message_of_code_inverse option.inject)

end
