(* ===== verification/Protocol.thy ===== *)
theory Protocol
  imports C_Text Messages
begin

text \<open>
  The message codecs of \<open>src/network/protocol.c\<close>. A serialiser takes the header, the message and
  the target buffer and returns the buffer it leaves; a deserialiser takes the structure as
  \<open>malloc\<close> returned it (its fields are indeterminate until assigned, hence an argument) and the
  buffer. The contract of a codec is the locale \<open>wire_codec\<close>; every codec of the file is an
  interpretation of it, so the facts of the locale hold for each message of the protocol.
\<close>

section \<open>Header\<close>

definition dynpm_serialize_header :: "dynpm_header \<Rightarrow> buffer \<Rightarrow> buffer res" where [wire_defs]:
  "dynpm_serialize_header h buf =
     sprintf buf ''%d %d'' [AInt (hdr_source_type h), AInt (hdr_message_type h)]"

definition dynpm_deserialize_header :: "dynpm_header \<Rightarrow> buffer \<Rightarrow> dynpm_header res" where [wire_defs]:
  "dynpm_deserialize_header g buf =
     rbind (sscanf_buf buf ''%d %d'' [To_int, To_int]) (\<lambda>a.
       Inr \<lparr>hdr_source_type = int_arg a 0 (hdr_source_type g),
            hdr_message_type = int_arg a 1 (hdr_message_type g)\<rparr>)"

section \<open>Connection registration\<close>

definition dynpm_serialize_register_connection_msg ::
    "dynpm_header \<Rightarrow> dynpm_register_connection_msg \<Rightarrow> buffer \<Rightarrow> buffer res" where [wire_defs]:
  "dynpm_serialize_register_connection_msg h m buf =
     sprintf buf ''%d %d %d %s''
       [AInt (hdr_source_type h), AInt (hdr_message_type h), AInt (rc_pid m), AStr (rc_hostname m)]"

definition dynpm_deserialize_register_connection_msg ::
    "dynpm_register_connection_msg \<Rightarrow> buffer \<Rightarrow> dynpm_register_connection_msg res" where [wire_defs]:
  "dynpm_deserialize_register_connection_msg g buf =
     rbind (sscanf_buf buf ''%d %d %d %s'' [To_int, To_int, To_int, To_buf 256]) (\<lambda>a.
       Inr \<lparr>rc_pid = int_arg a 2 (rc_pid g), rc_hostname = str_arg a 3 (rc_hostname g)\<rparr>)"

definition dynpm_serialize_deregister_connection_msg ::
    "dynpm_header \<Rightarrow> dynpm_deregister_connection_msg \<Rightarrow> buffer \<Rightarrow> buffer res" where [wire_defs]:
  "dynpm_serialize_deregister_connection_msg h m buf =
     sprintf buf ''%d %d %d %s %d''
       [AInt (hdr_source_type h), AInt (hdr_message_type h), AInt (dc_pid m), AStr (dc_hostname m),
        AInt (dc_error_code m)]"

definition dynpm_deserialize_deregister_connection_msg ::
    "dynpm_deregister_connection_msg \<Rightarrow> buffer \<Rightarrow> dynpm_deregister_connection_msg res" where [wire_defs]:
  "dynpm_deserialize_deregister_connection_msg g buf =
     rbind (sscanf_buf buf ''%d %d %d %s %d'' [To_int, To_int, To_int, To_buf 256, To_int]) (\<lambda>a.
       Inr \<lparr>dc_pid = int_arg a 2 (dc_pid g), dc_hostname = str_arg a 3 (dc_hostname g),
            dc_error_code = int_arg a 4 (dc_error_code g)\<rparr>)"

section \<open>Resource offers\<close>

text \<open>
  \<open>time_t\<close> is 64 bits wide. \<open>%d\<close> prints the low half of the argument, and on input it stores four
  bytes at the field's address: the high half keeps what \<open>malloc\<close> left there (little endian).
\<close>

definition set_low :: "u64 \<Rightarrow> u32 \<Rightarrow> u64" where
  "set_low old w = push_bit 32 (drop_bit 32 old) + ucast w"

definition dynpm_serialize_resource_offer_msg ::
    "dynpm_header \<Rightarrow> dynpm_resource_offer_msg \<Rightarrow> buffer \<Rightarrow> buffer res" where [wire_defs]:
  "dynpm_serialize_resource_offer_msg h m buf =
     sprintf buf ''%d %d %d %d %d %d %d''
       [AInt (hdr_source_type h), AInt (hdr_message_type h), AInt (ro_application_index m),
        AInt (ro_partition_index m), AInt (ro_node_count m),
        AInt (ucast (ro_creation_time m)), AInt (ucast (ro_end_time m))]"

definition dynpm_deserialize_resource_offer_msg ::
    "dynpm_resource_offer_msg \<Rightarrow> buffer \<Rightarrow> dynpm_resource_offer_msg res" where [wire_defs]:
  "dynpm_deserialize_resource_offer_msg g buf =
     rbind (sscanf_buf buf ''%d %d %d %d %d %d %d''
              [To_int, To_int, To_int, To_int, To_int, To_int, To_int]) (\<lambda>a.
       Inr \<lparr>ro_application_index = int_arg a 2 (ro_application_index g),
            ro_partition_index = int_arg a 3 (ro_partition_index g),
            ro_node_count = int_arg a 4 (ro_node_count g),
            ro_creation_time = set_low (ro_creation_time g) (int_arg a 5 (ucast (ro_creation_time g))),
            ro_end_time = set_low (ro_end_time g) (int_arg a 6 (ucast (ro_end_time g)))\<rparr>)"

section \<open>TBON set-up and ready counts\<close>

definition dynpm_serialize_create_tbon_msg ::
    "dynpm_header \<Rightarrow> dynpm_create_tbon_msg \<Rightarrow> buffer \<Rightarrow> buffer res" where [wire_defs]:
  "dynpm_serialize_create_tbon_msg h m buf =
     sprintf buf ''%d %d %d %d %d %s''
       [AInt (hdr_source_type h), AInt (hdr_message_type h), AInt (ct_id m), AInt (ct_degree m),
        AInt (ct_total m), AStr (ct_nodes m)]"

definition dynpm_deserialize_create_tbon_msg ::
    "dynpm_create_tbon_msg \<Rightarrow> buffer \<Rightarrow> dynpm_create_tbon_msg res" where [wire_defs]:
  "dynpm_deserialize_create_tbon_msg g buf =
     rbind (sscanf_buf buf ''%d %d %d %d %d %s'' [To_int, To_int, To_int, To_int, To_int, To_buf 256]) (\<lambda>a.
       Inr \<lparr>ct_id = int_arg a 2 (ct_id g), ct_degree = int_arg a 3 (ct_degree g),
            ct_total = int_arg a 4 (ct_total g), ct_nodes = str_arg a 5 (ct_nodes g)\<rparr>)"

definition dynpm_serialize_ready_msg ::
    "dynpm_header \<Rightarrow> dynpm_ready_msg \<Rightarrow> buffer \<Rightarrow> buffer res" where [wire_defs]:
  "dynpm_serialize_ready_msg h m buf =
     sprintf buf ''%d %d %d %d %d''
       [AInt (hdr_source_type h), AInt (hdr_message_type h), AInt (rd_id m),
        AInt (rd_subtree_ready_count m), AInt (rd_error_code m)]"

definition dynpm_deserialize_ready_msg :: "dynpm_ready_msg \<Rightarrow> buffer \<Rightarrow> dynpm_ready_msg res" where [wire_defs]:
  "dynpm_deserialize_ready_msg g buf =
     rbind (sscanf_buf buf ''%d %d %d %d %d'' [To_int, To_int, To_int, To_int, To_int]) (\<lambda>a.
       Inr \<lparr>rd_id = int_arg a 2 (rd_id g), rd_subtree_ready_count = int_arg a 3 (rd_subtree_ready_count g),
            rd_error_code = int_arg a 4 (rd_error_code g)\<rparr>)"

definition dynpm_serialize_ready_tbon_msg ::
    "dynpm_header \<Rightarrow> dynpm_ready_msg \<Rightarrow> buffer \<Rightarrow> buffer res" where
  "dynpm_serialize_ready_tbon_msg = dynpm_serialize_ready_msg"

definition dynpm_serialize_ready_dynamic_pm_msg ::
    "dynpm_header \<Rightarrow> dynpm_ready_msg \<Rightarrow> buffer \<Rightarrow> buffer res" where
  "dynpm_serialize_ready_dynamic_pm_msg = dynpm_serialize_ready_msg"

definition dynpm_serialize_processes_done_msg ::
    "dynpm_header \<Rightarrow> dynpm_ready_msg \<Rightarrow> buffer \<Rightarrow> buffer res" where
  "dynpm_serialize_processes_done_msg = dynpm_serialize_ready_msg"

definition dynpm_deserialize_ready_tbon_msg :: "dynpm_ready_msg \<Rightarrow> buffer \<Rightarrow> dynpm_ready_msg res" where
  "dynpm_deserialize_ready_tbon_msg = dynpm_deserialize_ready_msg"

definition dynpm_deserialize_ready_dynamic_pm_msg :: "dynpm_ready_msg \<Rightarrow> buffer \<Rightarrow> dynpm_ready_msg res" where
  "dynpm_deserialize_ready_dynamic_pm_msg = dynpm_deserialize_ready_msg"

definition dynpm_deserialize_processes_done_msg :: "dynpm_ready_msg \<Rightarrow> buffer \<Rightarrow> dynpm_ready_msg res" where
  "dynpm_deserialize_processes_done_msg = dynpm_deserialize_ready_msg"

section \<open>Process manager registration\<close>

text \<open>
  The loop variable of the serialiser is declared without an initial value (\<open>for(int app; ...)\<close>),
  so its first value is the argument \<open>app\<close>, as the unsigned number the comparison with the
  \<open>uint32_t\<close> count converts it to. \<open>temp\<close> is the 256-byte block each line is printed into.
\<close>

function serialize_applications ::
    "nat \<Rightarrow> nat \<Rightarrow> dynpm_application list \<Rightarrow> buffer \<Rightarrow> buffer \<Rightarrow> buffer res" where
  "serialize_applications app count apps temp buf =
     (if app < count then
        rassert (app < 2 ^ 31 \<and> app < length apps) Out_Of_Bounds
          (rbind (sprintf temp ''%d %d %d %s \<newline>''
                   [AInt (app_application_index (apps ! app)), AInt (app_malleability_mode (apps ! app)),
                    AInt (app_node_count (apps ! app)), AStr (app_nodes (apps ! app))]) (\<lambda>temp'.
           rbind (c_str temp') (\<lambda>line.
           rbind (strcat buf line) (\<lambda>buf'.
             serialize_applications (Suc app) count apps temp' buf'))))
      else Inr buf)"
  by pat_completeness auto
termination
  by (relation "measure (\<lambda>(app, count, _). count - app)") auto

declare serialize_applications.simps [simp del]

definition dynpm_serialize_register_process_manager_msg ::
    "u32 \<Rightarrow> buffer \<Rightarrow> dynpm_header \<Rightarrow> dynpm_register_process_manager_msg \<Rightarrow> buffer \<Rightarrow> buffer res" where
  "dynpm_serialize_register_process_manager_msg app temp h m buf =
     rbind (sprintf buf ''%d %d %d %s %d %d \<newline>''
              [AInt (hdr_source_type h), AInt (hdr_message_type h), AInt (rp_pid m), AStr (rp_hostname m),
               AInt (rp_job_index m), AInt (rp_application_count m)]) (\<lambda>b.
       serialize_applications (unat app) (unat (rp_application_count m)) (rp_applications m) temp b)"

text \<open>
  The reader cuts the buffer into lines with \<open>strtok\<close>, which overwrites the line ends, and hands
  the line to \<open>sscanf\<close> unchecked: when the lines run out it passes a null pointer. \<open>ga\<close> gives the
  indeterminate contents of the blocks allocated in the loop.
\<close>

fun deserialize_applications ::
    "(nat \<Rightarrow> dynpm_application) \<Rightarrow> nat \<Rightarrow> nat \<Rightarrow> buffer \<Rightarrow> nat \<Rightarrow> (dynpm_application list \<times> buffer) res" where
  "deserialize_applications ga app 0 buf pos = Inr ([], buf)"
| "deserialize_applications ga app (Suc n) buf pos =
     rbind (strtok_buf buf pos) (\<lambda>tok.
       case tok of None \<Rightarrow> Inl Null_Deref
       | Some (line, pos', buf') \<Rightarrow>
           rbind (sscanf line ''%d %d %d %s'' [To_int, To_int, To_int, To_buf 512]) (\<lambda>a.
           rbind (deserialize_applications ga (Suc app) n buf' pos') (\<lambda>(apps, b).
             Inr (\<lparr>app_application_index = int_arg a 0 (app_application_index (ga app)),
                   app_malleability_mode = int_arg a 1 (app_malleability_mode (ga app)),
                   app_node_count = int_arg a 2 (app_node_count (ga app)),
                   app_nodes = str_arg a 3 (app_nodes (ga app))\<rparr> # apps, b))))"

definition dynpm_deserialize_register_process_manager_msg ::
    "dynpm_register_process_manager_msg \<Rightarrow> (nat \<Rightarrow> dynpm_application) \<Rightarrow> buffer \<Rightarrow>
     (dynpm_register_process_manager_msg \<times> buffer) res" where
  "dynpm_deserialize_register_process_manager_msg g ga buf =
     rbind (strtok_buf buf 0) (\<lambda>tok.
       case tok of None \<Rightarrow> Inl Null_Deref
       | Some (line, pos, buf') \<Rightarrow>
           rbind (sscanf line ''%d %d %d %s %d %d'' [To_int, To_int, To_int, To_buf 256, To_int, To_int]) (\<lambda>a.
           let count = int_arg a 5 (rp_application_count g) in
           rbind (deserialize_applications ga 0 (unat count) buf' pos) (\<lambda>(apps, b).
             Inr (\<lparr>rp_pid = int_arg a 2 (rp_pid g), rp_hostname = str_arg a 3 (rp_hostname g),
                   rp_job_index = int_arg a 4 (rp_job_index g), rp_application_count = count,
                   rp_applications = apps\<rparr>, b))))"

definition dynpm_serialize_deregister_process_manager_msg ::
    "dynpm_header \<Rightarrow> dynpm_deregister_process_manager_msg \<Rightarrow> buffer \<Rightarrow> buffer res" where [wire_defs]:
  "dynpm_serialize_deregister_process_manager_msg h m buf =
     sprintf buf ''%d %d %d %s %d \<newline>''
       [AInt (hdr_source_type h), AInt (hdr_message_type h), AInt (dp_pid m), AStr (dp_hostname m),
        AInt (dp_error_code m)]"

definition dynpm_deserialize_deregister_process_manager_msg ::
    "dynpm_deregister_process_manager_msg \<Rightarrow> buffer \<Rightarrow> dynpm_deregister_process_manager_msg res" where [wire_defs]:
  "dynpm_deserialize_deregister_process_manager_msg g buf =
     rbind (sscanf_buf buf ''%d %d %d %s %d'' [To_int, To_int, To_int, To_buf 256, To_int]) (\<lambda>a.
       Inr \<lparr>dp_pid = int_arg a 2 (dp_pid g), dp_hostname = str_arg a 3 (dp_hostname g),
            dp_error_code = int_arg a 4 (dp_error_code g)\<rparr>)"

section \<open>Allocation requests and reallocation\<close>

definition dynpm_serialize_allocation_request_msg ::
    "dynpm_header \<Rightarrow> dynpm_allocation_request_msg \<Rightarrow> buffer \<Rightarrow> buffer res" where [wire_defs]:
  "dynpm_serialize_allocation_request_msg h m buf =
     sprintf buf ''%d %d %d %d %d %d \<newline>''
       [AInt (hdr_source_type h), AInt (hdr_message_type h), AInt (ar_application_index m),
        AInt (ar_partition_index m), AInt (ar_type m), AInt (ar_node_count m)]"

definition dynpm_deserialize_allocation_request_msg ::
    "dynpm_allocation_request_msg \<Rightarrow> buffer \<Rightarrow> dynpm_allocation_request_msg res" where [wire_defs]:
  "dynpm_deserialize_allocation_request_msg g buf =
     rbind (sscanf_buf buf ''%d %d %d %d %d %d '' [To_int, To_int, To_int, To_int, To_int, To_int]) (\<lambda>a.
       Inr \<lparr>ar_application_index = int_arg a 2 (ar_application_index g),
            ar_partition_index = int_arg a 3 (ar_partition_index g),
            ar_type = int_arg a 4 (ar_type g), ar_node_count = int_arg a 5 (ar_node_count g)\<rparr>)"

definition dynpm_serialize_reallocation_start_msg ::
    "dynpm_header \<Rightarrow> dynpm_reallocation_start_msg \<Rightarrow> buffer \<Rightarrow> buffer res" where [wire_defs]:
  "dynpm_serialize_reallocation_start_msg h m buf =
     sprintf buf ''%d %d %d %d %d %d %s %d %s %d %s\<newline>''
       [AInt (hdr_source_type h), AInt (hdr_message_type h), AInt (rs_application_index m),
        AInt (rs_partition_index m), AInt (rs_type m), AInt (rs_current_node_count m),
        AStr (rs_current_nodes m), AInt (rs_delta_node_count m), AStr (rs_delta_nodes m),
        AInt (rs_updated_node_count m), AStr (rs_updated_nodes m)]"

definition dynpm_deserialize_reallocation_start_msg ::
    "dynpm_reallocation_start_msg \<Rightarrow> buffer \<Rightarrow> dynpm_reallocation_start_msg res" where [wire_defs]:
  "dynpm_deserialize_reallocation_start_msg g buf =
     rbind (sscanf_buf buf ''%d %d %d %d %d %d %s %d %s %d %s''
              [To_int, To_int, To_int, To_int, To_int, To_int, To_buf 1024, To_int, To_buf 1024,
               To_int, To_buf 1024]) (\<lambda>a.
       Inr \<lparr>rs_application_index = int_arg a 2 (rs_application_index g),
            rs_partition_index = int_arg a 3 (rs_partition_index g),
            rs_type = int_arg a 4 (rs_type g),
            rs_current_node_count = int_arg a 5 (rs_current_node_count g),
            rs_current_nodes = str_arg a 6 (rs_current_nodes g),
            rs_delta_node_count = int_arg a 7 (rs_delta_node_count g),
            rs_delta_nodes = str_arg a 8 (rs_delta_nodes g),
            rs_updated_node_count = int_arg a 9 (rs_updated_node_count g),
            rs_updated_nodes = str_arg a 10 (rs_updated_nodes g)\<rparr>)"

definition dynpm_serialize_reallocation_complete_msg ::
    "dynpm_header \<Rightarrow> dynpm_reallocation_complete_msg \<Rightarrow> buffer \<Rightarrow> buffer res" where [wire_defs]:
  "dynpm_serialize_reallocation_complete_msg h m buf =
     sprintf buf ''%d %d %d %d %d %d %s %d\<newline>''
       [AInt (hdr_source_type h), AInt (hdr_message_type h), AInt (rf_application_index m),
        AInt (rf_partition_index m), AInt (rf_type m), AInt (rf_node_count m), AStr (rf_nodes m),
        AInt (rf_status_code m)]"

definition dynpm_deserialize_reallocation_complete_msg ::
    "dynpm_reallocation_complete_msg \<Rightarrow> buffer \<Rightarrow> dynpm_reallocation_complete_msg res" where [wire_defs]:
  "dynpm_deserialize_reallocation_complete_msg g buf =
     rbind (sscanf_buf buf ''%d %d %d %d %d %d %s %d''
              [To_int, To_int, To_int, To_int, To_int, To_int, To_buf 256, To_int]) (\<lambda>a.
       Inr \<lparr>rf_application_index = int_arg a 2 (rf_application_index g),
            rf_partition_index = int_arg a 3 (rf_partition_index g),
            rf_type = int_arg a 4 (rf_type g), rf_node_count = int_arg a 5 (rf_node_count g),
            rf_nodes = str_arg a 6 (rf_nodes g), rf_status_code = int_arg a 7 (rf_status_code g)\<rparr>)"

section \<open>Messages with a binary payload\<close>

text \<open>
  The text part is asserted to be shorter than 256 bytes; the payload is copied behind it, at
  offset 256 of the message buffer, when its length is not zero.
\<close>

definition put_payload :: "buffer \<Rightarrow> u32 \<Rightarrow> char list option \<Rightarrow> buffer res" where [wire_defs]:
  "put_payload buf n payload =
     rbind (c_str buf) (\<lambda>s. rassert (length s < 256) Assert_Failed
       (if n > 0 then
          (case payload of None \<Rightarrow> Inl Null_Deref | Some p \<Rightarrow> memcpy_to buf 256 p (unat n))
        else Inr buf))"

definition get_payload :: "buffer \<Rightarrow> u32 \<Rightarrow> char list option res" where [wire_defs]:
  "get_payload buf n =
     rbind (c_str buf) (\<lambda>s. rassert (length s < 256) Assert_Failed
       (if n > 0 then rbind (memcpy_from buf 256 (unat n)) (\<lambda>p. Inr (Some p)) else Inr None))"

definition dynpm_serialize_dynamic_pm_launch_msg ::
    "dynpm_header \<Rightarrow> dynpm_dynamic_pm_launch_msg \<Rightarrow> buffer \<Rightarrow> buffer res" where
  "dynpm_serialize_dynamic_pm_launch_msg h m buf =
     rbind (sprintf buf ''%d %d %d %d %d \<newline>''
              [AInt (hdr_source_type h), AInt (hdr_message_type h), AInt (dl_id m), AInt (dl_type m),
               AInt (dl_payload_bytes m)]) (\<lambda>b.
       put_payload b (dl_payload_bytes m) (dl_payload m))"

definition dynpm_deserialize_dynamic_pm_launch_msg ::
    "dynpm_dynamic_pm_launch_msg \<Rightarrow> buffer \<Rightarrow> dynpm_dynamic_pm_launch_msg res" where
  "dynpm_deserialize_dynamic_pm_launch_msg g buf =
     rbind (sscanf_buf buf ''%d %d %d %d %d'' [To_int, To_int, To_int, To_int, To_int]) (\<lambda>a.
       let n = int_arg a 4 (dl_payload_bytes g) in
       rbind (get_payload buf n) (\<lambda>p.
         Inr \<lparr>dl_id = int_arg a 2 (dl_id g), dl_type = int_arg a 3 (dl_type g),
              dl_payload_bytes = n, dl_payload = p\<rparr>))"

definition dynpm_serialize_dynamic_io_out_msg ::
    "dynpm_header \<Rightarrow> dynpm_dynamic_io_out_msg \<Rightarrow> buffer \<Rightarrow> buffer res" where
  "dynpm_serialize_dynamic_io_out_msg h m buf =
     rbind (sprintf buf ''%d %d %d %s %d \<newline>''
              [AInt (hdr_source_type h), AInt (hdr_message_type h), AInt (io_id m), AStr (io_host m),
               AInt (io_payload_bytes m)]) (\<lambda>b.
       put_payload b (io_payload_bytes m) (io_payload m))"

definition dynpm_deserialize_dynamic_io_out_msg ::
    "dynpm_dynamic_io_out_msg \<Rightarrow> buffer \<Rightarrow> dynpm_dynamic_io_out_msg res" where
  "dynpm_deserialize_dynamic_io_out_msg g buf =
     rbind (sscanf_buf buf ''%d %d %d %s %d '' [To_int, To_int, To_int, To_buf 256, To_int]) (\<lambda>a.
       let n = int_arg a 4 (io_payload_bytes g) in
       rbind (get_payload buf n) (\<lambda>p.
         Inr \<lparr>io_id = int_arg a 2 (io_id g), io_host = str_arg a 3 (io_host g),
              io_payload_bytes = n, io_payload = p\<rparr>))"

definition dynpm_serialize_report_process_data_msg ::
    "dynpm_header \<Rightarrow> dynpm_report_process_data_msg \<Rightarrow> buffer \<Rightarrow> buffer res" where
  "dynpm_serialize_report_process_data_msg h m buf =
     rbind (sprintf buf ''%d %d %d %d %d %d %d\<newline>''
              [AInt (hdr_source_type h), AInt (hdr_message_type h), AInt (pr_id m), AInt (pr_job_index m),
               AInt (pr_application_index m), AInt (pr_malleability_mode m), AInt (pr_payload_bytes m)]) (\<lambda>b.
       put_payload b (pr_payload_bytes m) (pr_payload m))"

definition dynpm_deserialize_report_process_data_msg ::
    "dynpm_report_process_data_msg \<Rightarrow> buffer \<Rightarrow> dynpm_report_process_data_msg res" where
  "dynpm_deserialize_report_process_data_msg g buf =
     rbind (sscanf_buf buf ''%d %d %d %d %d %d %d''
              [To_int, To_int, To_int, To_int, To_int, To_int, To_int]) (\<lambda>a.
       let n = int_arg a 6 (pr_payload_bytes g) in
       rbind (get_payload buf n) (\<lambda>p.
         Inr \<lparr>pr_id = int_arg a 2 (pr_id g), pr_job_index = int_arg a 3 (pr_job_index g),
              pr_application_index = int_arg a 4 (pr_application_index g),
              pr_malleability_mode = int_arg a 5 (pr_malleability_mode g),
              pr_payload_bytes = n, pr_payload = p\<rparr>))"

section \<open>The contract of a codec\<close>

text \<open>
  \<open>ok m\<close>: the message is one the codec can carry. \<open>recv g m\<close>: what the receiver ends up with when
  the structure held \<open>g\<close> before (\<open>m\<close> itself for all codecs but the resource offer). The laws:
  serialising an acceptable message succeeds in a buffer of the fixed message size and keeps its
  size; the receiver recovers the header, and the message, from the bytes alone.
\<close>

locale wire_codec =
  fixes ser :: "dynpm_header \<Rightarrow> 'm \<Rightarrow> buffer \<Rightarrow> buffer res"
    and des :: "'m \<Rightarrow> buffer \<Rightarrow> 'm res"
    and ok :: "'m \<Rightarrow> bool"
    and recv :: "'m \<Rightarrow> 'm \<Rightarrow> 'm"
  assumes ser_total: "ok m \<Longrightarrow> length buf = DYNPM_MAX_MESSAGE_SIZE \<Longrightarrow> \<exists>b. ser h m buf = Inr b"
    and ser_length: "ser h m buf = Inr b \<Longrightarrow> length b = length buf"
    and ser_header: "ok m \<Longrightarrow> ser h m buf = Inr b \<Longrightarrow> dynpm_deserialize_header hg b = Inr h"
    and ser_des: "ok m \<Longrightarrow> ser h m buf = Inr b \<Longrightarrow> des g b = Inr (recv g m)"
begin

lemma transmit:
  assumes "ok m" and "length buf = DYNPM_MAX_MESSAGE_SIZE"
  shows "\<exists>b. ser h m buf = Inr b \<and> length b = DYNPM_MAX_MESSAGE_SIZE \<and>
           dynpm_deserialize_header hg b = Inr h \<and> des g b = Inr (recv g m)"
proof -
  from ser_total [OF assms] obtain b where "ser h m buf = Inr b" ..
  with assms show ?thesis using ser_length ser_header ser_des by metis
qed

text \<open>The bytes determine the header and what is received.\<close>

lemma ser_inject:
  assumes "ok m" "ok m'" "ser h m buf = Inr b" "ser h' m' buf' = Inr b"
  shows "h = h' \<and> recv g m = recv g m'"
  using assms ser_header [of m h buf b] ser_header [of m' h' buf' b]
    ser_des [of m h buf b g] ser_des [of m' h' buf' b g] by simp

end

text \<open>The header fields are the first two values of every message's text.\<close>

definition hargs :: "dynpm_header \<Rightarrow> arg list" where
  "hargs h = [AInt (hdr_source_type h), AInt (hdr_message_type h)]"

lemma deserialize_header_from_text:
  assumes "sprintf buf f (hargs h @ as) = Inr b" and "printable (parse_fmt f) (hargs h @ as)"
    and "covers (parse_fmt f) (parse_fmt ''%d %d'')" and "c_str b' = c_str b"
  shows "dynpm_deserialize_header g b' = Inr h"
proof -
  have "fits (parse_fmt ''%d %d'') [To_int, To_int] (hargs h)" by (simp add: hargs_def)
  with assms(1-3) have "sscanf_buf b ''%d %d'' [To_int, To_int] = Inr (hargs h)"
    by (rule sprintf_sscanf)
  with assms(4) have "sscanf_buf b' ''%d %d'' [To_int, To_int] = Inr (hargs h)"
    by (simp add: sscanf_buf_def)
  then show ?thesis by (simp add: dynpm_deserialize_header_def hargs_def)
qed

text \<open>A codec that is one \<open>sprintf\<close> and one \<open>sscanf\<close>.\<close>

locale text_codec =
  fixes ser :: "dynpm_header \<Rightarrow> 'm \<Rightarrow> buffer \<Rightarrow> buffer res"
    and des :: "'m \<Rightarrow> buffer \<Rightarrow> 'm res"
    and ok :: "'m \<Rightarrow> bool"
    and recv :: "'m \<Rightarrow> 'm \<Rightarrow> 'm"
    and f f' :: string
    and dst :: "dest list"
    and args :: "'m \<Rightarrow> arg list"
    and upd :: "'m \<Rightarrow> arg list \<Rightarrow> 'm"
  assumes ser_eq: "ser h m buf = sprintf buf f (hargs h @ args m)"
    and des_eq: "des g buf = rbind (sscanf_buf buf f' dst) (\<lambda>a. Inr (upd g a))"
    and prints: "ok m \<Longrightarrow> printable (parse_fmt f) (hargs h @ args m)"
    and bound: "ok m \<Longrightarrow> out_bound (parse_fmt f) (hargs h @ args m) < DYNPM_MAX_MESSAGE_SIZE"
    and follows: "covers (parse_fmt f) (parse_fmt f') \<and> covers (parse_fmt f) (parse_fmt ''%d %d'')"
    and suits: "ok m \<Longrightarrow> fits (parse_fmt f') dst (hargs h @ args m)"
    and result: "ok m \<Longrightarrow> upd g (hargs h @ args m) = recv g m"
begin

lemma text_des:
  assumes "ok m" and "ser h m buf = Inr b"
  shows "des g b = Inr (recv g m)"
proof -
  have "sscanf_buf b f' dst = Inr (hargs h @ args m)"
    using sprintf_sscanf [of buf f "hargs h @ args m" "[]" b f' dst]
      prints [OF assms(1)] suits [OF assms(1)] follows assms(2) ser_eq by simp
  then show ?thesis using assms(1) by (simp add: des_eq result)
qed

end

sublocale text_codec \<subseteq> wire_codec ser des ok recv
proof
  fix m buf h
  assume "ok m" and "length (buf :: buffer) = DYNPM_MAX_MESSAGE_SIZE"
  then show "\<exists>b. ser h m buf = Inr b"
    using sprintf_total [OF prints, of m h buf] bound [of m h] by (simp add: ser_eq)
next
  fix h m buf b
  assume "ser h m buf = Inr b"
  then show "length b = length buf" by (simp add: ser_eq length_sprintf)
next
  fix m h buf b hg
  assume "ok m" and "ser h m buf = Inr b"
  then show "dynpm_deserialize_header hg b = Inr h"
    using deserialize_header_from_text [of buf f h "args m" b b hg] prints follows by (simp add: ser_eq)
next
  fix m h buf b g
  assume "ok m" and "ser h m buf = Inr b"
  then show "des g b = Inr (recv g m)" by (rule text_des)
qed

text \<open>A codec with a payload at offset 256 behind the text.\<close>

definition payload_ok :: "u32 \<Rightarrow> char list option \<Rightarrow> bool" where
  "payload_ok n p \<longleftrightarrow>
     (case p of None \<Rightarrow> n = 0 | Some q \<Rightarrow> 0 < n \<and> length q = unat n \<and> 256 + unat n \<le> DYNPM_MAX_MESSAGE_SIZE)"

locale payload_codec =
  fixes ser :: "dynpm_header \<Rightarrow> 'm \<Rightarrow> buffer \<Rightarrow> buffer res"
    and des :: "'m \<Rightarrow> buffer \<Rightarrow> 'm res"
    and ok :: "'m \<Rightarrow> bool"
    and f f' :: string
    and dst :: "dest list"
    and args :: "'m \<Rightarrow> arg list"
    and bytes :: "'m \<Rightarrow> u32"
    and payload :: "'m \<Rightarrow> char list option"
    and nof :: "'m \<Rightarrow> arg list \<Rightarrow> u32"
    and upd :: "'m \<Rightarrow> arg list \<Rightarrow> char list option \<Rightarrow> 'm"
  assumes ser_eq: "ser h m buf = rbind (sprintf buf f (hargs h @ args m)) (\<lambda>b. put_payload b (bytes m) (payload m))"
    and des_eq: "des g buf = rbind (sscanf_buf buf f' dst) (\<lambda>a. rbind (get_payload buf (nof g a)) (\<lambda>p. Inr (upd g a p)))"
    and prints: "ok m \<Longrightarrow> printable (parse_fmt f) (hargs h @ args m)"
    and bound: "ok m \<Longrightarrow> out_bound (parse_fmt f) (hargs h @ args m) < 256"
    and follows: "covers (parse_fmt f) (parse_fmt f') \<and> covers (parse_fmt f) (parse_fmt ''%d %d'')"
    and suits: "ok m \<Longrightarrow> fits (parse_fmt f') dst (hargs h @ args m)"
    and count: "ok m \<Longrightarrow> nof g (hargs h @ args m) = bytes m"
    and pay: "ok m \<Longrightarrow> payload_ok (bytes m) (payload m)"
    and result: "ok m \<Longrightarrow> upd g (hargs h @ args m) (payload m) = m"
begin

text \<open>The text is in the buffer before and after the payload is copied, and is short enough.\<close>

lemma put_after_text:
  assumes "ok m" and "sprintf buf f (hargs h @ args m) = Inr b" and "put_payload b (bytes m) (payload m) = Inr b'"
  shows "c_str b' = c_str b \<and> length b' = length b \<and> get_payload b' (bytes m) = Inr (payload m)"
proof -
  from assms(1,2) obtain s where s: "c_str b = Inr s" "length s \<le> out_bound (parse_fmt f) (hargs h @ args m)"
    using prints sprintf_c_str by blast
  then have len: "length s < 256" using bound [OF assms(1), of h] by simp
  show ?thesis
  proof (cases "payload m")
    case None
    then have "bytes m = 0" using pay [OF assms(1)] by (simp add: payload_ok_def)
    with None s len assms(3) show ?thesis by (simp add: put_payload_def get_payload_def)
  next
    case (Some q)
    then have q: "0 < bytes m" "length q = unat (bytes m)"
      using pay [OF assms(1)] by (simp_all add: payload_ok_def)
    with Some s len assms(3) have m: "memcpy_to b 256 q (unat (bytes m)) = Inr b'"
      by (simp add: put_payload_def)
    have c: "c_str b' = Inr s" by (rule c_str_memcpy_to [OF s(1) len m])
    from memcpy_from_to [OF m] have "memcpy_from b' 256 (unat (bytes m)) = Inr q" using q by simp
    with c q(1) len Some s(1) length_memcpy_to [OF m] show ?thesis by (simp add: get_payload_def)
  qed
qed

lemma put_total:
  assumes "ok m" and "sprintf buf f (hargs h @ args m) = Inr b" and "length b = DYNPM_MAX_MESSAGE_SIZE"
  shows "\<exists>b'. put_payload b (bytes m) (payload m) = Inr b'"
proof -
  from assms(1,2) obtain s where "c_str b = Inr s" "length s \<le> out_bound (parse_fmt f) (hargs h @ args m)"
    using prints sprintf_c_str by blast
  moreover from this have "length s < 256" using bound [OF assms(1), of h] by simp
  ultimately show ?thesis using pay [OF assms(1)] assms(3)
    by (auto simp: put_payload_def payload_ok_def memcpy_to_def split: option.splits)
qed

end

sublocale payload_codec \<subseteq> wire_codec ser des ok "\<lambda>g m. m"
proof
  fix m buf h
  assume ok: "ok m" and len: "length (buf :: buffer) = DYNPM_MAX_MESSAGE_SIZE"
  have "out_bound (parse_fmt f) (hargs h @ args m) < length buf"
    using bound [OF ok, of h] len by (simp add: DYNPM_MAX_MESSAGE_SIZE_def)
  then obtain b where b: "sprintf buf f (hargs h @ args m) = Inr b"
    using sprintf_total [OF prints [OF ok]] by blast
  then show "\<exists>b. ser h m buf = Inr b"
    using put_total [OF ok b] len length_sprintf [OF b] by (simp add: ser_eq)
next
  fix h m buf b
  assume "ser h m buf = Inr b"
  then show "length b = length buf"
    by (auto simp: ser_eq put_payload_def res_simps split: if_splits option.splits
        dest!: length_sprintf length_memcpy_to)
next
  fix m h buf b' hg
  assume ok: "ok m" and "ser h m buf = Inr b'"
  then obtain b where b: "sprintf buf f (hargs h @ args m) = Inr b"
    and "put_payload b (bytes m) (payload m) = Inr b'" by (auto simp: ser_eq res_simps)
  then have "c_str b' = c_str b" using put_after_text [OF ok] by blast
  then show "dynpm_deserialize_header hg b' = Inr h"
    using deserialize_header_from_text [OF b] prints [OF ok] follows by blast
next
  fix m h buf b' g
  assume ok: "ok m" and "ser h m buf = Inr b'"
  then obtain b where b: "sprintf buf f (hargs h @ args m) = Inr b"
    and "put_payload b (bytes m) (payload m) = Inr b'" by (auto simp: ser_eq res_simps)
  then have c: "c_str b' = c_str b" and p: "get_payload b' (bytes m) = Inr (payload m)"
    using put_after_text [OF ok] by blast+
  have "sscanf_buf b f' dst = Inr (hargs h @ args m)"
    using sprintf_sscanf [of buf f "hargs h @ args m" "[]" b f' dst] b prints [OF ok] suits [OF ok] follows
    by simp
  then show "des g b' = Inr m"
    using p ok by (simp add: des_eq count result sscanf_buf_cong [OF c])
qed

section \<open>Every message of the protocol is a codec\<close>

abbreviation same_msg :: "'m \<Rightarrow> 'm \<Rightarrow> 'm" where
  "same_msg g m \<equiv> m"

lemmas codec_simps = wire_defs hargs_def DYNPM_MAX_MESSAGE_SIZE_def

definition register_connection_ok :: "dynpm_register_connection_msg \<Rightarrow> bool" where
  "register_connection_ok m \<longleftrightarrow> word_ok 256 (rc_hostname m)"

interpretation rc: text_codec dynpm_serialize_register_connection_msg
  dynpm_deserialize_register_connection_msg register_connection_ok same_msg
  "''%d %d %d %s''" "''%d %d %d %s''" "[To_int, To_int, To_int, To_buf 256]"
  "\<lambda>m. [AInt (rc_pid m), AStr (rc_hostname m)]"
  "\<lambda>g a. \<lparr>rc_pid = int_arg a 2 (rc_pid g), rc_hostname = str_arg a 3 (rc_hostname g)\<rparr>"
  by unfold_locales (auto simp: codec_simps register_connection_ok_def dest: word_ok_length)

definition deregister_connection_ok :: "dynpm_deregister_connection_msg \<Rightarrow> bool" where
  "deregister_connection_ok m \<longleftrightarrow> word_ok 256 (dc_hostname m)"

interpretation dc: text_codec dynpm_serialize_deregister_connection_msg
  dynpm_deserialize_deregister_connection_msg deregister_connection_ok same_msg
  "''%d %d %d %s %d''" "''%d %d %d %s %d''" "[To_int, To_int, To_int, To_buf 256, To_int]"
  "\<lambda>m. [AInt (dc_pid m), AStr (dc_hostname m), AInt (dc_error_code m)]"
  "\<lambda>g a. \<lparr>dc_pid = int_arg a 2 (dc_pid g), dc_hostname = str_arg a 3 (dc_hostname g),
          dc_error_code = int_arg a 4 (dc_error_code g)\<rparr>"
  by unfold_locales (auto simp: codec_simps deregister_connection_ok_def dest: word_ok_length)

definition resource_offer_recv ::
    "dynpm_resource_offer_msg \<Rightarrow> dynpm_resource_offer_msg \<Rightarrow> dynpm_resource_offer_msg" where
  "resource_offer_recv g m =
     m\<lparr>ro_creation_time := set_low (ro_creation_time g) (ucast (ro_creation_time m)),
       ro_end_time := set_low (ro_end_time g) (ucast (ro_end_time m))\<rparr>"

interpretation ro: text_codec dynpm_serialize_resource_offer_msg
  dynpm_deserialize_resource_offer_msg "\<lambda>m. True" resource_offer_recv
  "''%d %d %d %d %d %d %d''" "''%d %d %d %d %d %d %d''"
  "[To_int, To_int, To_int, To_int, To_int, To_int, To_int]"
  "\<lambda>m. [AInt (ro_application_index m), AInt (ro_partition_index m), AInt (ro_node_count m),
        AInt (ucast (ro_creation_time m)), AInt (ucast (ro_end_time m))]"
  "\<lambda>g a. \<lparr>ro_application_index = int_arg a 2 (ro_application_index g),
          ro_partition_index = int_arg a 3 (ro_partition_index g),
          ro_node_count = int_arg a 4 (ro_node_count g),
          ro_creation_time = set_low (ro_creation_time g) (int_arg a 5 (ucast (ro_creation_time g))),
          ro_end_time = set_low (ro_end_time g) (int_arg a 6 (ucast (ro_end_time g)))\<rparr>"
  by unfold_locales (auto simp: codec_simps resource_offer_recv_def)

definition create_tbon_ok :: "dynpm_create_tbon_msg \<Rightarrow> bool" where
  "create_tbon_ok m \<longleftrightarrow> word_ok 256 (ct_nodes m)"

interpretation ct: text_codec dynpm_serialize_create_tbon_msg
  dynpm_deserialize_create_tbon_msg create_tbon_ok same_msg
  "''%d %d %d %d %d %s''" "''%d %d %d %d %d %s''"
  "[To_int, To_int, To_int, To_int, To_int, To_buf 256]"
  "\<lambda>m. [AInt (ct_id m), AInt (ct_degree m), AInt (ct_total m), AStr (ct_nodes m)]"
  "\<lambda>g a. \<lparr>ct_id = int_arg a 2 (ct_id g), ct_degree = int_arg a 3 (ct_degree g),
          ct_total = int_arg a 4 (ct_total g), ct_nodes = str_arg a 5 (ct_nodes g)\<rparr>"
  by unfold_locales (auto simp: codec_simps create_tbon_ok_def dest: word_ok_length)

interpretation rd: text_codec dynpm_serialize_ready_msg
  dynpm_deserialize_ready_msg "\<lambda>m. True" same_msg
  "''%d %d %d %d %d''" "''%d %d %d %d %d''" "[To_int, To_int, To_int, To_int, To_int]"
  "\<lambda>m. [AInt (rd_id m), AInt (rd_subtree_ready_count m), AInt (rd_error_code m)]"
  "\<lambda>g a. \<lparr>rd_id = int_arg a 2 (rd_id g), rd_subtree_ready_count = int_arg a 3 (rd_subtree_ready_count g),
          rd_error_code = int_arg a 4 (rd_error_code g)\<rparr>"
  by unfold_locales (auto simp: codec_simps)

lemmas ready_wrappers =
  dynpm_serialize_ready_tbon_msg_def dynpm_serialize_ready_dynamic_pm_msg_def
  dynpm_serialize_processes_done_msg_def dynpm_deserialize_ready_tbon_msg_def
  dynpm_deserialize_ready_dynamic_pm_msg_def dynpm_deserialize_processes_done_msg_def

interpretation rt: wire_codec dynpm_serialize_ready_tbon_msg dynpm_deserialize_ready_tbon_msg
  "\<lambda>m. True" same_msg
  unfolding ready_wrappers by (rule rd.wire_codec_axioms)

interpretation rm: wire_codec dynpm_serialize_ready_dynamic_pm_msg dynpm_deserialize_ready_dynamic_pm_msg
  "\<lambda>m. True" same_msg
  unfolding ready_wrappers by (rule rd.wire_codec_axioms)

interpretation pd: wire_codec dynpm_serialize_processes_done_msg dynpm_deserialize_processes_done_msg
  "\<lambda>m. True" same_msg
  unfolding ready_wrappers by (rule rd.wire_codec_axioms)

definition deregister_process_manager_ok :: "dynpm_deregister_process_manager_msg \<Rightarrow> bool" where
  "deregister_process_manager_ok m \<longleftrightarrow> word_ok 256 (dp_hostname m)"

interpretation dp: text_codec dynpm_serialize_deregister_process_manager_msg
  dynpm_deserialize_deregister_process_manager_msg deregister_process_manager_ok same_msg
  "''%d %d %d %s %d \<newline>''" "''%d %d %d %s %d''" "[To_int, To_int, To_int, To_buf 256, To_int]"
  "\<lambda>m. [AInt (dp_pid m), AStr (dp_hostname m), AInt (dp_error_code m)]"
  "\<lambda>g a. \<lparr>dp_pid = int_arg a 2 (dp_pid g), dp_hostname = str_arg a 3 (dp_hostname g),
          dp_error_code = int_arg a 4 (dp_error_code g)\<rparr>"
  by unfold_locales (auto simp: codec_simps deregister_process_manager_ok_def dest: word_ok_length)

interpretation ar: text_codec dynpm_serialize_allocation_request_msg
  dynpm_deserialize_allocation_request_msg "\<lambda>m. True" same_msg
  "''%d %d %d %d %d %d \<newline>''" "''%d %d %d %d %d %d ''"
  "[To_int, To_int, To_int, To_int, To_int, To_int]"
  "\<lambda>m. [AInt (ar_application_index m), AInt (ar_partition_index m), AInt (ar_type m), AInt (ar_node_count m)]"
  "\<lambda>g a. \<lparr>ar_application_index = int_arg a 2 (ar_application_index g),
          ar_partition_index = int_arg a 3 (ar_partition_index g),
          ar_type = int_arg a 4 (ar_type g), ar_node_count = int_arg a 5 (ar_node_count g)\<rparr>"
  by unfold_locales (auto simp: codec_simps)

lemma three_words_bound:
  "word_ok 1024 a \<Longrightarrow> word_ok 1024 b \<Longrightarrow> word_ok 1024 c \<Longrightarrow> length a + (length b + length c) < 3997"
  using word_ok_length [of 1024 a] word_ok_length [of 1024 b] word_ok_length [of 1024 c] by linarith

definition reallocation_start_ok :: "dynpm_reallocation_start_msg \<Rightarrow> bool" where
  "reallocation_start_ok m \<longleftrightarrow>
     word_ok 1024 (rs_current_nodes m) \<and> word_ok 1024 (rs_delta_nodes m) \<and> word_ok 1024 (rs_updated_nodes m)"

interpretation rs: text_codec dynpm_serialize_reallocation_start_msg
  dynpm_deserialize_reallocation_start_msg reallocation_start_ok same_msg
  "''%d %d %d %d %d %d %s %d %s %d %s\<newline>''" "''%d %d %d %d %d %d %s %d %s %d %s''"
  "[To_int, To_int, To_int, To_int, To_int, To_int, To_buf 1024, To_int, To_buf 1024, To_int, To_buf 1024]"
  "\<lambda>m. [AInt (rs_application_index m), AInt (rs_partition_index m), AInt (rs_type m),
        AInt (rs_current_node_count m), AStr (rs_current_nodes m), AInt (rs_delta_node_count m),
        AStr (rs_delta_nodes m), AInt (rs_updated_node_count m), AStr (rs_updated_nodes m)]"
  "\<lambda>g a. \<lparr>rs_application_index = int_arg a 2 (rs_application_index g),
          rs_partition_index = int_arg a 3 (rs_partition_index g),
          rs_type = int_arg a 4 (rs_type g),
          rs_current_node_count = int_arg a 5 (rs_current_node_count g),
          rs_current_nodes = str_arg a 6 (rs_current_nodes g),
          rs_delta_node_count = int_arg a 7 (rs_delta_node_count g),
          rs_delta_nodes = str_arg a 8 (rs_delta_nodes g),
          rs_updated_node_count = int_arg a 9 (rs_updated_node_count g),
          rs_updated_nodes = str_arg a 10 (rs_updated_nodes g)\<rparr>"
  by unfold_locales (auto simp: codec_simps reallocation_start_ok_def intro: three_words_bound)

definition reallocation_complete_ok :: "dynpm_reallocation_complete_msg \<Rightarrow> bool" where
  "reallocation_complete_ok m \<longleftrightarrow> word_ok 256 (rf_nodes m)"

interpretation rf: text_codec dynpm_serialize_reallocation_complete_msg
  dynpm_deserialize_reallocation_complete_msg reallocation_complete_ok same_msg
  "''%d %d %d %d %d %d %s %d\<newline>''" "''%d %d %d %d %d %d %s %d''"
  "[To_int, To_int, To_int, To_int, To_int, To_int, To_buf 256, To_int]"
  "\<lambda>m. [AInt (rf_application_index m), AInt (rf_partition_index m), AInt (rf_type m),
        AInt (rf_node_count m), AStr (rf_nodes m), AInt (rf_status_code m)]"
  "\<lambda>g a. \<lparr>rf_application_index = int_arg a 2 (rf_application_index g),
          rf_partition_index = int_arg a 3 (rf_partition_index g),
          rf_type = int_arg a 4 (rf_type g), rf_node_count = int_arg a 5 (rf_node_count g),
          rf_nodes = str_arg a 6 (rf_nodes g), rf_status_code = int_arg a 7 (rf_status_code g)\<rparr>"
  by unfold_locales (auto simp: codec_simps reallocation_complete_ok_def dest: word_ok_length)

definition launch_ok :: "dynpm_dynamic_pm_launch_msg \<Rightarrow> bool" where
  "launch_ok m \<longleftrightarrow> payload_ok (dl_payload_bytes m) (dl_payload m)"

interpretation dl: payload_codec dynpm_serialize_dynamic_pm_launch_msg
  dynpm_deserialize_dynamic_pm_launch_msg launch_ok
  "''%d %d %d %d %d \<newline>''" "''%d %d %d %d %d''" "[To_int, To_int, To_int, To_int, To_int]"
  "\<lambda>m. [AInt (dl_id m), AInt (dl_type m), AInt (dl_payload_bytes m)]" dl_payload_bytes dl_payload
  "\<lambda>g a. int_arg a 4 (dl_payload_bytes g)"
  "\<lambda>g a p. \<lparr>dl_id = int_arg a 2 (dl_id g), dl_type = int_arg a 3 (dl_type g),
            dl_payload_bytes = int_arg a 4 (dl_payload_bytes g), dl_payload = p\<rparr>"
  by unfold_locales
     (auto simp: hargs_def Let_def launch_ok_def dynpm_serialize_dynamic_pm_launch_msg_def
       dynpm_deserialize_dynamic_pm_launch_msg_def)

definition io_out_ok :: "dynpm_dynamic_io_out_msg \<Rightarrow> bool" where
  "io_out_ok m \<longleftrightarrow> word_ok 206 (io_host m) \<and> payload_ok (io_payload_bytes m) (io_payload m)"

lemma word_ok_mono: "word_ok n s \<Longrightarrow> n \<le> k \<Longrightarrow> word_ok k s"
  by (auto simp: word_ok_def)

interpretation io: payload_codec dynpm_serialize_dynamic_io_out_msg
  dynpm_deserialize_dynamic_io_out_msg io_out_ok
  "''%d %d %d %s %d \<newline>''" "''%d %d %d %s %d ''" "[To_int, To_int, To_int, To_buf 256, To_int]"
  "\<lambda>m. [AInt (io_id m), AStr (io_host m), AInt (io_payload_bytes m)]" io_payload_bytes io_payload
  "\<lambda>g a. int_arg a 4 (io_payload_bytes g)"
  "\<lambda>g a p. \<lparr>io_id = int_arg a 2 (io_id g), io_host = str_arg a 3 (io_host g),
            io_payload_bytes = int_arg a 4 (io_payload_bytes g), io_payload = p\<rparr>"
  by unfold_locales
     (auto simp: hargs_def Let_def io_out_ok_def dynpm_serialize_dynamic_io_out_msg_def
       dynpm_deserialize_dynamic_io_out_msg_def dest: word_ok_length elim: word_ok_mono)

definition report_ok :: "dynpm_report_process_data_msg \<Rightarrow> bool" where
  "report_ok m \<longleftrightarrow> payload_ok (pr_payload_bytes m) (pr_payload m)"

interpretation pr: payload_codec dynpm_serialize_report_process_data_msg
  dynpm_deserialize_report_process_data_msg report_ok
  "''%d %d %d %d %d %d %d\<newline>''" "''%d %d %d %d %d %d %d''"
  "[To_int, To_int, To_int, To_int, To_int, To_int, To_int]"
  "\<lambda>m. [AInt (pr_id m), AInt (pr_job_index m), AInt (pr_application_index m),
        AInt (pr_malleability_mode m), AInt (pr_payload_bytes m)]" pr_payload_bytes pr_payload
  "\<lambda>g a. int_arg a 6 (pr_payload_bytes g)"
  "\<lambda>g a p. \<lparr>pr_id = int_arg a 2 (pr_id g), pr_job_index = int_arg a 3 (pr_job_index g),
            pr_application_index = int_arg a 4 (pr_application_index g),
            pr_malleability_mode = int_arg a 5 (pr_malleability_mode g),
            pr_payload_bytes = int_arg a 6 (pr_payload_bytes g), pr_payload = p\<rparr>"
  by unfold_locales
     (auto simp: hargs_def Let_def report_ok_def dynpm_serialize_report_process_data_msg_def
       dynpm_deserialize_report_process_data_msg_def)

end
