(* ===== verification/Registration.thy ===== *)
theory Registration
  imports Protocol
begin

text \<open>
  The registration of a process manager, the one message of \<open>src/network/protocol.c\<close> with a list in
  it: a first line with the application count, one line per application. The lemmas follow the text
  through \<open>strcat\<close> and through the cuts of \<open>strtok\<close>; the codec contract holds when the uninitialised
  loop variable of the serialiser happens to start at zero.
\<close>

section \<open>Lines\<close>

definition app_args :: "dynpm_application \<Rightarrow> arg list" where
  "app_args a = [AInt (app_application_index a), AInt (app_malleability_mode a), AInt (app_node_count a),
                 AStr (app_nodes a)]"

definition app_line :: "dynpm_application \<Rightarrow> string" where
  "app_line a = fmt_d (app_application_index a) @ CHR '' '' # fmt_d (app_malleability_mode a) @ CHR '' '' #
                fmt_d (app_node_count a) @ CHR '' '' # app_nodes a @ [CHR '' '']"

definition app_text :: "dynpm_application \<Rightarrow> string" where
  "app_text a = app_line a @ [CHR 0x0A]"

definition rp_args :: "dynpm_header \<Rightarrow> dynpm_register_process_manager_msg \<Rightarrow> arg list" where
  "rp_args h m = hargs h @ [AInt (rp_pid m), AStr (rp_hostname m), AInt (rp_job_index m), AInt (rp_application_count m)]"

definition rp_line :: "dynpm_header \<Rightarrow> dynpm_register_process_manager_msg \<Rightarrow> string" where
  "rp_line h m = fmt_d (hdr_source_type h) @ CHR '' '' # fmt_d (hdr_message_type h) @ CHR '' '' #
     fmt_d (rp_pid m) @ CHR '' '' # rp_hostname m @ CHR '' '' # fmt_d (rp_job_index m) @ CHR '' '' #
     fmt_d (rp_application_count m) @ [CHR '' '']"

definition app_ok :: "dynpm_application \<Rightarrow> bool" where
  "app_ok a \<longleftrightarrow> word_ok 218 (app_nodes a)"

definition register_process_manager_ok :: "dynpm_register_process_manager_msg \<Rightarrow> bool" where
  "register_process_manager_ok m \<longleftrightarrow>
     word_ok 256 (rp_hostname m) \<and> unat (rp_application_count m) = length (rp_applications m) \<and>
     list_all app_ok (rp_applications m) \<and>
     318 + sum_list (map (\<lambda>a. 38 + length (app_nodes a)) (rp_applications m)) \<le> DYNPM_MAX_MESSAGE_SIZE"

lemma format_app_line:
  "format_out (parse_fmt ''%d %d %d %s \<newline>'') (app_args a) = Inr (app_text a)"
  "format_out (parse_fmt ''%d %d %d %s '') (app_args a) = Inr (app_line a)"
  by (simp_all add: app_args_def app_text_def app_line_def)

lemma format_rp_line:
  "format_out (parse_fmt ''%d %d %d %s %d %d \<newline>'') (rp_args h m) = Inr (rp_line h m @ [CHR 0x0A])"
  "format_out (parse_fmt ''%d %d %d %s %d %d '') (rp_args h m) = Inr (rp_line h m)"
  by (simp_all add: rp_args_def hargs_def rp_line_def)

lemma eol_free_fmt_d: "c \<in> set (fmt_d w) \<Longrightarrow> \<not> iseol c"
  using fmt_d_chars iseol_isspace by blast

lemma eol_free_word: "word_ok n s \<Longrightarrow> c \<in> set s \<Longrightarrow> \<not> iseol c"
  using word_ok_chars iseol_isspace by blast

lemma app_line_chars: "app_ok a \<Longrightarrow> c \<in> set (app_line a) \<Longrightarrow> \<not> iseol c \<and> c \<noteq> NUL"
  unfolding app_ok_def app_line_def
  by (auto dest: eol_free_fmt_d fmt_d_chars eol_free_word word_ok_chars)

lemma rp_line_chars: "word_ok 256 (rp_hostname m) \<Longrightarrow> c \<in> set (rp_line h m) \<Longrightarrow> \<not> iseol c \<and> c \<noteq> NUL"
  unfolding rp_line_def
  by (auto dest: eol_free_fmt_d fmt_d_chars eol_free_word word_ok_chars)

lemma app_line_nonempty [simp]: "app_line a \<noteq> []" and rp_line_nonempty [simp]: "rp_line h m \<noteq> []"
  by (simp_all add: app_line_def rp_line_def)

lemma app_text_NUL: "app_ok a \<Longrightarrow> NUL \<notin> set (app_text a)"
  using app_line_chars by (auto simp: app_text_def)

lemma length_app_text: "length (app_text a) \<le> 38 + length (app_nodes a)"
  using length_fmt_d [of "app_application_index a"] length_fmt_d [of "app_malleability_mode a"]
    length_fmt_d [of "app_node_count a"]
  by (simp add: app_text_def app_line_def)

lemma length_rp_line: "length (rp_line h m) \<le> 61 + length (rp_hostname m)"
  using length_fmt_d [of "hdr_source_type h"] length_fmt_d [of "hdr_message_type h"]
    length_fmt_d [of "rp_pid m"] length_fmt_d [of "rp_job_index m"] length_fmt_d [of "rp_application_count m"]
  by (simp add: rp_line_def)

lemma scan_app_line:
  assumes "app_ok a"
  shows "sscanf (app_line a) ''%d %d %d %s'' [To_int, To_int, To_int, To_buf 512] = Inr (app_args a)"
  unfolding sscanf_def
proof (rule scan_format_out)
  show "covers (parse_fmt ''%d %d %d %s '') (parse_fmt ''%d %d %d %s'')" by simp
  show "fits (parse_fmt ''%d %d %d %s'') [To_int, To_int, To_int, To_buf 512] (app_args a)"
    using assms by (auto simp: app_args_def app_ok_def elim: word_ok_mono)
  show "format_out (parse_fmt ''%d %d %d %s '') (app_args a @ []) = Inr (app_line a)"
    by (simp add: format_app_line(2) del: parse_fmt.simps)
qed

lemma scan_rp_line:
  assumes "word_ok 256 (rp_hostname m)"
  shows "sscanf (rp_line h m) ''%d %d %d %s %d %d'' [To_int, To_int, To_int, To_buf 256, To_int, To_int]
           = Inr (rp_args h m)"
  unfolding sscanf_def
proof (rule scan_format_out)
  show "covers (parse_fmt ''%d %d %d %s %d %d '') (parse_fmt ''%d %d %d %s %d %d'')" by simp
  show "fits (parse_fmt ''%d %d %d %s %d %d'') [To_int, To_int, To_int, To_buf 256, To_int, To_int] (rp_args h m)"
    using assms by (simp add: rp_args_def hargs_def)
  show "format_out (parse_fmt ''%d %d %d %s %d %d '') (rp_args h m @ []) = Inr (rp_line h m)"
    by (simp add: format_rp_line(2) del: parse_fmt.simps)
qed

section \<open>Writing the lines\<close>

lemma strcat_c_str:
  assumes "c_str buf = Inr s" and "NUL \<notin> set t"
  shows "strcat buf t = Inr b \<Longrightarrow> c_str b = Inr (s @ t) \<and> length b = length buf"
    and "length s + length t < length buf \<Longrightarrow> \<exists>b. strcat buf t = Inr b"
  using assms c_str_cases [OF assms(1)]
  by (auto simp: strcat_def c_str_write_str length_write_str) (simp add: write_str_def)

lemma sprintf_app_line:
  assumes "sprintf temp ''%d %d %d %s \<newline>'' (app_args a) = Inr temp'" and "app_ok a"
  shows "c_str temp' = Inr (app_text a)"
  using assms c_str_write_str app_text_NUL
  by (simp add: sprintf_def format_app_line(1) del: parse_fmt.simps)

lemmas serialize_unfold = serialize_applications.simps [of app count apps temp buf] for app count apps temp buf

text \<open>Whatever value the loop starts from, a run that completes appends the lines from there on.\<close>

lemma serialize_applications_text:
  "serialize_applications app count apps temp buf = Inr b \<Longrightarrow> c_str buf = Inr s \<Longrightarrow> list_all app_ok apps \<Longrightarrow>
   count \<le> length apps \<Longrightarrow>
   c_str b = Inr (s @ concat (map app_text (drop app (take count apps)))) \<and> length b = length buf"
proof (induction app count apps temp buf arbitrary: s rule: serialize_applications.induct)
  case (1 app count apps temp buf)
  show ?case
  proof (cases "app < count")
    case False
    with 1 show ?thesis by (simp add: serialize_unfold)
  next
    case True
    then have a: "app_ok (apps ! app)" and cnt: "app < length (take count apps)"
      using 1(3-5) by (simp_all add: list_all_length)
    obtain temp' line buf' where t: "sprintf temp ''%d %d %d %s \<newline>'' (app_args (apps ! app)) = Inr temp'"
      and l: "c_str temp' = Inr line" and c: "strcat buf line = Inr buf'"
      and r: "serialize_applications (Suc app) count apps temp' buf' = Inr b"
      using 1(2) True by (auto simp: serialize_unfold app_args_def res_simps)
    from t a l have line: "line = app_text (apps ! app)" using sprintf_app_line by force
    then have b': "c_str buf' = Inr (s @ app_text (apps ! app)) \<and> length buf' = length buf"
      using strcat_c_str(1) [OF 1(3) _ c] app_text_NUL [OF a] by simp
    have "drop app (take count apps) = apps ! app # drop (Suc app) (take count apps)"
      using cnt True by (simp add: Cons_nth_drop_Suc [symmetric])
    moreover have "c_str b = Inr ((s @ app_text (apps ! app)) @ concat (map app_text (drop (Suc app) (take count apps))))
        \<and> length b = length buf'"
      using 1(1) [OF True, of temp' buf' "s @ app_text (apps ! app)"] r b' 1(4,5) by simp
    ultimately show ?thesis using b' by simp
  qed
qed

lemma serialize_applications_total:
  "c_str buf = Inr s \<Longrightarrow> list_all app_ok apps \<Longrightarrow> count = length apps \<Longrightarrow> length apps < 2 ^ 31 \<Longrightarrow>
   length temp = 256 \<Longrightarrow>
   length s + sum_list (map (\<lambda>a. 38 + length (app_nodes a)) (drop app apps)) < length buf \<Longrightarrow>
   \<exists>b. serialize_applications app count apps temp buf = Inr b"
proof (induction app count apps temp buf arbitrary: s rule: serialize_applications.induct)
  case (1 app count apps temp buf)
  show ?case
  proof (cases "app < count")
    case False
    then show ?thesis by (simp add: serialize_unfold)
  next
    case True
    let ?a = "apps ! app"
    have a: "app_ok ?a" using 1(3,4) True by (simp add: list_all_length)
    have dr: "drop app apps = ?a # drop (Suc app) apps"
      using True 1(4) by (simp add: Cons_nth_drop_Suc [symmetric])
    have "printable (parse_fmt ''%d %d %d %s \<newline>'') (app_args ?a)"
      "out_bound (parse_fmt ''%d %d %d %s \<newline>'') (app_args ?a) < length temp"
      using a word_ok_length [of 218 "app_nodes ?a"] 1(6) by (auto simp: app_args_def app_ok_def)
    then obtain temp' where t: "sprintf temp ''%d %d %d %s \<newline>'' (app_args ?a) = Inr temp'"
      using sprintf_total by blast
    from t a have l: "c_str temp' = Inr (app_text ?a)" by (rule sprintf_app_line)
    have fits: "length s + length (app_text ?a) +
        sum_list (map (\<lambda>a. 38 + length (app_nodes a)) (drop (Suc app) apps)) < length buf"
      using 1(7) length_app_text [of ?a] by (simp add: dr)
    then obtain buf' where b: "strcat buf (app_text ?a) = Inr buf'"
      using strcat_c_str(2) [OF 1(2) app_text_NUL [OF a]] by auto
    then have b': "c_str buf' = Inr (s @ app_text ?a)" "length buf' = length buf"
      using strcat_c_str(1) [OF 1(2) app_text_NUL [OF a] b] by simp_all
    have "\<exists>b. serialize_applications (Suc app) count apps temp' buf' = Inr b"
      using 1(1) [OF True b'(1) 1(3,4,5)] fits length_sprintf [OF t] 1(6) by (simp add: b'(2))
    with True t l b 1(4,5) show ?thesis by (auto simp: serialize_unfold app_args_def)
  qed
qed

lemma length_serialize_applications:
  "serialize_applications app count apps temp buf = Inr b \<Longrightarrow> length b = length buf"
proof (induction app count apps temp buf rule: serialize_applications.induct)
  case (1 app count apps temp buf)
  then show ?case
    by (cases "app < count")
       (auto simp: serialize_applications.simps [of app count apps temp buf] strcat_def res_simps
         dest!: length_write_str)
qed

lemma length_serialize_rp:
  "dynpm_serialize_register_process_manager_msg app temp h m buf = Inr b \<Longrightarrow> length b = length buf"
  by (auto simp: dynpm_serialize_register_process_manager_msg_def res_simps
      dest!: length_serialize_applications length_sprintf)

section \<open>Cutting the lines\<close>

text \<open>One cut: the line is the token, its end becomes a terminator, the rest of the text is next.\<close>

lemma strtok_buf_line:
  assumes "drop pos buf = line @ CHR 0x0A # rest @ NUL # r" and "line \<noteq> []"
    and line: "\<And>c. c \<in> set line \<Longrightarrow> \<not> iseol c \<and> c \<noteq> NUL" and "NUL \<notin> set rest"
  shows "strtok_buf buf pos = Inr (Some (line, Suc (pos + length line), buf[pos + length line := NUL]))"
    and "drop (Suc (pos + length line)) (buf[pos + length line := NUL]) = rest @ NUL # r"
proof -
  have "NUL \<notin> set line" using line by blast
  then have "NUL \<notin> set (line @ CHR 0x0A # rest)" using assms(4) by simp
  then have c: "c_str (drop pos buf) = Inr (line @ CHR 0x0A # rest)"
    using c_str_written [of "line @ CHR 0x0A # rest" r] assms(1) by simp
  from assms(2) obtain x xs where x: "line = x # xs" by (cases line) auto
  then have "takeWhile iseol (line @ CHR 0x0A # rest) = []" using line [of x] by simp
  moreover have "takeWhile (\<lambda>c. \<not> iseol c) (line @ CHR 0x0A # rest) = line"
    using line by (auto intro: takeWhile_append_stop)
  ultimately show "strtok_buf buf pos = Inr (Some (line, Suc (pos + length line), buf[pos + length line := NUL]))"
    using c assms(2) by (simp add: strtok_buf_def Let_def)
  have "drop (Suc (pos + length line)) buf = drop (Suc (length line)) (drop pos buf)"
    by (simp add: add.commute)
  then show "drop (Suc (pos + length line)) (buf[pos + length line := NUL]) = rest @ NUL # r"
    using assms(1) by simp
qed

lemma deserialize_applications_text:
  "drop pos buf = concat (map app_text apps) @ NUL # r \<Longrightarrow> list_all app_ok apps \<Longrightarrow>
   \<exists>b. deserialize_applications ga app (length apps) buf pos = Inr (apps, b) \<and> take pos b = take pos buf"
proof (induction apps arbitrary: app buf pos)
  case Nil
  then show ?case by simp
next
  case (Cons a apps)
  let ?p = "Suc (pos + length (app_line a))" and ?b = "buf[pos + length (app_line a) := NUL]"
  from Cons.prems have a: "app_ok a" and ok: "list_all app_ok apps" by simp_all
  have "NUL \<notin> set (concat (map app_text apps))"
    using ok app_text_NUL by (auto simp: list_all_iff)
  moreover have "drop pos buf = app_line a @ CHR 0x0A # concat (map app_text apps) @ NUL # r"
    using Cons.prems(1) by (simp add: app_text_def [of a])
  ultimately have t: "strtok_buf buf pos = Inr (Some (app_line a, ?p, ?b))"
    and d: "drop ?p ?b = concat (map app_text apps) @ NUL # r"
    using strtok_buf_line [of pos buf "app_line a"] app_line_chars [OF a] by simp_all
  from Cons.IH [OF d ok, of "Suc app"] obtain b where
    b: "deserialize_applications ga (Suc app) (length apps) ?b ?p = Inr (apps, b)" "take ?p b = take ?p ?b"
    by blast
  from b(2) have "take pos b = take pos ?b"
    by (metis (no_types, lifting) le_add1 le_SucI min.absorb1 take_take)
  then have "take pos b = take pos buf" by simp
  with t b(1) scan_app_line [OF a] show ?case by (simp add: app_args_def)
qed

section \<open>The codec\<close>

lemma serialize_rp_text:
  assumes "dynpm_serialize_register_process_manager_msg 0 temp h m buf = Inr b" and "register_process_manager_ok m"
  shows "c_str b = Inr (rp_line h m @ CHR 0x0A # concat (map app_text (rp_applications m))) \<and> length b = length buf"
proof -
  from assms(1) obtain b0 where b0: "write_str (rp_line h m @ [CHR 0x0A]) buf = Inr b0"
    and s: "serialize_applications 0 (unat (rp_application_count m)) (rp_applications m) temp b0 = Inr b"
    using format_rp_line(1) [of h m]
    by (auto simp: dynpm_serialize_register_process_manager_msg_def sprintf_def rp_args_def hargs_def
        res_simps simp del: parse_fmt.simps)
  have "NUL \<notin> set (rp_line h m @ [CHR 0x0A])"
    using rp_line_chars [of m _ h] assms(2) by (auto simp: register_process_manager_ok_def)
  with b0 have "c_str b0 = Inr (rp_line h m @ [CHR 0x0A])" by (rule c_str_write_str)
  with s show ?thesis
    using serialize_applications_text [OF s] assms(2) length_write_str [OF b0]
    by (simp add: register_process_manager_ok_def)
qed

lemma deserialize_rp_text:
  assumes "register_process_manager_ok m"
    and "c_str b = Inr (rp_line h m @ CHR 0x0A # concat (map app_text (rp_applications m)))"
  shows "\<exists>b'. dynpm_deserialize_register_process_manager_msg g ga b = Inr (m, b') \<and> c_str b' = Inr (rp_line h m)"
proof -
  let ?L = "rp_line h m" and ?C = "concat (map app_text (rp_applications m))"
  let ?p = "Suc (0 + length (rp_line h m))" and ?b = "b[0 + length (rp_line h m) := NUL]"
  note ok = assms(1) [unfolded register_process_manager_ok_def]
  have nc: "NUL \<notin> set ?C" using ok app_text_NUL by (auto simp: list_all_iff)
  have chars: "\<And>c. c \<in> set ?L \<Longrightarrow> \<not> iseol c \<and> c \<noteq> NUL" using ok rp_line_chars by blast
  obtain r where r: "b = (?L @ CHR 0x0A # ?C) @ NUL # r" using c_str_split [OF assms(2)] by blast
  then have dr: "drop 0 b = ?L @ CHR 0x0A # ?C @ NUL # r" by simp
  have t: "strtok_buf b 0 = Inr (Some (?L, ?p, ?b))" and d: "drop ?p ?b = ?C @ NUL # r"
    using strtok_buf_line [OF dr rp_line_nonempty chars nc] by simp_all
  from deserialize_applications_text [OF d] ok obtain b' where
    b': "deserialize_applications ga 0 (length (rp_applications m)) ?b ?p = Inr (rp_applications m, b')"
      "take ?p b' = take ?p ?b" by blast
  have "take ?p ?b = ?L @ [NUL]" using r by (simp add: take_Suc_conv_app_nth)
  then have "b' = ?L @ NUL # drop ?p b'" using b'(2) by (metis append.assoc append_Cons append_Nil append_take_drop_id)
  then have "c_str b' = Inr ?L" using chars c_str_written by metis
  moreover have "dynpm_deserialize_register_process_manager_msg g ga b = Inr (m, b')"
    using t b'(1) ok scan_rp_line [of m h]
    by (simp add: dynpm_deserialize_register_process_manager_msg_def rp_args_def hargs_def Let_def)
  ultimately show ?thesis by blast
qed

text \<open>The contract, for a serialiser whose loop variable starts at zero and a 256-byte scratch block.\<close>

definition ser_rp ::
    "dynpm_header \<Rightarrow> dynpm_register_process_manager_msg \<Rightarrow> buffer \<Rightarrow> buffer res" where
  "ser_rp = dynpm_serialize_register_process_manager_msg 0 (replicate 256 NUL)"

definition des_rp ::
    "dynpm_register_process_manager_msg \<Rightarrow> buffer \<Rightarrow> dynpm_register_process_manager_msg res" where
  "des_rp g b = rbind (dynpm_deserialize_register_process_manager_msg g (\<lambda>_. \<lparr>app_application_index = 0,
     app_malleability_mode = 0, app_node_count = 0, app_nodes = []\<rparr>) b) (\<lambda>(m, _). Inr m)"

lemma length_le_sum_list: "length xs \<le> sum_list (map (\<lambda>x. 38 + f x) xs)"
  by (induction xs) simp_all

lemma serialize_rp_total:
  assumes ok: "register_process_manager_ok m" and buf: "length buf = DYNPM_MAX_MESSAGE_SIZE"
    and temp: "length temp = 256"
  shows "\<exists>b. dynpm_serialize_register_process_manager_msg 0 temp h m buf = Inr b"
proof -
  let ?w = "sum_list (map (\<lambda>a. 38 + length (app_nodes a)) (rp_applications m))"
  note ok' = ok [unfolded register_process_manager_ok_def]
  have len: "length (rp_line h m) < 317"
    using length_rp_line [of h m] ok' word_ok_length [of 256 "rp_hostname m"] by simp
  then obtain b0 where b0: "write_str (rp_line h m @ [CHR 0x0A]) buf = Inr b0"
    using buf by (simp add: write_str_def DYNPM_MAX_MESSAGE_SIZE_def)
  have "NUL \<notin> set (rp_line h m @ [CHR 0x0A])" using ok' rp_line_chars [of m _ h] by auto
  with b0 have c: "c_str b0 = Inr (rp_line h m @ [CHR 0x0A])" by (rule c_str_write_str)
  have "length (rp_applications m) \<le> ?w" by (rule length_le_sum_list)
  then have "length (rp_applications m) < 2 ^ 31" using ok' by (simp add: DYNPM_MAX_MESSAGE_SIZE_def)
  then have "\<exists>b. serialize_applications 0 (unat (rp_application_count m)) (rp_applications m) temp b0 = Inr b"
    using serialize_applications_total [OF c, of "rp_applications m" "unat (rp_application_count m)" temp 0]
      ok' len temp buf length_write_str [OF b0] by simp
  with b0 show ?thesis using format_rp_line(1) [of h m]
    by (simp add: dynpm_serialize_register_process_manager_msg_def sprintf_def rp_args_def hargs_def
        del: parse_fmt.simps)
qed

interpretation rp: wire_codec ser_rp des_rp register_process_manager_ok same_msg
proof
  fix m buf h
  assume "register_process_manager_ok m" and "length (buf :: buffer) = DYNPM_MAX_MESSAGE_SIZE"
  then show "\<exists>b. ser_rp h m buf = Inr b" by (simp add: ser_rp_def serialize_rp_total)
next
  show "length b = length buf" if "ser_rp h m buf = Inr b" for h m buf b
    using that unfolding ser_rp_def by (rule length_serialize_rp)
next
  fix m h buf b hg
  assume "register_process_manager_ok m" and "ser_rp h m buf = Inr b"
  then have "c_str b = Inr (rp_line h m @ CHR 0x0A # concat (map app_text (rp_applications m)))"
    unfolding ser_rp_def using serialize_rp_text by blast
  then show "dynpm_deserialize_header hg b = Inr h"
    by (simp add: dynpm_deserialize_header_def sscanf_buf_def sscanf_def rp_line_def)
next
  fix m h buf b g
  assume "register_process_manager_ok m" and "ser_rp h m buf = Inr b"
  then have "c_str b = Inr (rp_line h m @ CHR 0x0A # concat (map app_text (rp_applications m)))"
    unfolding ser_rp_def using serialize_rp_text by blast
  from deserialize_rp_text [OF \<open>register_process_manager_ok m\<close> this] show "des_rp g b = Inr m"
    unfolding des_rp_def by (metis (no_types, lifting) case_prod_conv rbind_simps(2))
qed

end
