(* ===== verification/Protocol_Properties.thy ===== *)
theory Protocol_Properties
  imports Registration
begin

text \<open>
  What the message formats of \<open>src/network/protocol.c\<close> guarantee end to end, drawn from the codec
  contracts: which messages reach the receiver unchanged, and on which ones sender or receiver go
  wrong.
\<close>

section \<open>Registrations without their lines\<close>

lemma deserialize_rp_missing_lines:
  assumes host: "word_ok 256 (rp_hostname m)" and count: "0 < unat (rp_application_count m)"
    and b: "c_str b = Inr (rp_line h m @ t)" and t: "t = [] \<or> t = [CHR 0x0A]"
  shows "dynpm_deserialize_register_process_manager_msg g ga b = Inl Null_Deref"
proof -
  have chars: "\<And>c. c \<in> set (rp_line h m) \<Longrightarrow> \<not> iseol c \<and> c \<noteq> NUL" using host rp_line_chars by blast
  obtain r where r: "b = (rp_line h m @ t) @ NUL # r" using c_str_split [OF b] by blast
  have "\<exists>p b'. strtok_buf b 0 = Inr (Some (rp_line h m, p, b')) \<and> (\<exists>r. drop p b' = NUL # r)"
  proof (cases "t = []")
    case True
    have tw: "takeWhile (\<lambda>c. \<not> iseol c) (rp_line h m) = rp_line h m" using chars by (simp add: takeWhile_eq_all_conv)
    have k: "takeWhile iseol (rp_line h m) = []" using chars by (cases "rp_line h m") auto
    have "strtok_buf b 0 = Inr (Some (rp_line h m, length (rp_line h m), b))"
      using b by (simp add: strtok_buf_def Let_def True k tw)
    then show ?thesis using r True by auto
  next
    case False
    with t r have "drop 0 b = rp_line h m @ CHR 0x0A # [] @ NUL # r" by simp
    from strtok_buf_line [OF this rp_line_nonempty chars] show ?thesis by auto
  qed
  then obtain p b' r where p: "strtok_buf b 0 = Inr (Some (rp_line h m, p, b'))" "drop p b' = NUL # r" by blast
  have "strtok_buf b' p = Inr None" using p(2) by (simp add: strtok_buf_def c_str_def)
  moreover obtain n where "unat (rp_application_count m) = Suc n" using count gr0_implies_Suc by blast
  ultimately show ?thesis using p(1) scan_rp_line [OF host, of h]
    by (simp add: dynpm_deserialize_register_process_manager_msg_def rp_args_def hargs_def Let_def)
qed

section \<open>Properties\<close>

lemmas word_ok_eval = word_ok_def isspace_def NUL_def

text \<open>C2: A launch message with a payload of up to 3840 bytes (or none) is serialised into the fixed-size buffer,
  and the receiver gets back the header, every field and the payload byte for byte, whatever its
  memory held before.\<close>

theorem launch_transmit:
  assumes "launch_ok m" and "length buf = DYNPM_MAX_MESSAGE_SIZE"
  shows "\<exists>b. dynpm_serialize_dynamic_pm_launch_msg h m buf = Inr b \<and> length b = DYNPM_MAX_MESSAGE_SIZE \<and>
             dynpm_deserialize_header hg b = Inr h \<and> dynpm_deserialize_dynamic_pm_launch_msg g b = Inr m"
  using assms by (rule dl.transmit)

theorem launch_transmit_witness:
  "\<exists>b. dynpm_serialize_dynamic_pm_launch_msg \<lparr>hdr_source_type = 1, hdr_message_type = 14\<rparr>
         \<lparr>dl_id = 7, dl_type = 2, dl_payload_bytes = 3, dl_payload = Some [CHR 0x00, CHR ''a'', CHR '' '']\<rparr>
         (replicate DYNPM_MAX_MESSAGE_SIZE (CHR ''x'')) = Inr b \<and>
       dynpm_deserialize_dynamic_pm_launch_msg
         \<lparr>dl_id = 0, dl_type = 0, dl_payload_bytes = 99, dl_payload = None\<rparr> b =
         Inr \<lparr>dl_id = 7, dl_type = 2, dl_payload_bytes = 3, dl_payload = Some [CHR 0x00, CHR ''a'', CHR '' '']\<rparr>"
  using launch_transmit [of "\<lparr>dl_id = 7, dl_type = 2, dl_payload_bytes = 3,
      dl_payload = Some [CHR 0x00, CHR ''a'', CHR '' '']\<rparr>" "replicate DYNPM_MAX_MESSAGE_SIZE (CHR ''x'')"
      "\<lparr>hdr_source_type = 1, hdr_message_type = 14\<rparr>" "\<lparr>hdr_source_type = 0, hdr_message_type = 0\<rparr>"
      "\<lparr>dl_id = 0, dl_type = 0, dl_payload_bytes = 99, dl_payload = None\<rparr>"]
  by (auto simp: launch_ok_def payload_ok_def DYNPM_MAX_MESSAGE_SIZE_def)

text \<open>An I/O message of a host with a name of at most 205 characters and a payload of up to 3840 bytes
  arrives unchanged.\<close>

theorem io_out_transmit:
  assumes "io_out_ok m" and "length buf = DYNPM_MAX_MESSAGE_SIZE"
  shows "\<exists>b. dynpm_serialize_dynamic_io_out_msg h m buf = Inr b \<and> length b = DYNPM_MAX_MESSAGE_SIZE \<and>
             dynpm_deserialize_header hg b = Inr h \<and> dynpm_deserialize_dynamic_io_out_msg g b = Inr m"
  using assms by (rule io.transmit)

theorem io_out_transmit_witness:
  "\<exists>b. dynpm_serialize_dynamic_io_out_msg \<lparr>hdr_source_type = 2, hdr_message_type = 16\<rparr>
         \<lparr>io_id = 1, io_host = ''n01'', io_payload_bytes = 2, io_payload = Some ''hi''\<rparr>
         (replicate DYNPM_MAX_MESSAGE_SIZE (CHR ''x'')) = Inr b \<and>
       dynpm_deserialize_dynamic_io_out_msg
         \<lparr>io_id = 0, io_host = [], io_payload_bytes = 0, io_payload = None\<rparr> b =
         Inr \<lparr>io_id = 1, io_host = ''n01'', io_payload_bytes = 2, io_payload = Some ''hi''\<rparr>"
  using io_out_transmit [of "\<lparr>io_id = 1, io_host = ''n01'', io_payload_bytes = 2, io_payload = Some ''hi''\<rparr>"
      "replicate DYNPM_MAX_MESSAGE_SIZE (CHR ''x'')" "\<lparr>hdr_source_type = 2, hdr_message_type = 16\<rparr>"
      "\<lparr>hdr_source_type = 0, hdr_message_type = 0\<rparr>"
      "\<lparr>io_id = 0, io_host = [], io_payload_bytes = 0, io_payload = None\<rparr>"]
  by (auto simp: io_out_ok_def word_ok_eval payload_ok_def DYNPM_MAX_MESSAGE_SIZE_def)

text \<open>A process data report arrives unchanged.\<close>

theorem report_transmit:
  assumes "report_ok m" and "length buf = DYNPM_MAX_MESSAGE_SIZE"
  shows "\<exists>b. dynpm_serialize_report_process_data_msg h m buf = Inr b \<and> length b = DYNPM_MAX_MESSAGE_SIZE \<and>
             dynpm_deserialize_header hg b = Inr h \<and> dynpm_deserialize_report_process_data_msg g b = Inr m"
  using assms by (rule pr.transmit)

theorem report_transmit_witness:
  "\<exists>b. dynpm_serialize_report_process_data_msg \<lparr>hdr_source_type = 2, hdr_message_type = 21\<rparr>
         \<lparr>pr_id = 1, pr_job_index = 2, pr_application_index = 3, pr_malleability_mode = 4,
          pr_payload_bytes = 0, pr_payload = None\<rparr>
         (replicate DYNPM_MAX_MESSAGE_SIZE (CHR ''x'')) = Inr b \<and>
       dynpm_deserialize_report_process_data_msg
         \<lparr>pr_id = 0, pr_job_index = 0, pr_application_index = 0, pr_malleability_mode = 0,
          pr_payload_bytes = 5, pr_payload = None\<rparr> b =
         Inr \<lparr>pr_id = 1, pr_job_index = 2, pr_application_index = 3, pr_malleability_mode = 4,
              pr_payload_bytes = 0, pr_payload = None\<rparr>"
  using report_transmit [of "\<lparr>pr_id = 1, pr_job_index = 2, pr_application_index = 3, pr_malleability_mode = 4,
          pr_payload_bytes = 0, pr_payload = None\<rparr>" "replicate DYNPM_MAX_MESSAGE_SIZE (CHR ''x'')"
      "\<lparr>hdr_source_type = 2, hdr_message_type = 21\<rparr>" "\<lparr>hdr_source_type = 0, hdr_message_type = 0\<rparr>"
      "\<lparr>pr_id = 0, pr_job_index = 0, pr_application_index = 0, pr_malleability_mode = 0,
          pr_payload_bytes = 5, pr_payload = None\<rparr>"]
  by (auto simp: report_ok_def payload_ok_def)

text \<open>A reallocation start message with three node lists of at most 1023 characters each arrives unchanged.\<close>

theorem reallocation_start_transmit:
  assumes "reallocation_start_ok m" and "length buf = DYNPM_MAX_MESSAGE_SIZE"
  shows "\<exists>b. dynpm_serialize_reallocation_start_msg h m buf = Inr b \<and> length b = DYNPM_MAX_MESSAGE_SIZE \<and>
             dynpm_deserialize_header hg b = Inr h \<and> dynpm_deserialize_reallocation_start_msg g b = Inr m"
  using assms by (rule rs.transmit)

definition example_reallocation :: dynpm_reallocation_start_msg where
  "example_reallocation =
     \<lparr>rs_application_index = 1, rs_partition_index = 2, rs_type = 3, rs_current_node_count = 1,
      rs_current_nodes = ''n01'', rs_delta_node_count = 1, rs_delta_nodes = ''n02'',
      rs_updated_node_count = 2, rs_updated_nodes = ''n[01-02]''\<rparr>"

theorem reallocation_start_transmit_witness:
  "\<exists>b. dynpm_serialize_reallocation_start_msg \<lparr>hdr_source_type = 2, hdr_message_type = 11\<rparr> example_reallocation
         (replicate DYNPM_MAX_MESSAGE_SIZE (CHR ''x'')) = Inr b \<and>
       dynpm_deserialize_reallocation_start_msg example_reallocation b = Inr example_reallocation"
  using reallocation_start_transmit [of example_reallocation "replicate DYNPM_MAX_MESSAGE_SIZE (CHR ''x'')"
      "\<lparr>hdr_source_type = 2, hdr_message_type = 11\<rparr>" "\<lparr>hdr_source_type = 0, hdr_message_type = 0\<rparr>" example_reallocation]
  by (auto simp: reallocation_start_ok_def word_ok_eval example_reallocation_def)

text \<open>A tree creation message with a node list of at most 255 characters arrives unchanged.\<close>

theorem create_tbon_transmit:
  assumes "create_tbon_ok m" and "length buf = DYNPM_MAX_MESSAGE_SIZE"
  shows "\<exists>b. dynpm_serialize_create_tbon_msg h m buf = Inr b \<and> length b = DYNPM_MAX_MESSAGE_SIZE \<and>
             dynpm_deserialize_header hg b = Inr h \<and> dynpm_deserialize_create_tbon_msg g b = Inr m"
  using assms by (rule ct.transmit)

theorem create_tbon_transmit_witness:
  "\<exists>b. dynpm_serialize_create_tbon_msg \<lparr>hdr_source_type = 2, hdr_message_type = 7\<rparr>
         \<lparr>ct_id = 1, ct_degree = 2, ct_total = 4, ct_nodes = ''n[01-04]''\<rparr>
         (replicate DYNPM_MAX_MESSAGE_SIZE (CHR ''x'')) = Inr b \<and>
       dynpm_deserialize_create_tbon_msg \<lparr>ct_id = 0, ct_degree = 0, ct_total = 0, ct_nodes = []\<rparr> b =
         Inr \<lparr>ct_id = 1, ct_degree = 2, ct_total = 4, ct_nodes = ''n[01-04]''\<rparr>"
  using create_tbon_transmit [of "\<lparr>ct_id = 1, ct_degree = 2, ct_total = 4, ct_nodes = ''n[01-04]''\<rparr>"
      "replicate DYNPM_MAX_MESSAGE_SIZE (CHR ''x'')" "\<lparr>hdr_source_type = 2, hdr_message_type = 7\<rparr>"
      "\<lparr>hdr_source_type = 0, hdr_message_type = 0\<rparr>" "\<lparr>ct_id = 0, ct_degree = 0, ct_total = 0, ct_nodes = []\<rparr>"]
  by (auto simp: create_tbon_ok_def word_ok_eval)

text \<open>C31: A process manager registration arrives unchanged, with all its applications, when the serialiser's
  loop variable happens to be 0 at the start and the lines fit.\<close>

theorem register_process_manager_transmit:
  assumes "register_process_manager_ok m" and "length buf = DYNPM_MAX_MESSAGE_SIZE" and "length temp = 256"
  shows "\<exists>b b'. dynpm_serialize_register_process_manager_msg 0 temp h m buf = Inr b \<and>
               dynpm_deserialize_register_process_manager_msg g ga b = Inr (m, b')"
proof -
  obtain b where b: "dynpm_serialize_register_process_manager_msg 0 temp h m buf = Inr b"
    using serialize_rp_total [OF assms] by blast
  then show ?thesis
    using deserialize_rp_text [OF assms(1), of b h g ga] serialize_rp_text [OF b assms(1)] by blast
qed

definition example_registration :: dynpm_register_process_manager_msg where
  "example_registration =
     \<lparr>rp_pid = 42, rp_hostname = ''n01'', rp_job_index = 1, rp_application_count = 2,
      rp_applications =
        [\<lparr>app_application_index = 0, app_malleability_mode = 1, app_node_count = 1, app_nodes = ''n01''\<rparr>,
         \<lparr>app_application_index = 1, app_malleability_mode = 2, app_node_count = 2, app_nodes = ''n[02-03]''\<rparr>]\<rparr>"

lemma example_registration_ok: "register_process_manager_ok example_registration"
  by (simp add: register_process_manager_ok_def example_registration_def word_ok_eval app_ok_def
      DYNPM_MAX_MESSAGE_SIZE_def)

theorem register_process_manager_transmit_witness:
  "\<exists>b b'. dynpm_serialize_register_process_manager_msg 0 (replicate 256 NUL)
            \<lparr>hdr_source_type = 2, hdr_message_type = 3\<rparr> example_registration
            (replicate DYNPM_MAX_MESSAGE_SIZE NUL) = Inr b \<and>
          dynpm_deserialize_register_process_manager_msg example_registration
            (\<lambda>_. hd (rp_applications example_registration)) b = Inr (example_registration, b')"
  by (rule register_process_manager_transmit) (simp_all add: example_registration_ok)

text \<open>C36: When the uninitialised loop variable starts at or above the application count, the application lines
  are missing from the message, and the receiver passes a null line to \<open>sscanf\<close>.\<close>

theorem register_process_manager_uninitialised_loop:
  assumes "register_process_manager_ok m" and "length buf = DYNPM_MAX_MESSAGE_SIZE"
    and "0 < unat (rp_application_count m)" and "unat (rp_application_count m) \<le> unat app"
  shows "\<exists>b. dynpm_serialize_register_process_manager_msg app temp h m buf = Inr b \<and>
             dynpm_deserialize_register_process_manager_msg g ga b = Inl Null_Deref"
proof -
  have host: "word_ok 256 (rp_hostname m)" using assms(1) by (simp add: register_process_manager_ok_def)
  then have "length (rp_line h m @ [CHR 0x0A]) < length buf"
    using length_rp_line [of h m] word_ok_length [of 256 "rp_hostname m"] assms(2) by (simp add: DYNPM_MAX_MESSAGE_SIZE_def)
  then obtain b where b: "write_str (rp_line h m @ [CHR 0x0A]) buf = Inr b" by (simp add: write_str_def)
  have "NUL \<notin> set (rp_line h m @ [CHR 0x0A])" using rp_line_chars [OF host, of _ h] by auto
  with b have c: "c_str b = Inr (rp_line h m @ [CHR 0x0A])" by (rule c_str_write_str)
  have "dynpm_serialize_register_process_manager_msg app temp h m buf = Inr b"
    using b assms(4) format_rp_line(1) [of h m]
    by (simp add: dynpm_serialize_register_process_manager_msg_def sprintf_def rp_args_def hargs_def
        serialize_unfold del: parse_fmt.simps)
  then show ?thesis using deserialize_rp_missing_lines [OF host assms(3) c] by auto
qed

theorem register_process_manager_uninitialised_loop_witness:
  "\<exists>b. dynpm_serialize_register_process_manager_msg 21845 [] \<lparr>hdr_source_type = 2, hdr_message_type = 3\<rparr>
         example_registration (replicate DYNPM_MAX_MESSAGE_SIZE NUL) = Inr b \<and>
       dynpm_deserialize_register_process_manager_msg example_registration
         (\<lambda>_. hd (rp_applications example_registration)) b = Inl Null_Deref"
  by (rule register_process_manager_uninitialised_loop)
     (simp_all add: example_registration_ok, simp_all add: example_registration_def)

text \<open>Decoding a registration destroys it: a second decoding of the same buffer fails whenever the message
  has applications, because the first one cut the text into lines.\<close>

theorem register_process_manager_decode_twice:
  assumes "register_process_manager_ok m" and "0 < unat (rp_application_count m)"
    and "dynpm_serialize_register_process_manager_msg 0 temp h m buf = Inr b"
  shows "\<exists>b'. dynpm_deserialize_register_process_manager_msg g ga b = Inr (m, b') \<and>
              dynpm_deserialize_register_process_manager_msg g' ga' b' = Inl Null_Deref"
proof -
  have host: "word_ok 256 (rp_hostname m)" using assms(1) by (simp add: register_process_manager_ok_def)
  obtain b' where b': "dynpm_deserialize_register_process_manager_msg g ga b = Inr (m, b')" "c_str b' = Inr (rp_line h m)"
    using deserialize_rp_text [OF assms(1), of b h g ga] serialize_rp_text [OF assms(3,1)] by blast
  then show ?thesis using deserialize_rp_missing_lines [OF host assms(2), of b' h "[]"] by auto
qed

theorem register_process_manager_decode_twice_witness:
  "\<exists>b b'. dynpm_serialize_register_process_manager_msg 0 (replicate 256 NUL)
            \<lparr>hdr_source_type = 2, hdr_message_type = 3\<rparr> example_registration
            (replicate DYNPM_MAX_MESSAGE_SIZE NUL) = Inr b \<and>
          dynpm_deserialize_register_process_manager_msg example_registration
            (\<lambda>_. hd (rp_applications example_registration)) b = Inr (example_registration, b') \<and>
          dynpm_deserialize_register_process_manager_msg example_registration
            (\<lambda>_. hd (rp_applications example_registration)) b' = Inl Null_Deref"
proof -
  obtain b where b: "dynpm_serialize_register_process_manager_msg 0 (replicate 256 NUL)
      \<lparr>hdr_source_type = 2, hdr_message_type = 3\<rparr> example_registration (replicate DYNPM_MAX_MESSAGE_SIZE NUL) = Inr b"
    using serialize_rp_total [OF example_registration_ok] by force
  have "0 < unat (rp_application_count example_registration)" by (simp add: example_registration_def)
  from register_process_manager_decode_twice [OF example_registration_ok this b] show ?thesis using b by blast
qed

text \<open>A resource offer keeps every 32-bit field, but of the two 64-bit times only the low half travels: the
  high half of the received time is what the receiver's memory held.\<close>

theorem resource_offer_times_truncated:
  assumes "length buf = DYNPM_MAX_MESSAGE_SIZE"
  shows "\<exists>b r. dynpm_serialize_resource_offer_msg h m buf = Inr b \<and>
      dynpm_deserialize_resource_offer_msg g b = Inr r \<and>
      ro_application_index r = ro_application_index m \<and> ro_partition_index r = ro_partition_index m \<and>
      ro_node_count r = ro_node_count m \<and>
      ro_creation_time r = set_low (ro_creation_time g) (ucast (ro_creation_time m)) \<and>
      ro_end_time r = set_low (ro_end_time g) (ucast (ro_end_time m))"
  using ro.transmit [OF TrueI assms, of h m h g] by (auto simp: resource_offer_recv_def)

theorem resource_offer_times_truncated_witness:
  "\<exists>b r. dynpm_serialize_resource_offer_msg \<lparr>hdr_source_type = 1, hdr_message_type = 6\<rparr>
           \<lparr>ro_application_index = 1, ro_partition_index = 2, ro_node_count = 3,
            ro_creation_time = 5, ro_end_time = 4294967301\<rparr> (replicate DYNPM_MAX_MESSAGE_SIZE NUL) = Inr b \<and>
         dynpm_deserialize_resource_offer_msg
           \<lparr>ro_application_index = 0, ro_partition_index = 0, ro_node_count = 0,
            ro_creation_time = 0, ro_end_time = 0\<rparr> b = Inr r \<and> ro_end_time r = 5"
  using resource_offer_times_truncated [of "replicate DYNPM_MAX_MESSAGE_SIZE NUL"
      "\<lparr>hdr_source_type = 1, hdr_message_type = 6\<rparr>"
      "\<lparr>ro_application_index = 1, ro_partition_index = 2, ro_node_count = 3,
        ro_creation_time = 5, ro_end_time = 4294967301\<rparr>"
      "\<lparr>ro_application_index = 0, ro_partition_index = 0, ro_node_count = 0,
        ro_creation_time = 0, ro_end_time = 0\<rparr>"]
  by (auto simp: set_low_def)

text \<open>The payload length of a received launch message is trusted: a length above 3840 makes the receiver read
  past the end of the message buffer.\<close>

theorem launch_payload_length_trusted:
  assumes "sprintf buf ''%d %d %d %d %d \<newline>'' [AInt s, AInt t, AInt i, AInt ty, AInt n] = Inr b"
    and "length buf = DYNPM_MAX_MESSAGE_SIZE" and "3840 < unat n"
  shows "dynpm_deserialize_dynamic_pm_launch_msg g b = Inl Out_Of_Bounds"
proof -
  let ?as = "[AInt s, AInt t, AInt i, AInt ty, AInt n]"
  have pr: "printable (parse_fmt ''%d %d %d %d %d \<newline>'') ?as" by simp
  from assms(1) pr obtain c where c: "c_str b = Inr c" "length c \<le> out_bound (parse_fmt ''%d %d %d %d %d \<newline>'') ?as"
    by (rule sprintf_c_str)
  then have "length c < 256" by simp
  moreover have "sscanf_buf b ''%d %d %d %d %d'' [To_int, To_int, To_int, To_int, To_int] = Inr ?as"
    using sprintf_sscanf [of buf "''%d %d %d %d %d \<newline>''" ?as "[]" b "''%d %d %d %d %d''"] assms(1) pr by simp
  moreover have "0 < n" using assms(3) by (simp add: word_less_nat_alt)
  ultimately show ?thesis using c(1) assms(2,3) length_sprintf [OF assms(1)]
    by (simp add: dynpm_deserialize_dynamic_pm_launch_msg_def get_payload_def memcpy_from_def Let_def
        DYNPM_MAX_MESSAGE_SIZE_def)
qed

theorem launch_payload_length_trusted_witness:
  "\<exists>b. sprintf (replicate DYNPM_MAX_MESSAGE_SIZE NUL) ''%d %d %d %d %d \<newline>''
         [AInt 1, AInt 14, AInt 1, AInt 1, AInt 100000] = Inr b \<and>
       dynpm_deserialize_dynamic_pm_launch_msg
         \<lparr>dl_id = 0, dl_type = 0, dl_payload_bytes = 0, dl_payload = None\<rparr> b = Inl Out_Of_Bounds"
proof -
  have "\<exists>b. sprintf (replicate DYNPM_MAX_MESSAGE_SIZE NUL) ''%d %d %d %d %d \<newline>''
      [AInt 1, AInt 14, AInt 1, AInt 1, AInt 100000] = Inr b"
    by (rule sprintf_total) (simp_all add: DYNPM_MAX_MESSAGE_SIZE_def)
  then obtain b where b: "sprintf (replicate DYNPM_MAX_MESSAGE_SIZE NUL) ''%d %d %d %d %d \<newline>''
      [AInt 1, AInt 14, AInt 1, AInt 1, AInt 100000] = Inr b" by blast
  from launch_payload_length_trusted [OF b] b show ?thesis by simp
qed

text \<open>A received host name of 256 characters or more overruns the receiver's 256-byte block.\<close>

theorem register_connection_long_host:
  assumes "word_ok 4000 (rc_hostname m)" and "256 \<le> length (rc_hostname m)"
    and "dynpm_serialize_register_connection_msg h m buf = Inr b"
  shows "dynpm_deserialize_register_connection_msg g b = Inl Buffer_Overflow"
proof -
  let ?t = "fmt_d (hdr_source_type h) @ CHR '' '' # fmt_d (hdr_message_type h) @ CHR '' '' # fmt_d (rc_pid m) @
            CHR '' '' # rc_hostname m"
  from assms(3) have "write_str ?t buf = Inr b"
    by (simp add: dynpm_serialize_register_connection_msg_def sprintf_def)
  moreover have "NUL \<notin> set ?t" using assms(1) by simp
  ultimately have "c_str b = Inr ?t" by (rule c_str_write_str)
  moreover have "scan_word (dropWhile isspace (rc_hostname m)) = Some (rc_hostname m, [])"
    using assms(1) scan_word_ok(1) [OF assms(1)] by (cases "rc_hostname m") (auto simp: word_ok_def)
  ultimately show ?thesis using assms(2)
    by (simp add: dynpm_deserialize_register_connection_msg_def sscanf_buf_def sscanf_def)
qed


theorem register_connection_long_host_witness:
  "\<exists>b. dynpm_serialize_register_connection_msg \<lparr>hdr_source_type = 1, hdr_message_type = 1\<rparr>
         \<lparr>rc_pid = 1, rc_hostname = replicate 300 (CHR ''n'')\<rparr> (replicate DYNPM_MAX_MESSAGE_SIZE NUL) = Inr b \<and>
       dynpm_deserialize_register_connection_msg \<lparr>rc_pid = 0, rc_hostname = []\<rparr> b = Inl Buffer_Overflow"
proof -
  let ?m = "\<lparr>rc_pid = 1, rc_hostname = replicate 300 (CHR ''n'')\<rparr>"
  have ok: "word_ok 4000 (rc_hostname ?m)" by (simp add: word_ok_eval list_all_iff)
  have "\<exists>b. dynpm_serialize_register_connection_msg \<lparr>hdr_source_type = 1, hdr_message_type = 1\<rparr> ?m
      (replicate DYNPM_MAX_MESSAGE_SIZE NUL) = Inr b"
    unfolding dynpm_serialize_register_connection_msg_def
    using NUL_notin_word [OF ok] by (intro sprintf_total) (simp_all add: DYNPM_MAX_MESSAGE_SIZE_def)
  then obtain b where b: "dynpm_serialize_register_connection_msg \<lparr>hdr_source_type = 1, hdr_message_type = 1\<rparr> ?m
      (replicate DYNPM_MAX_MESSAGE_SIZE NUL) = Inr b" by blast
  from register_connection_long_host [OF ok _ b] b show ?thesis by auto
qed

end
