(* ===== verification/Fifo.thy ===== *)
theory Fifo
  imports Prelude Messages
begin

text \<open>
  The two linked queues of the library: the per-connection queue of outgoing message buffers
  (\<open>_dynpm_enqueue_send_buffer\<close> of \<open>src/network/client.c\<close>, drained by the write callbacks) and
  the work queue of \<open>src/network/queue.c\<close>. Both are singly linked lists in memory, modelled by a
  heap of nodes; a walk to the tail may run into a dangling pointer (an error) or around a cycle
  (no result). The locale \<open>fifo\<close> is what the network components rely on, and both queues are
  interpretations of it, through the shared facts on linked nodes of the locale \<open>linked_nodes\<close>.
\<close>

section \<open>Linked nodes\<close>

text \<open>\<open>while (p->next) p = p->next;\<close> from a pointer that is not null.\<close>

partial_function (option) find_tail :: "(addr \<rightharpoonup> 'n) \<Rightarrow> ('n \<Rightarrow> addr option) \<Rightarrow> addr \<Rightarrow> addr res option" where
  "find_tail h nxt p =
     (case h p of None \<Rightarrow> Some (Inl Wild_Pointer)
      | Some n \<Rightarrow> (case nxt n of None \<Rightarrow> Some (Inr p) | Some q \<Rightarrow> find_tail h nxt q))"

text \<open>The list of the addresses from a head pointer to the end of the list.\<close>

fun linked :: "(addr \<rightharpoonup> 'n) \<Rightarrow> ('n \<Rightarrow> addr option) \<Rightarrow> addr option \<Rightarrow> addr list \<Rightarrow> bool" where
  "linked h nxt p [] = (p = None)"
| "linked h nxt p (a # as) = (p = Some a \<and> (case h a of None \<Rightarrow> False | Some n \<Rightarrow> linked h nxt (nxt n) as))"

lemma linked_dom: "linked h nxt p as \<Longrightarrow> a \<in> set as \<Longrightarrow> \<exists>n. h a = Some n"
  by (induction as arbitrary: p) (auto split: option.splits)

lemma linked_unique: "linked h nxt p as \<Longrightarrow> linked h nxt p bs \<Longrightarrow> as = bs"
proof (induction as arbitrary: p bs)
  case Nil
  then show ?case by (cases bs) auto
next
  case (Cons a as)
  then show ?case by (cases bs) (auto split: option.splits)
qed

lemma linked_upd [simp]: "x \<notin> set as \<Longrightarrow> linked (h(x := v)) nxt p as = linked h nxt p as"
  by (induction as arbitrary: p) (auto split: option.splits)

text \<open>A walk along a list that ends does end, at its last node.\<close>

lemma find_tail_linked: "linked h nxt (Some p) as \<Longrightarrow> find_tail h nxt p = Some (Inr (last as))"
proof (induction as arbitrary: p)
  case Nil
  then show ?case by simp
next
  case (Cons a as)
  then obtain n where n: "p = a" "h a = Some n" "linked h nxt (nxt n) as"
    by (auto split: option.splits)
  show ?case
  proof (cases "nxt n")
    case None
    with n show ?thesis by (cases as) (simp_all add: find_tail.simps)
  next
    case (Some q)
    with n have "as \<noteq> []" "find_tail h nxt q = Some (Inr (last as))" using Cons.IH by auto
    with n Some show ?thesis by (simp add: find_tail.simps [of h nxt a])
  qed
qed




locale linked_nodes =
  fixes nxt :: "'n \<Rightarrow> addr option"
    and set_nxt :: "addr option \<Rightarrow> 'n \<Rightarrow> 'n"
    and item :: "'n \<Rightarrow> 'a"
  assumes nxt_set [simp]: "nxt (set_nxt p n) = p"
    and item_set [simp]: "item (set_nxt p n) = item n"
begin

text \<open>Hanging a node that ends a list behind the last node of another list.\<close>

lemma linked_snoc:
  "linked h nxt p as \<Longrightarrow> as \<noteq> [] \<Longrightarrow> distinct as \<Longrightarrow> new \<notin> set as \<Longrightarrow> h new = Some n \<Longrightarrow> nxt n = None \<Longrightarrow>
   h (last as) = Some m \<Longrightarrow> linked (h(last as \<mapsto> set_nxt (Some new) m)) nxt p (as @ [new])"
proof (induction as arbitrary: p)
  case Nil
  then show ?case by simp
next
  case (Cons a as)
  show ?case
  proof (cases "as = []")
    case True
    with Cons.prems show ?thesis by auto
  next
    case False
    with Cons.prems have "last as \<noteq> a" by (metis distinct.simps(2) last_in_set)
    moreover from Cons.prems False obtain k where "h a = Some k" "linked h nxt (nxt k) as"
      by (auto split: option.splits)
    ultimately show ?thesis using Cons.prems False Cons.IH [of "nxt k"] by simp
  qed
qed

lemma items_snoc:
  assumes "as \<noteq> []" "new \<notin> set as" "h new = Some n" "h (last as) = Some m"
  shows "map (\<lambda>a. map_option item ((h(last as \<mapsto> set_nxt (Some new) m)) a)) (as @ [new]) =
         map (\<lambda>a. map_option item (h a)) as @ [Some (item n)]"
proof -
  have "last as \<noteq> new" using assms(1,2) last_in_set by metis
  with assms show ?thesis by auto
qed

end

section \<open>The interface of a queue\<close>

text \<open>
  A run of queue operations: \<open>Some x\<close> enqueues, \<open>None\<close> dequeues. \<open>run_ops\<close> executes the operations of
  an implementation and collects what each dequeue returned; \<open>spec_ops\<close> is the run on a list.
\<close>

fun run_ops :: "('x \<Rightarrow> 's \<Rightarrow> 's res option) \<Rightarrow> ('s \<Rightarrow> ('a \<times> 's) option) \<Rightarrow> 'x option list \<Rightarrow> 's \<Rightarrow>
    ('a option list \<times> 's) option" where
  "run_ops enq deq [] s = Some ([], s)"
| "run_ops enq deq (Some x # ops) s =
     (case enq x s of Some (Inr s') \<Rightarrow> run_ops enq deq ops s' | _ \<Rightarrow> None)"
| "run_ops enq deq (None # ops) s =
     (case deq s of None \<Rightarrow> map_option (\<lambda>(out, t). (None # out, t)) (run_ops enq deq ops s)
      | Some (a, s') \<Rightarrow> map_option (\<lambda>(out, t). (Some a # out, t)) (run_ops enq deq ops s'))"

fun spec_ops :: "('x \<Rightarrow> 'a) \<Rightarrow> 'x option list \<Rightarrow> 'a list \<Rightarrow> 'a option list \<times> 'a list" where
  "spec_ops val [] xs = ([], xs)"
| "spec_ops val (Some x # ops) xs = spec_ops val ops (xs @ [val x])"
| "spec_ops val (None # ops) [] = (let (out, ys) = spec_ops val ops [] in (None # out, ys))"
| "spec_ops val (None # ops) (a # xs) = (let (out, ys) = spec_ops val ops xs in (Some a # out, ys))"

fun all_fresh :: "('x \<Rightarrow> 's \<Rightarrow> bool) \<Rightarrow> ('x \<Rightarrow> 's \<Rightarrow> 's res option) \<Rightarrow> ('s \<Rightarrow> ('a \<times> 's) option) \<Rightarrow> 'x option list \<Rightarrow> 's \<Rightarrow> bool" where
  "all_fresh fresh enq deq [] s = True"
| "all_fresh fresh enq deq (Some x # ops) s =
     (fresh x s \<and> (case enq x s of Some (Inr s') \<Rightarrow> all_fresh fresh enq deq ops s' | _ \<Rightarrow> True))"
| "all_fresh fresh enq deq (None # ops) s =
     (case deq s of None \<Rightarrow> all_fresh fresh enq deq ops s | Some (a, s') \<Rightarrow> all_fresh fresh enq deq ops s')"

text \<open>
  \<open>holds s xs\<close>: the queue in memory is well formed and holds \<open>xs\<close>, oldest first. \<open>fresh\<close> is what the
  caller provides with a new element (memory that is not in use).
\<close>

locale fifo =
  fixes holds :: "'s \<Rightarrow> 'a list \<Rightarrow> bool"
    and fresh :: "'x \<Rightarrow> 's \<Rightarrow> bool"
    and val :: "'x \<Rightarrow> 'a"
    and enq :: "'x \<Rightarrow> 's \<Rightarrow> 's res option"
    and deq :: "'s \<Rightarrow> ('a \<times> 's) option"
  assumes enq_ok: "holds s xs \<Longrightarrow> fresh x s \<Longrightarrow> \<exists>s'. enq x s = Some (Inr s') \<and> holds s' (xs @ [val x])"
    and deq_empty: "holds s [] \<Longrightarrow> deq s = None"
    and deq_head: "holds s (a # xs) \<Longrightarrow> \<exists>s'. deq s = Some (a, s') \<and> holds s' xs"
begin

text \<open>The queue returns what the list run returns: nothing is lost, doubled, reordered or made up.\<close>

lemma run_refines:
  "holds s xs \<Longrightarrow> all_fresh fresh enq deq ops s \<Longrightarrow>
   \<exists>s'. run_ops enq deq ops s = Some (fst (spec_ops val ops xs), s') \<and> holds s' (snd (spec_ops val ops xs))"
proof (induction ops arbitrary: s xs)
  case Nil
  then show ?case by simp
next
  case (Cons op ops)
  show ?case
  proof (cases op)
    case (Some x)
    with Cons.prems enq_ok [of s xs x] obtain s' where "enq x s = Some (Inr s')" "holds s' (xs @ [val x])" by auto
    with Some Cons.prems Cons.IH [of s' "xs @ [val x]"] show ?thesis by simp
  next
    case None
    show ?thesis
    proof (cases xs)
      case Nil
      with Cons.prems have "deq s = None" by (simp add: deq_empty)
      with None Nil Cons.prems Cons.IH [of s "[]"] show ?thesis by (auto split: prod.splits)
    next
      case (Cons a ys)
      with Cons.prems deq_head [of s a ys] obtain s' where "deq s = Some (a, s')" "holds s' ys" by auto
      with None Cons Cons.prems Cons.IH [of s' ys] show ?thesis by (auto split: prod.splits)
    qed
  qed
qed

end

section \<open>The queue of outgoing messages\<close>

record dynpm_message_fifo_queue =
  mq_buffer :: buffer
  mq_next :: "addr option"

record message_queue =
  messages_heap :: "addr \<rightharpoonup> dynpm_message_fifo_queue"
  messages_head :: "addr option"

text \<open>
  \<open>_dynpm_enqueue_send_buffer\<close>: \<open>new\<close> is what the first \<open>malloc\<close> returned. The node is dereferenced
  before it is compared with \<open>NULL\<close>, and the copy takes the full message size from the caller's
  buffer.
\<close>

definition dynpm_enqueue_send_buffer ::
    "buffer \<Rightarrow> addr option \<Rightarrow> message_queue \<Rightarrow> (int \<times> message_queue) res option" where
  "dynpm_enqueue_send_buffer buf new q =
     (case new of None \<Rightarrow> Some (Inl Null_Deref)
      | Some a \<Rightarrow>
          if length buf < DYNPM_MAX_MESSAGE_SIZE then Some (Inl Out_Of_Bounds)
          else (let node = \<lparr>mq_buffer = take DYNPM_MAX_MESSAGE_SIZE buf, mq_next = None\<rparr>;
                    h = (messages_heap q)(a \<mapsto> node)
                in case messages_head q of
                     None \<Rightarrow> Some (Inr (0, \<lparr>messages_heap = h, messages_head = Some a\<rparr>))
                   | Some p \<Rightarrow>
                       (case find_tail h mq_next p of None \<Rightarrow> None
                        | Some (Inl e) \<Rightarrow> Some (Inl e)
                        | Some (Inr t) \<Rightarrow>
                            (case h t of None \<Rightarrow> Some (Inl Wild_Pointer)
                             | Some n \<Rightarrow>
                                 Some (Inr (0, \<lparr>messages_heap = h(t \<mapsto> n\<lparr>mq_next := Some a\<rparr>),
                                                messages_head = messages_head q\<rparr>))))))"

text \<open>Taking the oldest message, as the write callbacks do: the node itself is not freed.\<close>

definition message_pop :: "message_queue \<Rightarrow> (buffer \<times> message_queue) option" where
  "message_pop q =
     (case messages_head q of None \<Rightarrow> None
      | Some p \<Rightarrow> (case messages_heap q p of None \<Rightarrow> None
                   | Some n \<Rightarrow> Some (mq_buffer n, q\<lparr>messages_head := mq_next n\<rparr>)))"

text \<open>\<open>message_queue_holds q bufs\<close>: the nodes from the head on hold \<open>bufs\<close>, and no node occurs twice.\<close>

definition message_queue_holds :: "message_queue \<Rightarrow> buffer list \<Rightarrow> bool" where
  "message_queue_holds q bufs \<longleftrightarrow>
     (\<exists>as. linked (messages_heap q) mq_next (messages_head q) as \<and> distinct as \<and>
           map (\<lambda>a. map_option mq_buffer (messages_heap q a)) as = map Some bufs)"

lemma message_queue_holds_unique:
  assumes "message_queue_holds q xs" and "message_queue_holds q ys"
  shows "xs = ys"
proof -
  from assms obtain as bs where "linked (messages_heap q) mq_next (messages_head q) as"
    "linked (messages_heap q) mq_next (messages_head q) bs"
    and m: "map (\<lambda>a. map_option mq_buffer (messages_heap q a)) as = map Some xs"
    "map (\<lambda>a. map_option mq_buffer (messages_heap q a)) bs = map Some ys"
    by (auto simp: message_queue_holds_def)
  then have "as = bs" by (simp add: linked_unique)
  with m have "map Some xs = map Some ys" by simp
  then show ?thesis by (simp add: inj_def map_injective)
qed

definition message_fresh :: "buffer \<times> addr \<Rightarrow> message_queue \<Rightarrow> bool" where
  "message_fresh x q \<longleftrightarrow> messages_heap q (snd x) = None \<and> DYNPM_MAX_MESSAGE_SIZE \<le> length (fst x)"

definition message_enq :: "buffer \<times> addr \<Rightarrow> message_queue \<Rightarrow> message_queue res option" where
  "message_enq x q =
     map_option (map_sum id snd) (dynpm_enqueue_send_buffer (fst x) (Some (snd x)) q)"

interpretation mq_nodes: linked_nodes mq_next "\<lambda>p n. n\<lparr>mq_next := p\<rparr>" mq_buffer
  by unfold_locales simp_all

lemma enqueue_send_buffer_holds:
  assumes "message_queue_holds q bufs" and "messages_heap q a = None" and "DYNPM_MAX_MESSAGE_SIZE \<le> length buf"
  shows "\<exists>q'. dynpm_enqueue_send_buffer buf (Some a) q = Some (Inr (0, q')) \<and>
              message_queue_holds q' (bufs @ [take DYNPM_MAX_MESSAGE_SIZE buf])"
proof -
  let ?n = "\<lparr>mq_buffer = take DYNPM_MAX_MESSAGE_SIZE buf, mq_next = None\<rparr>"
  let ?h = "(messages_heap q)(a \<mapsto> ?n)"
  from assms(1) obtain as where l: "linked (messages_heap q) mq_next (messages_head q) as" and d: "distinct as"
    and m: "map (\<lambda>a. map_option mq_buffer (messages_heap q a)) as = map Some bufs"
    by (auto simp: message_queue_holds_def)
  from l assms(2) have a: "a \<notin> set as" using linked_dom by fastforce
  then have l': "linked ?h mq_next (messages_head q) as" using l by simp
  have m': "map (\<lambda>a. map_option mq_buffer (?h a)) as = map Some bufs"
    using m a by (simp del: fun_upd_apply)
  show ?thesis
  proof (cases "messages_head q")
    case None
    with l have "as = []" by (cases as) auto
    with m have "bufs = []" by simp
    moreover have "message_queue_holds \<lparr>messages_heap = ?h, messages_head = Some a\<rparr> [take DYNPM_MAX_MESSAGE_SIZE buf]"
      unfolding message_queue_holds_def by (rule exI [of _ "[a]"]) simp
    ultimately show ?thesis using None assms(3) by (simp add: dynpm_enqueue_send_buffer_def Let_def)
  next
    case (Some p)
    with l have ne: "as \<noteq> []" by auto
    from l' Some have t: "find_tail ?h mq_next p = Some (Inr (last as))" by (simp add: find_tail_linked)
    obtain n where n: "?h (last as) = Some n" using linked_dom [OF l'] ne by fastforce
    let ?q = "\<lparr>messages_heap = ?h(last as \<mapsto> n\<lparr>mq_next := Some a\<rparr>), messages_head = messages_head q\<rparr>"
    have "linked (messages_heap ?q) mq_next (messages_head q) (as @ [a])"
      unfolding message_queue.simps by (rule mq_nodes.linked_snoc [OF l' ne d a _ _ n], simp, simp)
    moreover have "map (\<lambda>x. map_option mq_buffer (messages_heap ?q x)) (as @ [a]) =
        map Some (bufs @ [take DYNPM_MAX_MESSAGE_SIZE buf])"
      using mq_nodes.items_snoc [where h = ?h and n = ?n, OF ne a _ n] m' by (simp del: fun_upd_apply add: fun_upd_same)
    moreover have "distinct (as @ [a])" using d a by simp
    ultimately have "message_queue_holds ?q (bufs @ [take DYNPM_MAX_MESSAGE_SIZE buf])"
      unfolding message_queue_holds_def by (metis message_queue.select_convs(2))
    with Some t n assms(3) show ?thesis by (simp add: dynpm_enqueue_send_buffer_def Let_def del: fun_upd_apply)
  qed
qed

interpretation mq: fifo message_queue_holds message_fresh
  "\<lambda>x. take DYNPM_MAX_MESSAGE_SIZE (fst x)" message_enq message_pop
proof
  fix s xs x
  assume "message_queue_holds s xs" "message_fresh x s"
  then show "\<exists>s'. message_enq x s = Some (Inr s') \<and>
      message_queue_holds s' (xs @ [take DYNPM_MAX_MESSAGE_SIZE (fst x)])"
    using enqueue_send_buffer_holds [of s xs "snd x" "fst x"] by (auto simp: message_fresh_def message_enq_def)
next
  fix s
  assume "message_queue_holds s []"
  then show "message_pop s = None" by (auto simp: message_queue_holds_def message_pop_def)
next
  fix s a xs
  assume "message_queue_holds s (a # xs)"
  then obtain p as n where "messages_head s = Some p" "messages_heap s p = Some n" "mq_buffer n = a"
    "linked (messages_heap s) mq_next (mq_next n) as" "distinct as"
    "map (\<lambda>a. map_option mq_buffer (messages_heap s a)) as = map Some xs"
    by (auto simp: message_queue_holds_def map_eq_Cons_conv split: option.splits)
  then show "\<exists>s'. message_pop s = Some (a, s') \<and> message_queue_holds s' xs"
    by (auto simp: message_pop_def message_queue_holds_def)
qed

section \<open>The work queue\<close>

text \<open>
  A unit of work is a function and its data, here one value of any type, and the link. The queue
  record holds the memory of the units and the head pointer.
\<close>

record 'j dynpm_work_unit =
  wu_job :: 'j
  wu_next :: "addr option"

record 'j work_list =
  wl_heap :: "addr \<rightharpoonup> 'j dynpm_work_unit"
  wl_units :: "addr option"

text \<open>\<open>dynpm_work_queue_add\<close>: link the unit behind the tail, then clear its own link.\<close>

definition dynpm_work_queue_add :: "addr \<Rightarrow> 'j work_list \<Rightarrow> 'j work_list res option" where
  "dynpm_work_queue_add u q =
     (let clear = (\<lambda>q'. case wl_heap q' u of None \<Rightarrow> Some (Inl Wild_Pointer)
                    | Some n \<Rightarrow> Some (Inr (q'\<lparr>wl_heap := (wl_heap q')(u \<mapsto> n\<lparr>wu_next := None\<rparr>)\<rparr>)))
      in case wl_units q of
           Some p \<Rightarrow>
             (case find_tail (wl_heap q) wu_next p of None \<Rightarrow> None
              | Some (Inl e) \<Rightarrow> Some (Inl e)
              | Some (Inr t) \<Rightarrow>
                  (case wl_heap q t of None \<Rightarrow> Some (Inl Wild_Pointer)
                   | Some n \<Rightarrow> clear (q\<lparr>wl_heap := (wl_heap q)(t \<mapsto> n\<lparr>wu_next := Some u\<rparr>)\<rparr>)))
         | None \<Rightarrow> clear (q\<lparr>wl_units := Some u\<rparr>))"

text \<open>A producer allocates the unit, fills it in (its link is indeterminate, \<open>g\<close>) and adds it.\<close>

definition submit_work :: "'j \<Rightarrow> addr option \<Rightarrow> addr \<Rightarrow> 'j work_list \<Rightarrow> 'j work_list res option" where
  "submit_work j g u q =
     dynpm_work_queue_add u (q\<lparr>wl_heap := (wl_heap q)(u \<mapsto> \<lparr>wu_job = j, wu_next = g\<rparr>)\<rparr>)"

text \<open>The part of \<open>queue_thread\<close> that takes the first unit off the list.\<close>

definition take_work :: "'j work_list \<Rightarrow> ('j \<times> 'j work_list) option" where
  "take_work q =
     (case wl_units q of None \<Rightarrow> None
      | Some p \<Rightarrow> (case wl_heap q p of None \<Rightarrow> None
                   | Some n \<Rightarrow> Some (wu_job n, q\<lparr>wl_units := wu_next n,
                                                wl_heap := (wl_heap q)(p \<mapsto> n\<lparr>wu_next := None\<rparr>)\<rparr>)))"

definition work_list_holds :: "'j work_list \<Rightarrow> 'j list \<Rightarrow> bool" where
  "work_list_holds q js \<longleftrightarrow>
     (\<exists>as. linked (wl_heap q) wu_next (wl_units q) as \<and> distinct as \<and>
           map (\<lambda>a. map_option wu_job (wl_heap q a)) as = map Some js)"

definition work_fresh :: "'j \<times> addr option \<times> addr \<Rightarrow> 'j work_list \<Rightarrow> bool" where
  "work_fresh x q \<longleftrightarrow> wl_heap q (snd (snd x)) = None"

definition work_enq :: "'j \<times> addr option \<times> addr \<Rightarrow> 'j work_list \<Rightarrow> 'j work_list res option" where
  "work_enq x q = submit_work (fst x) (fst (snd x)) (snd (snd x)) q"

interpretation wl_nodes: linked_nodes wu_next "\<lambda>p n. n\<lparr>wu_next := p\<rparr>" wu_job
  by unfold_locales simp_all

lemma submit_work_holds:
  assumes "work_list_holds q js" and "wl_heap q u = None"
  shows "\<exists>q'. submit_work j g u q = Some (Inr q') \<and> work_list_holds q' (js @ [j])"
proof -
  let ?n = "\<lparr>wu_job = j, wu_next = None\<rparr>"
  let ?hg = "(wl_heap q)(u \<mapsto> \<lparr>wu_job = j, wu_next = g\<rparr>)" and ?h = "(wl_heap q)(u \<mapsto> ?n)"
  from assms(1) obtain as where l: "linked (wl_heap q) wu_next (wl_units q) as" and d: "distinct as"
    and m: "map (\<lambda>a. map_option wu_job (wl_heap q a)) as = map Some js"
    by (auto simp: work_list_holds_def)
  from l assms(2) have u: "u \<notin> set as" using linked_dom by fastforce
  show ?thesis
  proof (cases "wl_units q")
    case None
    with l have "as = []" by (cases as) auto
    with m have "js = []" by simp
    moreover have "work_list_holds \<lparr>wl_heap = ?h, wl_units = Some u\<rparr> [j]"
      unfolding work_list_holds_def by (rule exI [of _ "[u]"]) simp
    ultimately show ?thesis using None
      by (auto simp: submit_work_def dynpm_work_queue_add_def Let_def work_list_holds_def)
  next
    case (Some p)
    with l have ne: "as \<noteq> []" by auto
    from l u have l0: "linked ?hg wu_next (wl_units q) as" and lh: "linked ?h wu_next (wl_units q) as" by simp_all
    from l0 Some have t: "find_tail ?hg wu_next p = Some (Inr (last as))" by (simp add: find_tail_linked)
    have lu: "last as \<noteq> u" using ne u last_in_set by metis
    obtain n where n: "wl_heap q (last as) = Some n" using linked_dom [OF l] ne by fastforce
    let ?q = "\<lparr>wl_heap = ?h(last as \<mapsto> n\<lparr>wu_next := Some u\<rparr>), wl_units = Some p\<rparr>"
    from n lu have n': "?h (last as) = Some n" by simp
    have "linked (wl_heap ?q) wu_next (wl_units ?q) (as @ [u])"
      unfolding work_list.simps Some [symmetric] by (rule wl_nodes.linked_snoc [OF lh ne d u _ _ n'], simp, simp)
    moreover have "map (\<lambda>x. map_option wu_job (wl_heap ?q x)) (as @ [u]) = map Some (js @ [j])"
      using wl_nodes.items_snoc [where h = ?h and n = ?n, OF ne u _ n'] m u by (simp del: fun_upd_apply add: fun_upd_same)
    moreover have "distinct (as @ [u])" using d u by simp
    ultimately have "work_list_holds ?q (js @ [j])" unfolding work_list_holds_def by blast
    moreover have "submit_work j g u q = Some (Inr (q\<lparr>wl_heap := ?h(last as \<mapsto> n\<lparr>wu_next := Some u\<rparr>)\<rparr>))"
      using Some t n lu
      by (simp add: submit_work_def dynpm_work_queue_add_def Let_def fun_upd_twist [of "last as" u])
    ultimately show ?thesis using Some by (auto simp: work_list_holds_def)
  qed
qed

interpretation wl: fifo work_list_holds work_fresh fst work_enq take_work
proof
  fix s :: "'j work_list" and xs x
  assume "work_list_holds s xs" "work_fresh x s"
  then show "\<exists>s'. work_enq x s = Some (Inr s') \<and> work_list_holds s' (xs @ [fst x])"
    unfolding work_fresh_def work_enq_def by (rule submit_work_holds)
next
  fix s :: "'j work_list"
  assume "work_list_holds s []"
  then show "take_work s = None" by (auto simp: work_list_holds_def take_work_def)
next
  fix s :: "'j work_list" and a xs
  assume "work_list_holds s (a # xs)"
  then obtain p as n where p: "wl_units s = Some p" "wl_heap s p = Some n" "wu_job n = a"
    "linked (wl_heap s) wu_next (wu_next n) as" "distinct as" "p \<notin> set as"
    "map (\<lambda>a. map_option wu_job (wl_heap s a)) as = map Some xs"
    by (auto simp: work_list_holds_def map_eq_Cons_conv split: option.splits)
  then have "work_list_holds (s\<lparr>wl_units := wu_next n, wl_heap := (wl_heap s)(p \<mapsto> n\<lparr>wu_next := None\<rparr>)\<rparr>) xs"
    unfolding work_list_holds_def by (intro exI [of _ as]) (simp del: fun_upd_apply)
  with p show "\<exists>s'. take_work s = Some (a, s') \<and> work_list_holds s' xs"
    by (simp add: take_work_def)
qed

section \<open>Properties\<close>

text \<open>C17: The queue of outgoing messages is a first-in first-out queue: any sequence of enqueue and dequeue
  operations returns, message for message, what the same operations on a list return, and leaves in
  memory a well-formed queue with the list's contents.\<close>

theorem message_queue_fifo:
  assumes "message_queue_holds q xs" and "all_fresh message_fresh message_enq message_pop ops q"
  shows "\<exists>q'. run_ops message_enq message_pop ops q =
                Some (fst (spec_ops (\<lambda>x. take DYNPM_MAX_MESSAGE_SIZE (fst x)) ops xs), q') \<and>
              message_queue_holds q' (snd (spec_ops (\<lambda>x. take DYNPM_MAX_MESSAGE_SIZE (fst x)) ops xs))"
  using assms by (rule mq.run_refines)

theorem message_queue_fifo_witness:
  "\<exists>q'. run_ops message_enq message_pop [None, Some (replicate DYNPM_MAX_MESSAGE_SIZE (CHR ''a''), 3), None]
          \<lparr>messages_heap = Map.empty, messages_head = None\<rparr> =
        Some ([None, Some (replicate DYNPM_MAX_MESSAGE_SIZE (CHR ''a''))], q') \<and> message_queue_holds q' []"
  using message_queue_fifo [of "\<lparr>messages_heap = Map.empty, messages_head = None\<rparr>" "[]"
      "[None, Some (replicate DYNPM_MAX_MESSAGE_SIZE (CHR ''a''), 3), None]"]
  by (simp add: message_queue_holds_def message_pop_def message_fresh_def message_enq_def dynpm_enqueue_send_buffer_def Let_def)

text \<open>The work queue is a first-in first-out queue in the same sense, whatever the link field of a new unit
  held.\<close>

theorem work_queue_fifo:
  assumes "work_list_holds q js" and "all_fresh work_fresh work_enq take_work ops q"
  shows "\<exists>q'. run_ops work_enq take_work ops q = Some (fst (spec_ops fst ops js), q') \<and>
              work_list_holds q' (snd (spec_ops fst ops js))"
  using assms by (rule wl.run_refines)

theorem work_queue_fifo_witness:
  "\<exists>q'. run_ops work_enq take_work [Some (1 :: nat, None, 5), None, None] \<lparr>wl_heap = Map.empty, wl_units = None\<rparr> =
        Some ([Some 1, None], q') \<and> work_list_holds q' []"
  using work_queue_fifo [of "\<lparr>wl_heap = Map.empty, wl_units = None\<rparr>" "[]" "[Some (1 :: nat, None, 5), None, None]"]
  by (simp add: work_list_holds_def work_fresh_def work_enq_def submit_work_def dynpm_work_queue_add_def take_work_def Let_def)



end
