(* ===== verification/Client.thy ===== *)
theory Client
  imports Registration Fifo
begin

text \<open>
  The client side, \<open>src/network/client.c\<close>: the table of connections to servers, the operations that
  fill and empty it, and the paths by which messages reach the queue of a connection. Pointers to
  connections are addresses into a heap of connection records. A lock is a flag of the record it
  protects; taking a lock that an earlier call left behind blocks for ever.
\<close>

section \<open>State\<close>

record client_connection =
  cc_host :: "string option"
  cc_port :: "string option"
  cc_messages :: message_queue
  cc_messages_mutex :: bool
  cc_parent_connection :: "addr option"
  cc_handler :: "addr option"
  cc_evbase :: bool
  cc_dns_base :: bool
  cc_buf_ev :: bool
  cc_connected :: bool
  cc_index :: int

record client_state =
  server_connections :: "addr option list"
  client_heap :: "addr \<rightharpoonup> client_connection"
  server_connections_mutex :: bool
  server_connection_count :: int
  dynpm_client_initialized :: bool

definition empty_queue :: message_queue where
  "empty_queue = \<lparr>messages_heap = Map.empty, messages_head = None\<rparr>"

text \<open>The static initial values, before \<open>dynpm_client_init\<close>.\<close>

definition client_start :: client_state where
  "client_start = \<lparr>server_connections = replicate MAX_SERVER_CONNECTIONS None, client_heap = Map.empty,
     server_connections_mutex = False, server_connection_count = -1, dynpm_client_initialized = False\<rparr>"

section \<open>Initialisation\<close>

text \<open>\<open>_dynpm_init_server_connection\<close>: the handler and the index are not initialised there; the
  caller sets both before they are read.\<close>

definition dynpm_init_server_connection :: client_connection where
  "dynpm_init_server_connection =
     \<lparr>cc_host = None, cc_port = None, cc_messages = empty_queue, cc_messages_mutex = False,
      cc_parent_connection = None, cc_handler = None, cc_evbase = False, cc_dns_base = False,
      cc_buf_ev = False, cc_connected = False, cc_index = 0\<rparr>"

definition dynpm_client_init :: "client_state \<Rightarrow> int \<times> client_state" where
  "dynpm_client_init s =
     (if dynpm_client_initialized s then (0, s)
      else (0, s\<lparr>server_connection_count := 0,
                 server_connections := replicate MAX_SERVER_CONNECTIONS None,
                 dynpm_client_initialized := True,
                 server_connections_mutex := False\<rparr>))"

section \<open>Sending\<close>

text \<open>The messages a \<open>void *\<close> of the send functions can point to.\<close>

datatype wire_msg =
    M_register dynpm_register_connection_msg
  | M_deregister dynpm_deregister_connection_msg
  | M_create_tbon dynpm_create_tbon_msg
  | M_offer dynpm_resource_offer_msg
  | M_launch dynpm_dynamic_pm_launch_msg
  | M_register_pm dynpm_register_process_manager_msg
  | M_alloc_request dynpm_allocation_request_msg
  | M_ready dynpm_ready_msg
  | M_io_out dynpm_dynamic_io_out_msg
  | M_report dynpm_report_process_data_msg
  | M_realloc_start dynpm_reallocation_start_msg
  | M_other

text \<open>What the allocator and the stack provide to a send: the write buffer, the queue node, and the
  uninitialised loop variable and scratch block of the registration serialiser.\<close>

record send_env =
  se_buffer :: buffer
  se_node :: addr
  se_app :: u32
  se_temp :: buffer

text \<open>The switch of \<open>_dynpm_internal_send_message_to_server\<close>: \<open>None\<close> is the default branch.\<close>

definition serialize_for_server :: "send_env \<Rightarrow> dynpm_header \<Rightarrow> wire_msg \<Rightarrow> buffer res option" where
  "serialize_for_server e h m =
     (if hdr_message_type h = message_code REGISTER_CONNECTION then
        Some (case m of M_register x \<Rightarrow> dynpm_serialize_register_connection_msg h x (se_buffer e) | _ \<Rightarrow> Inl Type_Confusion)
      else if hdr_message_type h = message_code DEREGISTER_CONNECTION then
        Some (case m of M_deregister x \<Rightarrow> dynpm_serialize_deregister_connection_msg h x (se_buffer e) | _ \<Rightarrow> Inl Type_Confusion)
      else if hdr_message_type h = message_code CREATE_TBON then
        Some (case m of M_create_tbon x \<Rightarrow> dynpm_serialize_create_tbon_msg h x (se_buffer e) | _ \<Rightarrow> Inl Type_Confusion)
      else if hdr_message_type h = message_code OFFER_RESOURCES then
        Some (case m of M_offer x \<Rightarrow> dynpm_serialize_resource_offer_msg h x (se_buffer e) | _ \<Rightarrow> Inl Type_Confusion)
      else if hdr_message_type h = message_code DYNAMIC_PM_LAUNCH then
        Some (case m of M_launch x \<Rightarrow> dynpm_serialize_dynamic_pm_launch_msg h x (se_buffer e) | _ \<Rightarrow> Inl Type_Confusion)
      else if hdr_message_type h = message_code REGISTER_PROCESS_MANAGER then
        Some (case m of M_register_pm x \<Rightarrow>
                dynpm_serialize_register_process_manager_msg (se_app e) (se_temp e) h x (se_buffer e)
              | _ \<Rightarrow> Inl Type_Confusion)
      else if hdr_message_type h = message_code ALLOCATION_REQUEST then
        Some (case m of M_alloc_request x \<Rightarrow> dynpm_serialize_allocation_request_msg h x (se_buffer e) | _ \<Rightarrow> Inl Type_Confusion)
      else None)"

definition connection_at :: "client_state \<Rightarrow> addr \<Rightarrow> client_connection res" where
  "connection_at s c = (case client_heap s c of None \<Rightarrow> Inl Wild_Pointer | Some x \<Rightarrow> Inr x)"

definition put_connection :: "client_state \<Rightarrow> addr \<Rightarrow> client_connection \<Rightarrow> client_state" where
  "put_connection s c x = s\<lparr>client_heap := (client_heap s)(c \<mapsto> x)\<rparr>"

definition server_entry :: "client_state \<Rightarrow> int \<Rightarrow> addr option res" where
  "server_entry s index =
     (if 0 \<le> index \<and> nat index < length (server_connections s) then Inr (server_connections s ! nat index)
      else Inl Out_Of_Bounds)"

text \<open>\<open>_dynpm_internal_send_buffer_to_server\<close>\<close>

definition internal_send_buffer_to_server ::
    "addr \<Rightarrow> buffer \<Rightarrow> addr \<Rightarrow> client_state \<Rightarrow> (int \<times> client_state) res" where
  "internal_send_buffer_to_server node buf c s =
     rbind (connection_at s c) (\<lambda>x.
     rassert (\<not> cc_messages_mutex x) Blocked
       (rbind (settle (dynpm_enqueue_send_buffer buf (Some node) (cc_messages x))) (\<lambda>(_, q).
          Inr (0, put_connection s c (x\<lparr>cc_messages := q\<rparr>)))))"

text \<open>\<open>_dynpm_internal_send_message_to_server\<close>\<close>

definition internal_send_message_to_server ::
    "send_env \<Rightarrow> dynpm_header \<Rightarrow> wire_msg \<Rightarrow> addr \<Rightarrow> client_state \<Rightarrow> (int \<times> client_state) res" where
  "internal_send_message_to_server e h m c s =
     rbind (connection_at s c) (\<lambda>x.
     rassert (\<not> cc_messages_mutex x) Blocked
       (case serialize_for_server e h m of
          None \<Rightarrow> Inr (-1, s)
        | Some r \<Rightarrow>
            rbind r (\<lambda>buf.
            rbind (settle (dynpm_enqueue_send_buffer buf (Some (se_node e)) (cc_messages x))) (\<lambda>(_, q).
              Inr (0, put_connection s c (x\<lparr>cc_messages := q\<rparr>))))))"

text \<open>\<open>dynpm_send_buffer_to_server\<close> and \<open>dynpm_send_message_to_server\<close>: the table lock is taken and
  given back around the test of the entry.\<close>

definition dynpm_send_buffer_to_server ::
    "addr \<Rightarrow> buffer \<Rightarrow> int \<Rightarrow> client_state \<Rightarrow> (int \<times> client_state) res" where
  "dynpm_send_buffer_to_server node buf index s =
     (if \<not> dynpm_client_initialized s then Inr (-1, s)
      else rassert (\<not> server_connections_mutex s) Blocked
        (rbind (server_entry s index) (\<lambda>entry.
           case entry of None \<Rightarrow> Inr (-1, s)
           | Some c \<Rightarrow> internal_send_buffer_to_server node buf c s)))"

definition dynpm_send_message_to_server ::
    "send_env \<Rightarrow> dynpm_header \<Rightarrow> wire_msg \<Rightarrow> int \<Rightarrow> client_state \<Rightarrow> (int \<times> client_state) res" where
  "dynpm_send_message_to_server e h m index s =
     (if \<not> dynpm_client_initialized s then Inr (-1, s)
      else rassert (\<not> server_connections_mutex s) Blocked
        (rbind (server_entry s index) (\<lambda>entry.
           case entry of None \<Rightarrow> Inr (-1, s)
           | Some c \<Rightarrow> internal_send_message_to_server e h m c s)))"

definition dynpm_send_header_to_server ::
    "send_env \<Rightarrow> dynpm_source_type \<Rightarrow> dynpm_message_type \<Rightarrow> int \<Rightarrow> client_state \<Rightarrow> (int \<times> client_state) res" where
  "dynpm_send_header_to_server e source type index s =
     rbind (dynpm_serialize_header \<lparr>hdr_source_type = source_code source, hdr_message_type = message_code type\<rparr>
              (se_buffer e)) (\<lambda>buf.
     rbind (dynpm_send_buffer_to_server (se_node e) buf index s) (\<lambda>(rc, s').
       Inr (if rc \<noteq> 0 then -1 else 0, s')))"

text \<open>\<open>dynpm_send_header_to_server_connection\<close> has no \<open>return\<close>: only its effect is modelled.\<close>

definition dynpm_send_header_to_server_connection ::
    "send_env \<Rightarrow> dynpm_source_type \<Rightarrow> dynpm_message_type \<Rightarrow> addr \<Rightarrow> client_state \<Rightarrow> client_state res" where
  "dynpm_send_header_to_server_connection e source type c s =
     rbind (dynpm_serialize_header \<lparr>hdr_source_type = source_code source, hdr_message_type = message_code type\<rparr>
              (se_buffer e)) (\<lambda>buf.
     rbind (connection_at s c) (\<lambda>x.
     rbind (dynpm_send_buffer_to_server (se_node e) buf (cc_index x) s) (\<lambda>(_, s'). Inr s')))"

section \<open>Connecting\<close>

text \<open>The slot the search loop stops at: the first null entry, or the table size.\<close>

fun find_null :: "'a option list \<Rightarrow> nat" where
  "find_null [] = 0"
| "find_null (None # xs) = 0"
| "find_null (Some x # xs) = Suc (find_null xs)"

text \<open>What the outside contributes to a connection attempt: the new record's address, whether the
  libevent and pthread calls succeed, whether the connected event arrives, the process id and host
  name, and the memory of the registration message.\<close>

record connect_env =
  ce_addr :: addr
  ce_evbase :: bool
  ce_dns_base :: bool
  ce_buf_ev :: bool
  ce_thread :: bool
  ce_setname :: bool
  ce_connected :: bool
  ce_pid :: u32
  ce_hostname :: string
  ce_send :: send_env

definition registration_header :: "dynpm_source_type \<Rightarrow> dynpm_header" where
  "registration_header source =
     \<lparr>hdr_source_type = source_code source, hdr_message_type = message_code REGISTER_CONNECTION\<rparr>"

definition registration_msg :: "connect_env \<Rightarrow> dynpm_register_connection_msg" where
  "registration_msg e = \<lparr>rc_pid = ce_pid e, rc_hostname = ce_hostname e\<rparr>"

text \<open>
  \<open>dynpm_connect_to_server\<close>, after the slot is chosen. The three early returns on a failed libevent
  allocation leave the table lock held; the other exits release it.
\<close>

definition connect_slot ::
    "connect_env \<Rightarrow> dynpm_source_type \<Rightarrow> nat \<Rightarrow> client_state \<Rightarrow> (int \<times> int option \<times> client_state) res" where
  "connect_slot e source index s =
     (let c = ce_addr e; out = Some (int index); unlock = (\<lambda>t. t\<lparr>server_connections_mutex := False\<rparr>) in
      rbind (connection_at s c) (\<lambda>x.
      let x1 = x\<lparr>cc_index := int index\<rparr>; x2 = x1\<lparr>cc_evbase := True\<rparr>;
          x3 = x2\<lparr>cc_dns_base := True\<rparr>; x4 = x3\<lparr>cc_buf_ev := True\<rparr> in
      if \<not> ce_evbase e then Inr (-1, out, put_connection s c x1)
      else if \<not> ce_dns_base e then Inr (-1, out, put_connection s c x2)
      else if \<not> ce_buf_ev e then Inr (-1, out, put_connection s c x3)
      else if \<not> ce_thread e then Inr (-1, out, unlock (put_connection s c x4))
      else if \<not> ce_setname e then Inr (-1, out, unlock (put_connection s c x4))
      else if \<not> ce_connected e then Inl Blocked
      else rbind (internal_send_message_to_server (ce_send e) (registration_header source)
                    (M_register (registration_msg e)) c (put_connection s c (x4\<lparr>cc_connected := True\<rparr>))) (\<lambda>(rc, s').
             Inr (if rc \<noteq> 0 then -1 else 0, out, unlock s'))))"

definition dynpm_connect_to_server ::
    "connect_env \<Rightarrow> string \<Rightarrow> string \<Rightarrow> addr \<Rightarrow> dynpm_source_type \<Rightarrow> addr option \<Rightarrow> client_state \<Rightarrow>
     (int \<times> int option \<times> client_state) res" where
  "dynpm_connect_to_server e host port handler source parent s =
     (if \<not> dynpm_client_initialized s then Inr (-1, None, s)
      else rassert (\<not> server_connections_mutex s) Blocked
        (if server_connection_count s > int MAX_SERVER_CONNECTIONS - 1 then Inr (-1, None, s)
         else (let s1 = s\<lparr>server_connections_mutex := True,
                          server_connection_count := server_connection_count s + 1\<rparr>;
                   index = find_null (server_connections s)
               in if index \<ge> length (server_connections s) then
                    Inr (-1, Some (-1), s1\<lparr>server_connections_mutex := False\<rparr>)
                  else connect_slot e source index
                    (put_connection (s1\<lparr>server_connections := (server_connections s)[index := Some (ce_addr e)]\<rparr>)
                       (ce_addr e)
                       (dynpm_init_server_connection\<lparr>cc_host := Some host, cc_port := Some port,
                          cc_parent_connection := parent, cc_handler := Some handler\<rparr>)))))"

section \<open>Disconnecting\<close>

text \<open>
  \<open>dynpm_disconnect_from_server\<close>: a null entry is reported, but the entry is cleared and the count
  lowered in every case. The record itself is freed later, by the connection's thread.
\<close>

definition dynpm_disconnect_from_server :: "int \<Rightarrow> client_state \<Rightarrow> (int \<times> client_state) res" where
  "dynpm_disconnect_from_server index s =
     rassert (\<not> server_connections_mutex s) Blocked
       (rbind (server_entry s index) (\<lambda>entry.
          let rc = (if \<not> dynpm_client_initialized s \<or> entry = None then -1 else 0);
              s' = s\<lparr>server_connections := (server_connections s)[nat index := None],
                     server_connection_count := server_connection_count s - 1\<rparr>
          in rassert (server_connection_count s' \<ge> 0) Assert_Failed (Inr (rc, s'))))"

section \<open>The invariant of the table\<close>

definition connection_count :: "client_state \<Rightarrow> nat" where
  "connection_count s = length (filter (\<lambda>x. x \<noteq> None) (server_connections s))"

definition connection_ok :: "(addr \<rightharpoonup> client_connection) \<Rightarrow> nat \<Rightarrow> addr \<Rightarrow> bool" where
  "connection_ok h i c \<longleftrightarrow>
     (\<exists>x bufs. h c = Some x \<and> cc_index x = int i \<and> message_queue_holds (cc_messages x) bufs)"

definition entries_ok :: "client_state \<Rightarrow> bool" where
  "entries_ok s \<longleftrightarrow>
     (\<forall>i c. i < length (server_connections s) \<longrightarrow> server_connections s ! i = Some c \<longrightarrow>
        connection_ok (client_heap s) i c)"

definition client_inv :: "client_state \<Rightarrow> bool" where
  "client_inv s \<longleftrightarrow>
     dynpm_client_initialized s \<and> length (server_connections s) = MAX_SERVER_CONNECTIONS \<and>
     server_connection_count s = int (connection_count s) \<and> entries_ok s"

section \<open>Free slots\<close>

lemma find_null_le: "find_null xs \<le> length xs"
  by (induction xs rule: find_null.induct) auto

lemma find_null_free: "find_null xs < length xs \<Longrightarrow> xs ! find_null xs = None"
  by (induction xs rule: find_null.induct) auto

lemma find_null_first: "j < find_null xs \<Longrightarrow> xs ! j \<noteq> None"
  by (induction xs arbitrary: j rule: find_null.induct) (auto simp: nth_Cons split: nat.splits)

lemma find_null_full: "find_null xs = length xs \<longleftrightarrow> None \<notin> set xs"
proof (induction xs rule: find_null.induct)
  case (3 x xs)
  then show ?case by auto
qed auto

lemma free_slot_exists:
  assumes "length (filter (\<lambda>x. x \<noteq> None) xs) < length xs"
  shows "find_null xs < length xs"
proof (rule ccontr)
  assume "\<not> find_null xs < length xs"
  then have "None \<notin> set xs" using find_null_le [of xs] find_null_full [of xs] by simp
  then have "filter (\<lambda>x. x \<noteq> None) xs = xs" unfolding filter_id_conv by metis
  with assms show False by simp
qed

lemma count_put:
  "i < length xs \<Longrightarrow> xs ! i = None \<Longrightarrow>
   length (filter (\<lambda>x. x \<noteq> None) (xs[i := Some c])) = Suc (length (filter (\<lambda>x. x \<noteq> None) xs))"
  by (induction xs arbitrary: i) (auto simp: nth_Cons split: nat.splits)

lemma count_clear:
  "i < length xs \<Longrightarrow> xs ! i = Some c \<Longrightarrow>
   Suc (length (filter (\<lambda>x. x \<noteq> None) (xs[i := None]))) = length (filter (\<lambda>x. x \<noteq> None) xs)"
  by (induction xs arbitrary: i) (auto simp: nth_Cons split: nat.splits)

lemma count_clear_None: "i < length xs \<Longrightarrow> xs ! i = None \<Longrightarrow> xs[i := None] = xs"
  by (metis list_update_id)

section \<open>Sending keeps the queues\<close>

lemma serialize_for_server_length: "serialize_for_server e h m = Some (Inr b) \<Longrightarrow> length b = length (se_buffer e)"
  unfolding serialize_for_server_def
  by (auto split: if_splits wire_msg.splits
      dest: rc.ser_length dc.ser_length ct.ser_length ro.ser_length dl.ser_length ar.ser_length length_serialize_rp)

lemma internal_send_message_holds:
  assumes "client_heap s c = Some x" and "\<not> cc_messages_mutex x" and "message_queue_holds (cc_messages x) bufs"
    and "messages_heap (cc_messages x) (se_node e) = None"
    and "serialize_for_server e h m = Some (Inr buf)" and "length (se_buffer e) = DYNPM_MAX_MESSAGE_SIZE"
  shows "\<exists>q. internal_send_message_to_server e h m c s = Inr (0, put_connection s c (x\<lparr>cc_messages := q\<rparr>)) \<and>
             message_queue_holds q (bufs @ [buf])"
proof -
  have len: "length buf = DYNPM_MAX_MESSAGE_SIZE" using assms(5,6) serialize_for_server_length by metis
  with enqueue_send_buffer_holds [OF assms(3,4), of buf] obtain q where
    "dynpm_enqueue_send_buffer buf (Some (se_node e)) (cc_messages x) = Some (Inr (0, q))"
    "message_queue_holds q (bufs @ [buf])" by auto
  with assms show ?thesis by (auto simp: internal_send_message_to_server_def connection_at_def)
qed

lemma internal_send_buffer_holds:
  assumes "client_heap s c = Some x" and "\<not> cc_messages_mutex x" and "message_queue_holds (cc_messages x) bufs"
    and "messages_heap (cc_messages x) node = None" and "length buf = DYNPM_MAX_MESSAGE_SIZE"
  shows "\<exists>q. internal_send_buffer_to_server node buf c s = Inr (0, put_connection s c (x\<lparr>cc_messages := q\<rparr>)) \<and>
             message_queue_holds q (bufs @ [buf])"
proof -
  from enqueue_send_buffer_holds [OF assms(3,4), of buf] assms(5) obtain q where
    "dynpm_enqueue_send_buffer buf (Some node) (cc_messages x) = Some (Inr (0, q))"
    "message_queue_holds q (bufs @ [buf])" by auto
  with assms show ?thesis by (auto simp: internal_send_buffer_to_server_def connection_at_def)
qed

lemma holds_empty_queue: "message_queue_holds empty_queue []"
  by (auto simp: message_queue_holds_def empty_queue_def)

section \<open>The invariant is kept\<close>

lemma client_init_inv: "client_inv (snd (dynpm_client_init client_start))"
  by (simp add: dynpm_client_init_def client_start_def client_inv_def connection_count_def entries_ok_def
      MAX_SERVER_CONNECTIONS_def)

lemma entries_okD:
  "entries_ok s \<Longrightarrow> i < length (server_connections s) \<Longrightarrow> server_connections s ! i = Some c \<Longrightarrow>
   connection_ok (client_heap s) i c"
  by (simp add: entries_ok_def)

lemma connection_ok_upd:
  "connection_ok h i d \<Longrightarrow> (d = c \<Longrightarrow> cc_index y = int i) \<Longrightarrow> message_queue_holds (cc_messages y) bufs \<Longrightarrow>
   connection_ok (h(c \<mapsto> y)) i d"
  by (cases "d = c") (auto simp: connection_ok_def)

lemma entries_ok_put_connection:
  assumes "entries_ok s" and "client_heap s c = Some x" and "cc_index y = cc_index x"
    and "message_queue_holds (cc_messages y) bufs"
  shows "entries_ok (put_connection s c y)"
  unfolding entries_ok_def put_connection_def
proof (simp del: fun_upd_apply, intro allI impI)
  fix i d
  assume "i < length (server_connections s)" and "server_connections s ! i = Some d"
  with assms(1) have ok: "connection_ok (client_heap s) i d" by (rule entries_okD)
  then have "d = c \<Longrightarrow> cc_index y = int i" using assms(2,3) by (auto simp: connection_ok_def)
  with ok assms(4) show "connection_ok ((client_heap s)(c \<mapsto> y)) i d" by (blast intro: connection_ok_upd)
qed

lemma disconnect_inv:
  assumes "client_inv s" and "server_entry s index = Inr (Some c)"
    and "dynpm_disconnect_from_server index s = Inr (rc, s')"
  shows "rc = 0 \<and> client_inv s' \<and> server_entry s' index = Inr None"
proof -
  let ?i = "nat index"
  from assms(2) have i: "0 \<le> index" "?i < length (server_connections s)" "server_connections s ! ?i = Some c"
    by (auto simp: server_entry_def split: if_splits)
  have s': "s' = s\<lparr>server_connections := (server_connections s)[?i := None],
                   server_connection_count := server_connection_count s - 1\<rparr>" "rc = 0"
    using assms by (auto simp: dynpm_disconnect_from_server_def res_simps client_inv_def Let_def)
  have "entries_ok s'"
    using assms(1) i(2) by (auto simp: s' entries_ok_def client_inv_def nth_list_update split: if_splits)
  then show ?thesis using assms(1) i count_clear [OF i(2,3)]
    by (auto simp: s' client_inv_def connection_count_def server_entry_def)
qed

lemma disconnect_ok:
  assumes "client_inv s" and "\<not> server_connections_mutex s" and "server_entry s index = Inr (Some c)"
  shows "dynpm_disconnect_from_server index s =
    Inr (0, s\<lparr>server_connections := (server_connections s)[nat index := None],
              server_connection_count := server_connection_count s - 1\<rparr>)"
proof -
  from assms(3) have i: "nat index < length (server_connections s)" "server_connections s ! nat index = Some c"
    by (auto simp: server_entry_def split: if_splits)
  have "server_connection_count s \<ge> 1" using count_clear [OF i] assms(1) by (simp add: client_inv_def connection_count_def)
  then show ?thesis using assms by (simp add: dynpm_disconnect_from_server_def Let_def client_inv_def)
qed

text \<open>A free slot is filled and counted; the other entries keep their records.\<close>

lemma entries_ok_new:
  assumes "entries_ok s" and "client_heap s a = None" and "i < length (server_connections s)"
    and "cc_index y = int i" and "message_queue_holds (cc_messages y) bufs"
  shows "entries_ok (s\<lparr>server_connections := (server_connections s)[i := Some a],
                       client_heap := (client_heap s)(a \<mapsto> y)\<rparr>)"
  unfolding entries_ok_def
proof (simp del: fun_upd_apply, intro allI impI)
  fix j d
  assume j: "j < length (server_connections s)" and e: "(server_connections s)[i := Some a] ! j = Some d"
  show "connection_ok ((client_heap s)(a \<mapsto> y)) j d"
  proof (cases "j = i")
    case True
    with e assms(3-5) show ?thesis by (auto simp: connection_ok_def)
  next
    case False
    with e j assms(1) have "connection_ok (client_heap s) j d" by (simp add: entries_okD)
    with assms(2) show ?thesis by (auto simp: connection_ok_def)
  qed
qed

text \<open>The state in which the slot has been filled, with the new record \<open>y\<close>.\<close>

definition slot_filled :: "nat \<Rightarrow> addr \<Rightarrow> client_connection \<Rightarrow> client_state \<Rightarrow> client_state" where
  "slot_filled i a y s =
     s\<lparr>server_connection_count := server_connection_count s + 1,
       server_connections := (server_connections s)[i := Some a], client_heap := (client_heap s)(a \<mapsto> y)\<rparr>"

lemma slot_filled_inv:
  assumes "client_inv s" and "client_heap s a = None" and "find_null (server_connections s) < MAX_SERVER_CONNECTIONS"
    and "cc_index y = int (find_null (server_connections s))" and "message_queue_holds (cc_messages y) bufs"
  shows "client_inv (slot_filled (find_null (server_connections s)) a y s)"
proof -
  let ?i = "find_null (server_connections s)"
  from assms have i: "?i < length (server_connections s)" and e: "entries_ok s" by (simp_all add: client_inv_def)
  have "entries_ok (slot_filled ?i a y s)"
    using entries_ok_new [OF e assms(2) i assms(4,5)] by (simp add: slot_filled_def entries_ok_def)
  then show ?thesis using assms(1) count_put [OF i find_null_free [OF i]]
    by (simp add: client_inv_def slot_filled_def connection_count_def)
qed

lemma client_inv_mutex [simp]: "client_inv (s\<lparr>server_connections_mutex := b\<rparr>) = client_inv s"
  by (simp add: client_inv_def connection_count_def entries_ok_def)

lemma connect_free_slot:
  "client_inv s \<Longrightarrow> server_connection_count s \<le> int MAX_SERVER_CONNECTIONS - 1 \<Longrightarrow>
   find_null (server_connections s) < MAX_SERVER_CONNECTIONS"
  using free_slot_exists [of "server_connections s"] by (simp add: client_inv_def connection_count_def)

text \<open>
  The shape of every result of a connection attempt that found the client ready: the state is
  unchanged, or the first free slot holds a new record for the requested host. The path that finds
  no free slot is not among them.
\<close>

definition new_record :: "string \<Rightarrow> string \<Rightarrow> addr \<Rightarrow> addr option \<Rightarrow> nat \<Rightarrow> client_connection" where
  "new_record host port handler parent i =
     dynpm_init_server_connection\<lparr>cc_host := Some host, cc_port := Some port, cc_parent_connection := parent,
       cc_handler := Some handler, cc_index := int i\<rparr>"

lemma put_connection_simps [simp]:
  "server_connections (put_connection s c x) = server_connections s"
  "client_heap (put_connection s c x) = (client_heap s)(c \<mapsto> x)"
  "server_connections_mutex (put_connection s c x) = server_connections_mutex s"
  "server_connection_count (put_connection s c x) = server_connection_count s"
  "dynpm_client_initialized (put_connection s c x) = dynpm_client_initialized s"
  "put_connection (put_connection s c x) c y = put_connection s c y"
  by (simp_all add: put_connection_def)

lemma serialize_registration:
  assumes "word_ok 256 (ce_hostname e)" and "length (se_buffer (ce_send e)) = DYNPM_MAX_MESSAGE_SIZE"
  shows "\<exists>b. serialize_for_server (ce_send e) (registration_header source) (M_register (registration_msg e)) =
               Some (Inr b) \<and>
             length b = DYNPM_MAX_MESSAGE_SIZE \<and> dynpm_deserialize_header hg b = Inr (registration_header source) \<and>
             dynpm_deserialize_register_connection_msg g b = Inr (registration_msg e)"
  using rc.transmit [of "registration_msg e" "se_buffer (ce_send e)" "registration_header source" hg g] assms
  by (simp add: register_connection_ok_def registration_msg_def serialize_for_server_def registration_header_def)

text \<open>A connection attempt that gets past its guards works on this state.\<close>

definition ready_to_connect :: "connect_env \<Rightarrow> client_state \<Rightarrow> bool" where
  "ready_to_connect e s \<longleftrightarrow>
     client_inv s \<and> \<not> server_connections_mutex s \<and>
     server_connection_count s \<le> int MAX_SERVER_CONNECTIONS - 1 \<and> client_heap s (ce_addr e) = None"

lemma connect_to_slot:
  assumes "ready_to_connect e s"
  defines "i \<equiv> find_null (server_connections s)"
  shows "dynpm_connect_to_server e host port handler source parent s =
     connect_slot e source i
       ((slot_filled i (ce_addr e) (new_record host port handler parent i\<lparr>cc_index := 0\<rparr>) s)
          \<lparr>server_connections_mutex := True\<rparr>)"
proof -
  have "i < MAX_SERVER_CONNECTIONS" using assms by (simp add: ready_to_connect_def connect_free_slot)
  moreover have "dynpm_client_initialized s" "length (server_connections s) = MAX_SERVER_CONNECTIONS"
    using assms(1) by (simp_all add: ready_to_connect_def client_inv_def)
  ultimately show ?thesis using assms(1) unfolding i_def [symmetric]
    by (cases s) (simp add: dynpm_connect_to_server_def ready_to_connect_def Let_def i_def slot_filled_def new_record_def
        put_connection_def dynpm_init_server_connection_def)
qed

text \<open>Whatever record ends up in the slot, the table is consistent, with or without the lock.\<close>

lemma slot_state_inv:
  assumes "ready_to_connect e s" and "cc_index y = int (find_null (server_connections s))"
    and "message_queue_holds (cc_messages y) bufs"
  defines "i \<equiv> find_null (server_connections s)"
  shows "client_inv (put_connection ((slot_filled i (ce_addr e) z s)\<lparr>server_connections_mutex := b\<rparr>) (ce_addr e) y)"
proof -
  have "client_inv (slot_filled i (ce_addr e) y s)"
    using assms slot_filled_inv [of s "ce_addr e" y bufs] connect_free_slot [of s] by (simp add: ready_to_connect_def)
  moreover have "put_connection ((slot_filled i (ce_addr e) z s)\<lparr>server_connections_mutex := b\<rparr>) (ce_addr e) y
      = (slot_filled i (ce_addr e) y s)\<lparr>server_connections_mutex := b\<rparr>"
    by (simp add: put_connection_def slot_filled_def)
  ultimately show ?thesis by simp
qed

lemma new_record_simps [simp]:
  "cc_messages (new_record host port handler parent i) = empty_queue"
  "cc_messages_mutex (new_record host port handler parent i) = False"
  "cc_index (new_record host port handler parent i) = int i"
  "cc_host (new_record host port handler parent i) = Some host"
  "cc_port (new_record host port handler parent i) = Some port"
  "cc_parent_connection (new_record host port handler parent i) = parent"
  "cc_handler (new_record host port handler parent i) = Some handler"
  by (simp_all add: new_record_def dynpm_init_server_connection_def)

lemma slot_filled_simps [simp]:
  "server_connections (slot_filled i a y s) = (server_connections s)[i := Some a]"
  "client_heap (slot_filled i a y s) = (client_heap s)(a \<mapsto> y)"
  "server_connections_mutex (slot_filled i a y s) = server_connections_mutex s"
  by (simp_all add: slot_filled_def)

definition open_record :: "string \<Rightarrow> string \<Rightarrow> addr \<Rightarrow> addr option \<Rightarrow> nat \<Rightarrow> client_connection" where
  "open_record host port handler parent i =
     new_record host port handler parent i
       \<lparr>cc_evbase := True, cc_dns_base := True, cc_buf_ev := True, cc_connected := True\<rparr>"

lemma connect_success:
  assumes "ready_to_connect e s" and "word_ok 256 (ce_hostname e)"
    and "length (se_buffer (ce_send e)) = DYNPM_MAX_MESSAGE_SIZE"
    and "ce_evbase e" "ce_dns_base e" "ce_buf_ev e" "ce_thread e" "ce_setname e" "ce_connected e"
  defines "i \<equiv> find_null (server_connections s)"
  shows "\<exists>q b. dynpm_connect_to_server e host port handler source parent s =
      Inr (0, Some (int i), slot_filled i (ce_addr e) (open_record host port handler parent i\<lparr>cc_messages := q\<rparr>) s) \<and>
      message_queue_holds q [b] \<and> length b = DYNPM_MAX_MESSAGE_SIZE \<and>
      dynpm_deserialize_header hg b = Inr (registration_header source) \<and>
      dynpm_deserialize_register_connection_msg g b = Inr (registration_msg e)"
proof -
  let ?y = "open_record host port handler parent i"
  let ?s = "put_connection ((slot_filled i (ce_addr e) (new_record host port handler parent i\<lparr>cc_index := 0\<rparr>) s)
     \<lparr>server_connections_mutex := True\<rparr>) (ce_addr e) ?y"
  from serialize_registration [OF assms(2,3), where source = source and hg = hg and g = g] obtain b where
    b: "serialize_for_server (ce_send e) (registration_header source) (M_register (registration_msg e)) = Some (Inr b)"
    "dynpm_deserialize_header hg b = Inr (registration_header source)"
    "dynpm_deserialize_register_connection_msg g b = Inr (registration_msg e)" by blast
  have h: "client_heap ?s (ce_addr e) = Some ?y" by simp
  have m: "message_queue_holds (cc_messages ?y) []" "\<not> cc_messages_mutex ?y"
    by (simp_all add: holds_empty_queue open_record_def)
  have n: "messages_heap (cc_messages ?y) (se_node (ce_send e)) = None"
    by (simp add: open_record_def empty_queue_def)
  obtain q where q: "internal_send_message_to_server (ce_send e) (registration_header source)
      (M_register (registration_msg e)) (ce_addr e) ?s =
      Inr (0, put_connection ?s (ce_addr e) (?y\<lparr>cc_messages := q\<rparr>))" "message_queue_holds q [b]"
    using internal_send_message_holds [OF h m(2,1) n b(1) assms(3)] by auto
  have "dynpm_connect_to_server e host port handler source parent s =
      Inr (0, Some (int i), (put_connection ?s (ce_addr e) (?y\<lparr>cc_messages := q\<rparr>))\<lparr>server_connections_mutex := False\<rparr>)"
    using assms(1) assms(4-9) q(1) unfolding i_def [symmetric] connect_to_slot [OF assms(1), folded i_def]
    by (simp add: connect_slot_def connection_at_def Let_def open_record_def new_record_def)
  moreover have "(put_connection ?s (ce_addr e) (?y\<lparr>cc_messages := q\<rparr>))\<lparr>server_connections_mutex := False\<rparr>
      = slot_filled i (ce_addr e) (?y\<lparr>cc_messages := q\<rparr>) s"
    using assms(1) by (simp add: put_connection_def slot_filled_def ready_to_connect_def)
  ultimately show ?thesis using q(2) b(2,3) serialize_for_server_length [OF b(1)] assms(3) by auto
qed

section \<open>What a send does to the table\<close>

text \<open>\<open>queued s i bufs\<close>: entry \<open>i\<close> is a connection whose queue holds \<open>bufs\<close> and is not locked.\<close>

definition queued :: "client_state \<Rightarrow> int \<Rightarrow> buffer list \<Rightarrow> bool" where
  "queued s i bufs \<longleftrightarrow>
     (\<exists>c x. server_entry s i = Inr (Some c) \<and> client_heap s c = Some x \<and> \<not> cc_messages_mutex x \<and>
            message_queue_holds (cc_messages x) bufs)"

text \<open>An address that the queue of no connection uses.\<close>

definition node_fresh :: "client_state \<Rightarrow> addr \<Rightarrow> bool" where
  "node_fresh s a \<longleftrightarrow> (\<forall>c x. client_heap s c = Some x \<longrightarrow> messages_heap (cc_messages x) a = None)"

lemma enqueue_other_nodes:
  assumes "dynpm_enqueue_send_buffer buf (Some a) q = Some (Inr (r, q'))" and "b \<noteq> a" and "messages_heap q b = None"
  shows "messages_heap q' b = None"
  using assms by (auto simp: dynpm_enqueue_send_buffer_def Let_def split: if_splits option.splits sum.splits)

lemma server_entry_put [simp]: "server_entry (put_connection s c x) i = server_entry s i"
  by (simp add: server_entry_def)

lemma client_inv_put_connection:
  assumes "client_inv s" and "client_heap s c = Some x" and "cc_index y = cc_index x"
    and "message_queue_holds (cc_messages y) bufs"
  shows "client_inv (put_connection s c y)"
  using assms entries_ok_put_connection [OF _ assms(2-4)] by (simp add: client_inv_def connection_count_def)

text \<open>Two entries never share a record, because the record knows its index.\<close>

lemma entries_distinct:
  assumes "client_inv s" and "server_entry s i = Inr (Some c)" and "server_entry s j = Inr (Some c)"
  shows "i = j"
proof -
  have "\<exists>x. client_heap s c = Some x \<and> cc_index x = k" if "server_entry s k = Inr (Some c)" for k
  proof -
    have "0 \<le> k" "connection_ok (client_heap s) (nat k) c"
      using that assms(1) by (auto simp: server_entry_def client_inv_def entries_okD split: if_splits)
    then show ?thesis by (auto simp: connection_ok_def)
  qed
  from this [OF assms(2)] this [OF assms(3)] show ?thesis by auto
qed

lemma send_buffer_queued:
  assumes inv: "client_inv s" and lock: "\<not> server_connections_mutex s" and q: "queued s i bufs"
    and a: "node_fresh s a" and len: "length buf = DYNPM_MAX_MESSAGE_SIZE"
  shows "\<exists>s'. dynpm_send_buffer_to_server a buf i s = Inr (0, s') \<and> client_inv s' \<and>
              \<not> server_connections_mutex s' \<and>
              (\<forall>j bs. queued s j bs \<longrightarrow> queued s' j (if j = i then bs @ [buf] else bs)) \<and>
              (\<forall>b. b \<noteq> a \<longrightarrow> node_fresh s b \<longrightarrow> node_fresh s' b)"
proof -
  from q obtain c x where e: "server_entry s i = Inr (Some c)" and x: "client_heap s c = Some x"
    and m: "\<not> cc_messages_mutex x" and h: "message_queue_holds (cc_messages x) bufs" by (auto simp: queued_def)
  have f: "messages_heap (cc_messages x) a = None" using a x by (simp add: node_fresh_def)
  obtain q' where q': "dynpm_enqueue_send_buffer buf (Some a) (cc_messages x) = Some (Inr (0, q'))"
    and h': "message_queue_holds q' (bufs @ [buf])"
    using enqueue_send_buffer_holds [OF h f, of buf] len by auto
  let ?s = "put_connection s c (x\<lparr>cc_messages := q'\<rparr>)"
  have send: "dynpm_send_buffer_to_server a buf i s = Inr (0, ?s)"
    using inv lock e x m q'
    by (simp add: dynpm_send_buffer_to_server_def client_inv_def internal_send_buffer_to_server_def connection_at_def)
  have inv': "client_inv ?s" using client_inv_put_connection [OF inv x] h' by simp
  have own: "queued ?s i (bs @ [buf])" if "queued s i bs" for bs
    using that e x m h' message_queue_holds_unique [OF h, of bs] by (auto simp: queued_def)
  have other: "queued ?s j bs" if j: "j \<noteq> i" and qj: "queued s j bs" for j bs
  proof -
    from qj obtain d y where d: "server_entry s j = Inr (Some d)" "client_heap s d = Some y" "\<not> cc_messages_mutex y"
      "message_queue_holds (cc_messages y) bs" by (auto simp: queued_def)
    then have "d \<noteq> c" using entries_distinct [OF inv, of i c j] e j by auto
    with d show ?thesis by (auto simp: queued_def)
  qed
  have fr: "node_fresh ?s b" if "b \<noteq> a" "node_fresh s b" for b
    using that x enqueue_other_nodes [OF q' that(1)] by (auto simp: node_fresh_def)
  show ?thesis using send inv' own other fr lock by auto
qed

end
