(* ===== verification/Client_Events.thy ===== *)
theory Client_Events
  imports Client
begin

text \<open>
  The libevent callbacks of \<open>src/network/client.c\<close>: reading a message, writing the next queued message
  when the output buffer is drained or the progress timer fires, and the end or the start of a
  connection. What libevent contributes is an argument: the bytes waiting in the input buffer, the
  pieces successive calls of \<open>bufferevent_read\<close> return, and the event flags. The connection's own
  \<open>mutex\<close>, which every callback takes and gives back, is not part of the state.
\<close>

section \<open>Reading\<close>

text \<open>
  The loop around \<open>bufferevent_read\<close>: \<open>chunks\<close> are the pieces the calls return, an empty piece or the
  end of the list is a return value that ends the loop. Each piece lands behind the bytes read so far.
\<close>

fun client_read_loop :: "char list list \<Rightarrow> nat \<Rightarrow> buffer \<Rightarrow> buffer res" where
  "client_read_loop [] message_bytes_read buf = Inr buf"
| "client_read_loop (c # cs) message_bytes_read buf =
     (if c = [] then Inr buf
      else rbind (memcpy_to buf message_bytes_read c (length c)) (\<lambda>buf'.
        if message_bytes_read + length c = DYNPM_MAX_MESSAGE_SIZE then Inr buf'
        else client_read_loop cs (message_bytes_read + length c) buf'))"

text \<open>\<open>_client_on_read\<close>: the result is the buffer the connection's handler is called with.\<close>

definition client_on_read :: "buffer \<Rightarrow> nat \<Rightarrow> char list list \<Rightarrow> buffer res" where
  "client_on_read read_buffer total_bytes chunks =
     (if total_bytes \<noteq> DYNPM_MAX_MESSAGE_SIZE then Inl Exited else client_read_loop chunks 0 read_buffer)"

section \<open>Writing\<close>

text \<open>The block the write callbacks share: the head message goes to \<open>bufferevent_write\<close>, which copies
  it, and the head moves on.\<close>

definition write_head :: "message_queue \<Rightarrow> (buffer option \<times> message_queue) res" where
  "write_head q =
     (case messages_head q of None \<Rightarrow> Inr (None, q)
      | Some p \<Rightarrow>
          (case messages_heap q p of None \<Rightarrow> Inl Wild_Pointer
           | Some n \<Rightarrow> Inr (Some (mq_buffer n), q\<lparr>messages_head := mq_next n\<rparr>)))"

definition client_on_write :: "addr \<Rightarrow> client_state \<Rightarrow> (buffer option \<times> client_state) res" where
  "client_on_write c s =
     rbind (connection_at s c) (\<lambda>x.
     rbind (write_head (cc_messages x)) (\<lambda>(out, q). Inr (out, put_connection s c (x\<lparr>cc_messages := q\<rparr>))))"

text \<open>\<open>_client_to_server_send_progress\<close> takes the lock of the table first; it then arms its timer again.\<close>

definition client_to_server_send_progress :: "addr option \<Rightarrow> client_state \<Rightarrow> (buffer option \<times> client_state) res" where
  "client_to_server_send_progress connection s =
     rassert (\<not> server_connections_mutex s) Blocked
       (case connection of None \<Rightarrow> Inr (None, s) | Some c \<Rightarrow> client_on_write c s)"

section \<open>Connection events\<close>

text \<open>\<open>_client_on_error\<close>, with the two flags it acts on.\<close>

definition client_on_error :: "bool \<Rightarrow> bool \<Rightarrow> addr \<Rightarrow> client_state \<Rightarrow> client_state res" where
  "client_on_error eof connected c s =
     rbind (connection_at s c) (\<lambda>x.
       if eof then rbind (dynpm_disconnect_from_server (cc_index x) s) (\<lambda>(_, s'). Inr s')
       else if connected then Inr (put_connection s c (x\<lparr>cc_connected := True\<rparr>))
       else Inr s)"

text \<open>The end of \<open>_server_event_connection_thread\<close>, when the event loop of its connection has ended: the
  strings, the libevent objects and the record are freed.\<close>

definition server_event_connection_thread_end :: "addr option \<Rightarrow> client_state \<Rightarrow> client_state res" where
  "server_event_connection_thread_end connection s =
     (case connection of None \<Rightarrow> Inr s
      | Some c \<Rightarrow> rbind (connection_at s c) (\<lambda>x. Inr (s\<lparr>client_heap := (client_heap s)(c := None)\<rparr>)))"

section \<open>Lemmas\<close>

lemma client_read_loop_pieces:
  "\<forall>c \<in> set chunks. c \<noteq> [] \<Longrightarrow> length buf = DYNPM_MAX_MESSAGE_SIZE \<Longrightarrow>
   n + length (concat chunks) = DYNPM_MAX_MESSAGE_SIZE \<Longrightarrow> chunks \<noteq> [] \<Longrightarrow>
   client_read_loop chunks n buf = Inr (take n buf @ concat chunks)"
proof (induction chunks arbitrary: n buf)
  case Nil
  then show ?case by simp
next
  case (Cons c cs)
  let ?buf = "take n buf @ c @ drop (n + length c) buf"
  from Cons.prems have m: "memcpy_to buf n c (length c) = Inr ?buf" by (simp add: memcpy_to_def)
  show ?case
  proof (cases "cs = []")
    case True
    with m Cons.prems show ?thesis by simp
  next
    case False
    then have "0 < length (concat cs)" using Cons.prems(1) by (cases cs) auto
    then have "n + length c \<noteq> DYNPM_MAX_MESSAGE_SIZE"
      using Cons.prems(3) unfolding concat.simps length_append by linarith
    moreover have "client_read_loop cs (n + length c) ?buf = Inr (take (n + length c) ?buf @ concat cs)"
      using Cons.prems False by (intro Cons.IH) auto
    ultimately show ?thesis using m Cons.prems by simp
  qed
qed

lemma write_head_cons:
  assumes "message_queue_holds q (b # bufs)"
  shows "\<exists>q'. write_head q = Inr (Some b, q') \<and> message_queue_holds q' bufs \<and> messages_heap q' = messages_heap q"
proof -
  from mq.deq_head [OF assms] obtain q' where "message_pop q = Some (b, q')" "message_queue_holds q' bufs" by blast
  then show ?thesis by (auto simp: message_pop_def write_head_def split: option.splits)
qed

lemma write_head_nil: "message_queue_holds q [] \<Longrightarrow> write_head q = Inr (None, q)"
  by (auto simp: message_queue_holds_def write_head_def)

lemma client_on_write_queued:
  assumes "client_inv s" and "queued s i (b # bufs)" and "server_entry s i = Inr (Some c)"
  shows "\<exists>s'. client_on_write c s = Inr (Some b, s') \<and> client_inv s' \<and> queued s' i bufs \<and> server_entry s' i = Inr (Some c)"
proof -
  from assms(2,3) obtain x where x: "client_heap s c = Some x" "\<not> cc_messages_mutex x"
    "message_queue_holds (cc_messages x) (b # bufs)" by (auto simp: queued_def)
  from write_head_cons [OF x(3)] obtain q' where q': "write_head (cc_messages x) = Inr (Some b, q')"
    "message_queue_holds q' bufs" by blast
  let ?s = "put_connection s c (x\<lparr>cc_messages := q'\<rparr>)"
  have "client_inv ?s" using client_inv_put_connection [OF assms(1) x(1)] q'(2) by simp
  moreover have "queued ?s i bufs" using assms(3) x(2) q'(2) by (auto simp: queued_def)
  ultimately show ?thesis using x(1) q'(1) assms(3) by (simp add: client_on_write_def connection_at_def)
qed

text \<open>The callback run once per element of a list of events; what it writes is collected.\<close>

fun client_writes :: "addr \<Rightarrow> nat \<Rightarrow> client_state \<Rightarrow> (buffer list \<times> client_state) res" where
  "client_writes c 0 s = Inr ([], s)"
| "client_writes c (Suc n) s =
     rbind (client_on_write c s) (\<lambda>(out, s').
     rbind (client_writes c n s') (\<lambda>(outs, s''). Inr ((case out of None \<Rightarrow> outs | Some b \<Rightarrow> b # outs), s'')))"

lemma client_writes_queued:
  "client_inv s \<Longrightarrow> queued s i bufs \<Longrightarrow> server_entry s i = Inr (Some c) \<Longrightarrow>
   \<exists>s'. client_writes c (length bufs) s = Inr (bufs, s') \<and> client_inv s' \<and> queued s' i []"
proof (induction bufs arbitrary: s)
  case Nil
  then show ?case by simp
next
  case (Cons b bufs)
  from client_on_write_queued [OF Cons.prems] obtain s1 where s1: "client_on_write c s = Inr (Some b, s1)"
    "client_inv s1" "queued s1 i bufs" "server_entry s1 i = Inr (Some c)" by blast
  with Cons.IH [of s1] show ?case by auto
qed

end
