(* ===== verification/Client_Properties.thy ===== *)
theory Client_Properties
  imports Client_Events
begin

text \<open>
  What the client side guarantees: the table of connections stays consistent under every path of
  connecting, a connection starts with a registration the server can decode, sends reach exactly the
  queue they name and leave it in order, and messages are reassembled from any pieces. Four results
  describe paths that leave the client unusable or its counter wrong.
\<close>

section \<open>Every path of a connection attempt\<close>

lemma connect_slot_failure:
  assumes "ready_to_connect e s" and "\<not> (ce_evbase e \<and> ce_dns_base e \<and> ce_buf_ev e)"
  defines "i \<equiv> find_null (server_connections s)"
  shows "\<exists>y. dynpm_connect_to_server e host port handler source parent s =
       Inr (-1, Some (int i), (slot_filled i (ce_addr e) y s)\<lparr>server_connections_mutex := True\<rparr>) \<and>
     cc_index y = int i \<and> cc_messages y = empty_queue"
proof -
  let ?z = "new_record host port handler parent i\<lparr>cc_index := 0\<rparr>" and ?n = "new_record host port handler parent i"
  let ?s = "(slot_filled i (ce_addr e) ?z s)\<lparr>server_connections_mutex := True\<rparr>"
  have put: "put_connection ?s (ce_addr e) y = (slot_filled i (ce_addr e) y s)\<lparr>server_connections_mutex := True\<rparr>" for y
    by (simp add: put_connection_def slot_filled_def)
  have x: "connection_at ?s (ce_addr e) = Inr ?z" by (simp add: connection_at_def)
  note eq = connect_to_slot [OF assms(1), of host port handler source parent, folded i_def]
  consider "\<not> ce_evbase e" | "ce_evbase e" "\<not> ce_dns_base e" | "ce_evbase e" "ce_dns_base e" "\<not> ce_buf_ev e"
    using assms(2) by blast
  then show ?thesis
    unfolding eq connect_slot_def Let_def x rbind_simps put
    by cases (simp_all, (intro exI conjI, rule refl, simp_all)+)
qed

lemma connect_slot_inv:
  assumes "ready_to_connect e s" and "length (se_buffer (ce_send e)) = DYNPM_MAX_MESSAGE_SIZE"
    and "word_ok 256 (ce_hostname e)"
    and r: "dynpm_connect_to_server e host port handler source parent s = Inr (rc, out, s')"
  shows "client_inv s'"
proof -
  define i where "i = find_null (server_connections s)"
  have filled: "client_inv (slot_filled i (ce_addr e) y s)" if "cc_index y = int i" "message_queue_holds (cc_messages y) bufs"
    for y bufs
    using slot_filled_inv [of s "ce_addr e" y bufs] that assms(1) connect_free_slot [of s]
    by (simp add: ready_to_connect_def i_def)
  let ?z = "new_record host port handler parent i\<lparr>cc_index := 0\<rparr>"
  let ?s = "(slot_filled i (ce_addr e) ?z s)\<lparr>server_connections_mutex := True\<rparr>"
  have put: "put_connection ?s (ce_addr e) y = (slot_filled i (ce_addr e) y s)\<lparr>server_connections_mutex := True\<rparr>" for y
    by (simp add: put_connection_def slot_filled_def)
  have x: "connection_at ?s (ce_addr e) = Inr ?z" by (simp add: connection_at_def)
  note eq = connect_to_slot [OF assms(1), of host port handler source parent, folded i_def]
  show ?thesis
  proof (cases "ce_evbase e \<and> ce_dns_base e \<and> ce_buf_ev e")
    case False
    with connect_slot_failure [OF assms(1) False, of host port handler source parent, folded i_def] r obtain y where
      "s' = (slot_filled i (ce_addr e) y s)\<lparr>server_connections_mutex := True\<rparr>" "cc_index y = int i"
      "cc_messages y = empty_queue" by auto
    then show ?thesis using filled [of y "[]"] holds_empty_queue by simp
  next
    case ev: True
    show ?thesis
    proof (cases "ce_thread e \<and> ce_setname e")
      case False
      with ev r have "s' = (slot_filled i (ce_addr e) (?z\<lparr>cc_index := int i, cc_evbase := True, cc_dns_base := True,
          cc_buf_ev := True\<rparr>) s)\<lparr>server_connections_mutex := False\<rparr>"
        unfolding eq connect_slot_def Let_def x rbind_simps put by (auto split: if_splits)
      then show ?thesis using filled [of "?z\<lparr>cc_index := int i, cc_evbase := True, cc_dns_base := True,
          cc_buf_ev := True\<rparr>" "[]"] holds_empty_queue by simp
    next
      case th: True
      have "ce_connected e"
        using ev th r unfolding eq connect_slot_def Let_def x rbind_simps put by (auto split: if_splits)
      with connect_success [OF assms(1,3,2), of host port handler source parent "registration_header source"
          "registration_msg e", folded i_def] ev th r obtain q b where
        "s' = slot_filled i (ce_addr e) (open_record host port handler parent i\<lparr>cc_messages := q\<rparr>) s"
        "message_queue_holds q [b]" by auto
      then show ?thesis using filled [of "open_record host port handler parent i\<lparr>cc_messages := q\<rparr>" "[b]"]
        by (simp add: open_record_def)
    qed
  qed
qed

section \<open>Examples\<close>

definition example_env :: connect_env where
  "example_env =
     \<lparr>ce_addr = 7, ce_evbase = True, ce_dns_base = True, ce_buf_ev = True, ce_thread = True, ce_setname = True,
      ce_connected = True, ce_pid = 42, ce_hostname = ''n01'',
      ce_send = \<lparr>se_buffer = replicate DYNPM_MAX_MESSAGE_SIZE (CHR ''x''), se_node = 9, se_app = 0, se_temp = []\<rparr>\<rparr>"

definition example_client :: client_state where
  "example_client = snd (dynpm_client_init client_start)"

lemma example_client_ready: "ce_addr e = 7 \<Longrightarrow> ready_to_connect e example_client"
  using client_init_inv
  by (simp add: ready_to_connect_def example_client_def dynpm_client_init_def client_start_def MAX_SERVER_CONNECTIONS_def)

lemma example_env_simps [simp]:
  "word_ok 256 (ce_hostname example_env)" "length (se_buffer (ce_send example_env)) = DYNPM_MAX_MESSAGE_SIZE"
  "ce_addr example_env = 7" "ce_evbase example_env" "ce_dns_base example_env" "ce_buf_ev example_env"
  "ce_thread example_env" "ce_setname example_env" "ce_connected example_env"
  by (simp_all add: example_env_def word_ok_def isspace_def NUL_def)

text \<open>A client with one open connection, in slot 0, whose queue holds one message.\<close>

definition example_message :: buffer where
  "example_message = replicate DYNPM_MAX_MESSAGE_SIZE (CHR ''x'')"

definition example_queue :: message_queue where
  "example_queue = \<lparr>messages_heap = [9 \<mapsto> \<lparr>mq_buffer = example_message, mq_next = None\<rparr>], messages_head = Some 9\<rparr>"

definition example_open :: client_state where
  "example_open = slot_filled 0 7 (open_record ''host'' ''8000'' 3 None 0\<lparr>cc_messages := example_queue\<rparr>) example_client"

lemma example_queue_holds: "message_queue_holds example_queue [example_message]"
  unfolding message_queue_holds_def example_queue_def by (rule exI [of _ "[9]"]) simp

lemma find_null_replicate [simp]: "find_null (replicate n None) = 0"
  by (cases n) simp_all

lemma example_open_simps [simp]:
  "client_inv example_open" "\<not> server_connections_mutex example_open" "queued example_open 0 [example_message]"
  "server_entry example_open 0 = Inr (Some 7)" "node_fresh example_open 8"
proof -
  have e: "find_null (server_connections example_client) = 0" "client_heap example_client = Map.empty"
    "length (server_connections example_client) = MAX_SERVER_CONNECTIONS"
    by (simp_all add: example_client_def dynpm_client_init_def client_start_def MAX_SERVER_CONNECTIONS_def)
  show "client_inv example_open"
    using slot_filled_inv [of example_client 7 "open_record ''host'' ''8000'' 3 None 0\<lparr>cc_messages := example_queue\<rparr>"
        "[example_message]"] example_client_ready [of example_env] example_queue_holds
    by (simp add: example_open_def e ready_to_connect_def MAX_SERVER_CONNECTIONS_def open_record_def)
  show "\<not> server_connections_mutex example_open"
    using example_client_ready [of example_env] by (simp add: example_open_def ready_to_connect_def)
  show s: "server_entry example_open 0 = Inr (Some 7)"
    using e by (simp add: example_open_def server_entry_def MAX_SERVER_CONNECTIONS_def)
  show "queued example_open 0 [example_message]"
    using s example_queue_holds by (simp add: queued_def) (simp add: example_open_def open_record_def)
  show "node_fresh example_open 8"
    using e by (auto simp: node_fresh_def example_open_def open_record_def example_queue_def split: if_splits)
qed


section \<open>Properties\<close>



text \<open>C27: Whatever the outside calls answer, a connection attempt that returns leaves the table consistent: the
  counter equals the number of used slots, and every used slot points to a live record that knows its
  index.\<close>

theorem connect_to_server_invariant:
  assumes "ready_to_connect e s" and "length (se_buffer (ce_send e)) = DYNPM_MAX_MESSAGE_SIZE"
    and "word_ok 256 (ce_hostname e)"
    and "dynpm_connect_to_server e host port handler source parent s = Inr (rc, out, s')"
  shows "client_inv s'"
  using assms by (rule connect_slot_inv)

theorem connect_to_server_invariant_witness:
  "\<exists>rc out s'. dynpm_connect_to_server (example_env\<lparr>ce_thread := False\<rparr>) ''host'' ''8000'' 3 SCHEDULER None example_client =
      Inr (rc, out, s') \<and> client_inv s'"
proof -
  let ?e = "example_env\<lparr>ce_thread := False\<rparr>"
  have r: "ready_to_connect ?e example_client" by (rule example_client_ready) simp
  obtain rc out s' where c: "dynpm_connect_to_server ?e ''host'' ''8000'' 3 SCHEDULER None example_client = Inr (rc, out, s')"
    unfolding connect_to_slot [OF r] by (simp add: connect_slot_def connection_at_def Let_def)
  have "length (se_buffer (ce_send ?e)) = DYNPM_MAX_MESSAGE_SIZE" "word_ok 256 (ce_hostname ?e)"
    using example_env_simps(1,2) by simp_all
  from connect_to_server_invariant [OF r this c] c show ?thesis by blast
qed

text \<open>When one of the three libevent allocations fails, the attempt returns an error with the table lock still
  held: every later connection, send or disconnection blocks.\<close>

theorem connect_failure_locks_table:
  assumes "ready_to_connect e s" and "\<not> (ce_evbase e \<and> ce_dns_base e \<and> ce_buf_ev e)"
  shows "\<exists>i s'. dynpm_connect_to_server e host port handler source parent s = Inr (-1, Some i, s') \<and>
      dynpm_connect_to_server e' host' port' handler' source' parent' s' = Inl Blocked \<and>
      dynpm_send_buffer_to_server node buf index s' = Inl Blocked \<and>
      dynpm_disconnect_from_server index s' = Inl Blocked"
proof -
  obtain y where y: "dynpm_connect_to_server e host port handler source parent s =
      Inr (-1, Some (int (find_null (server_connections s))),
        (slot_filled (find_null (server_connections s)) (ce_addr e) y s)\<lparr>server_connections_mutex := True\<rparr>)"
    using connect_slot_failure [OF assms] by blast
  have "dynpm_client_initialized s" using assms(1) by (simp add: ready_to_connect_def client_inv_def)
  with y show ?thesis
    by (simp add: dynpm_connect_to_server_def [of e'] dynpm_send_buffer_to_server_def dynpm_disconnect_from_server_def
        slot_filled_def)
qed

theorem connect_failure_locks_table_witness:
  "\<exists>i s'. dynpm_connect_to_server (example_env\<lparr>ce_dns_base := False\<rparr>) ''host'' ''8000'' 3 SCHEDULER None example_client =
        Inr (-1, Some i, s') \<and>
      dynpm_connect_to_server example_env ''host'' ''8001'' 3 SCHEDULER None s' = Inl Blocked \<and>
      dynpm_send_buffer_to_server 9 [] 0 s' = Inl Blocked \<and> dynpm_disconnect_from_server 0 s' = Inl Blocked"
  by (rule connect_failure_locks_table) (simp_all add: example_client_ready)

text \<open>Disconnecting an index that is not connected reports an error, but still lowers the counter: the table
  is no longer consistent, and with no connection open the process aborts.\<close>

theorem disconnect_unused_slot:
  assumes "client_inv s" and "\<not> server_connections_mutex s" and "server_entry s index = Inr None"
  shows "(connection_count s = 0 \<longrightarrow> dynpm_disconnect_from_server index s = Inl Assert_Failed) \<and>
         (connection_count s > 0 \<longrightarrow>
           (\<exists>s'. dynpm_disconnect_from_server index s = Inr (-1, s') \<and>
                 server_connections s' = server_connections s \<and> \<not> client_inv s'))"
proof -
  from assms(3) have i: "nat index < length (server_connections s)" "server_connections s ! nat index = None"
    by (auto simp: server_entry_def split: if_splits)
  let ?s = "s\<lparr>server_connections := (server_connections s)[nat index := None],
              server_connection_count := server_connection_count s - 1\<rparr>"
  have d: "dynpm_disconnect_from_server index s =
      rassert (server_connection_count s - 1 \<ge> 0) Assert_Failed (Inr (-1, ?s))"
    using assms by (simp add: dynpm_disconnect_from_server_def Let_def)
  have n: "server_connection_count s = int (connection_count s)" using assms(1) by (simp add: client_inv_def)
  show ?thesis
    using d n count_clear_None [OF i] by (auto simp: client_inv_def connection_count_def)
qed

theorem disconnect_unused_slot_witness:
  "dynpm_disconnect_from_server 3 example_client = Inl Assert_Failed"
proof -
  have "client_inv example_client" "\<not> server_connections_mutex example_client"
    using example_client_ready [of example_env] by (simp_all add: ready_to_connect_def)
  moreover have "server_entry example_client 3 = Inr None" "connection_count example_client = 0"
    by (simp_all add: example_client_def dynpm_client_init_def client_start_def server_entry_def connection_count_def
        MAX_SERVER_CONNECTIONS_def)
  ultimately show ?thesis using disconnect_unused_slot [of example_client 3] by blast
qed

text \<open>Disconnecting an open connection frees its slot and keeps the table consistent.\<close>

theorem disconnect_open_slot:
  assumes "client_inv s" and "\<not> server_connections_mutex s" and "server_entry s index = Inr (Some c)"
  shows "\<exists>s'. dynpm_disconnect_from_server index s = Inr (0, s') \<and> client_inv s' \<and> server_entry s' index = Inr None \<and>
              (\<forall>j. j \<noteq> index \<longrightarrow> server_entry s' j = server_entry s j)"
proof -
  note d = disconnect_ok [OF assms]
  have "0 \<le> index" using assms(3) by (auto simp: server_entry_def split: if_splits)
  then show ?thesis using d disconnect_inv [OF assms(1,3) d]
    by (auto simp: server_entry_def nth_list_update nat_eq_iff2)
qed

theorem disconnect_open_slot_witness:
  "\<exists>s'. dynpm_disconnect_from_server 0 example_open = Inr (0, s') \<and> client_inv s' \<and> server_entry s' 0 = Inr None \<and>
        server_entry s' 1 = server_entry example_open 1"
  using disconnect_open_slot [OF example_open_simps(1,2,4)] by (metis zero_neq_one)

text \<open>Sending a buffer to an open connection puts it behind the messages already queued there and leaves the
  queues of all other connections as they were.\<close>

theorem send_buffer_to_server_appends:
  assumes "client_inv s" and "\<not> server_connections_mutex s" and "queued s i bufs" and "node_fresh s a"
    and "length buf = DYNPM_MAX_MESSAGE_SIZE"
  shows "\<exists>s'. dynpm_send_buffer_to_server a buf i s = Inr (0, s') \<and> client_inv s' \<and> queued s' i (bufs @ [buf]) \<and>
              (\<forall>j bs. j \<noteq> i \<longrightarrow> queued s j bs \<longrightarrow> queued s' j bs)"
  using send_buffer_queued [OF assms] assms(3) by (metis (full_types))

theorem send_buffer_to_server_appends_witness:
  "\<exists>s'. dynpm_send_buffer_to_server 8 (replicate DYNPM_MAX_MESSAGE_SIZE (CHR ''y'')) 0 example_open = Inr (0, s') \<and>
        client_inv s' \<and> queued s' 0 ([example_message] @ [replicate DYNPM_MAX_MESSAGE_SIZE (CHR ''y'')])"
  using send_buffer_to_server_appends [OF example_open_simps(1,2,3,5), of "replicate DYNPM_MAX_MESSAGE_SIZE (CHR ''y'')"]
  by (metis length_replicate)

text \<open>C28: The write callbacks of a connection send its queued messages one by one, oldest first, and then find the
  queue empty.\<close>

theorem client_writes_in_order:
  assumes "client_inv s" and "queued s i bufs" and "server_entry s i = Inr (Some c)"
  shows "\<exists>s'. client_writes c (length bufs) s = Inr (bufs, s') \<and> client_inv s' \<and> queued s' i []"
  using assms by (rule client_writes_queued)

theorem client_writes_in_order_witness:
  "\<exists>s'. client_writes 7 (length [example_message]) example_open = Inr ([example_message], s') \<and> client_inv s' \<and>
        queued s' 0 []"
  by (rule client_writes_in_order) simp_all

text \<open>C29: A message that waits completely in the input buffer reaches the handler byte for byte, into however many
  pieces the reads cut it.\<close>

theorem client_on_read_reassembles:
  assumes "\<forall>c \<in> set chunks. c \<noteq> []" and "concat chunks = msg" and "length msg = DYNPM_MAX_MESSAGE_SIZE"
    and "length buf = DYNPM_MAX_MESSAGE_SIZE"
  shows "client_on_read buf DYNPM_MAX_MESSAGE_SIZE chunks = Inr msg"
proof -
  have "chunks \<noteq> []" using assms(2,3) by (auto simp: DYNPM_MAX_MESSAGE_SIZE_def)
  then show ?thesis using client_read_loop_pieces [OF assms(1,4), of 0] assms(2,3) by (simp add: client_on_read_def)
qed

theorem client_on_read_reassembles_witness:
  "client_on_read (replicate DYNPM_MAX_MESSAGE_SIZE (CHR ''x'')) DYNPM_MAX_MESSAGE_SIZE
     [replicate 96 (CHR ''a''), replicate 4000 (CHR ''b'')] =
   Inr (replicate 96 (CHR ''a'') @ replicate 4000 (CHR ''b''))"
  by (rule client_on_read_reassembles) (simp_all add: DYNPM_MAX_MESSAGE_SIZE_def)

text \<open>A client ends its process as soon as the bytes waiting are not exactly one message, for example when two
  messages have arrived together.\<close>

theorem client_on_read_two_messages_exit:
  "n \<noteq> 1 \<longrightarrow> client_on_read buf (n * DYNPM_MAX_MESSAGE_SIZE) chunks = Inl Exited"
  by (simp add: client_on_read_def DYNPM_MAX_MESSAGE_SIZE_def)

theorem client_on_read_two_messages_exit_witness:
  "client_on_read [] (2 * DYNPM_MAX_MESSAGE_SIZE) [] = Inl Exited"
  using client_on_read_two_messages_exit [of 2 "[]" "[]"] by simp

end
