(* ===== verification/Server_List.thy ===== *)
theory Server_List
  imports Client_Events
begin

text \<open>
  The server's list of client connections, \<open>head\<close> in \<open>src/network/server.c\<close>: a doubly linked list of
  the \<open>LIST_\<close> macros of \<open>sys/queue.h\<close>, kept inside the connection records themselves. A record stores
  its successor and the place of the pointer that points to it. The macros are modelled step by step
  on a heap of records and shown to act on the list of addresses as insertion, removal and search.
\<close>

section \<open>State\<close>

datatype le_place = Head_Field | Next_Field addr

text \<open>The process id and the host are indeterminate until the client registers.\<close>

record server_connection =
  sc_pid :: "u32 option"
  sc_host :: "string option"
  sc_fd :: int
  sc_messages :: message_queue
  sc_messages_mutex :: bool
  sc_mutex :: bool
  sc_le_next :: "addr option"
  sc_le_prev :: le_place

record conn_list =
  cl_heap :: "addr \<rightharpoonup> server_connection"
  cl_head :: "addr option"

definition conn_at :: "conn_list \<Rightarrow> addr \<Rightarrow> server_connection res" where
  "conn_at l c = (case cl_heap l c of None \<Rightarrow> Inl Wild_Pointer | Some x \<Rightarrow> Inr x)"

definition put_conn :: "conn_list \<Rightarrow> addr \<Rightarrow> server_connection \<Rightarrow> conn_list" where
  "put_conn l c x = l\<lparr>cl_heap := (cl_heap l)(c \<mapsto> x)\<rparr>"

section \<open>The macros\<close>

definition list_insert_head :: "addr \<Rightarrow> conn_list \<Rightarrow> conn_list res" where
  "list_insert_head elm l =
     rbind (conn_at l elm) (\<lambda>x.
     let first = cl_head l; l1 = put_conn l elm (x\<lparr>sc_le_next := first\<rparr>) in
     rbind (case first of None \<Rightarrow> Inr l1
            | Some f \<Rightarrow> rbind (conn_at l1 f) (\<lambda>y. Inr (put_conn l1 f (y\<lparr>sc_le_prev := Next_Field elm\<rparr>)))) (\<lambda>l2.
     rbind (conn_at l2 elm) (\<lambda>x2.
       Inr (put_conn (l2\<lparr>cl_head := Some elm\<rparr>) elm (x2\<lparr>sc_le_prev := Head_Field\<rparr>)))))"

text \<open>\<open>*elm->le_prev = v\<close>\<close>

definition store_place :: "le_place \<Rightarrow> addr option \<Rightarrow> conn_list \<Rightarrow> conn_list res" where
  "store_place pl v l =
     (case pl of Head_Field \<Rightarrow> Inr (l\<lparr>cl_head := v\<rparr>)
      | Next_Field b \<Rightarrow> rbind (conn_at l b) (\<lambda>y. Inr (put_conn l b (y\<lparr>sc_le_next := v\<rparr>))))"

definition list_remove :: "addr \<Rightarrow> conn_list \<Rightarrow> conn_list res" where
  "list_remove elm l =
     rbind (conn_at l elm) (\<lambda>x.
     rbind (case sc_le_next x of None \<Rightarrow> Inr l
            | Some n \<Rightarrow> rbind (conn_at l n) (\<lambda>y. Inr (put_conn l n (y\<lparr>sc_le_prev := sc_le_prev x\<rparr>)))) (\<lambda>l1.
       store_place (sc_le_prev x) (sc_le_next x) l1))"

text \<open>\<open>LIST_FOREACH\<close> with a test that ends it; the test itself may read an indeterminate field.\<close>

partial_function (option) list_find ::
    "(addr \<rightharpoonup> server_connection) \<Rightarrow> (addr \<Rightarrow> server_connection \<Rightarrow> bool res) \<Rightarrow> addr option \<Rightarrow> addr option res option" where
  "list_find h P p =
     (case p of None \<Rightarrow> Some (Inr None)
      | Some a \<Rightarrow>
          (case h a of None \<Rightarrow> Some (Inl Wild_Pointer)
           | Some x \<Rightarrow>
               (case P a x of Inl e \<Rightarrow> Some (Inl e)
                | Inr found \<Rightarrow> (if found then Some (Inr (Some a)) else list_find h P (sc_le_next x)))))"

section \<open>Well-formed lists\<close>

fun dlinked :: "(addr \<rightharpoonup> server_connection) \<Rightarrow> le_place \<Rightarrow> addr option \<Rightarrow> addr list \<Rightarrow> bool" where
  "dlinked h pl p [] = (p = None)"
| "dlinked h pl p (a # as) =
     (p = Some a \<and> (case h a of None \<Rightarrow> False
                     | Some x \<Rightarrow> sc_le_prev x = pl \<and> dlinked h (Next_Field a) (sc_le_next x) as))"

definition conn_list_holds :: "conn_list \<Rightarrow> addr list \<Rightarrow> bool" where
  "conn_list_holds l as \<longleftrightarrow> dlinked (cl_heap l) Head_Field (cl_head l) as \<and> distinct as"

text \<open>A piece of a list: from the pointer \<open>p\<close>, stored at \<open>pl\<close>, to the pointer \<open>q\<close>, stored at \<open>qpl\<close>.\<close>

fun dseg :: "(addr \<rightharpoonup> server_connection) \<Rightarrow> le_place \<Rightarrow> addr option \<Rightarrow> addr list \<Rightarrow> addr option \<Rightarrow> le_place \<Rightarrow> bool" where
  "dseg h pl p [] q qpl = (p = q \<and> pl = qpl)"
| "dseg h pl p (a # as) q qpl =
     (p = Some a \<and> (case h a of None \<Rightarrow> False
                     | Some x \<Rightarrow> sc_le_prev x = pl \<and> dseg h (Next_Field a) (sc_le_next x) as q qpl))"

lemma dlinked_append: "dlinked h pl p (xs @ ys) \<longleftrightarrow> (\<exists>q qpl. dseg h pl p xs q qpl \<and> dlinked h qpl q ys)"
  by (induction xs arbitrary: pl p) (auto split: option.splits)

lemma dlinked_upd [simp]: "x \<notin> set as \<Longrightarrow> dlinked (h(x := v)) pl p as = dlinked h pl p as"
  by (induction as arbitrary: pl p) (auto split: option.splits)

lemma dseg_upd [simp]: "x \<notin> set as \<Longrightarrow> dseg (h(x := v)) pl p as q qpl = dseg h pl p as q qpl"
  by (induction as arbitrary: pl p) (auto split: option.splits)

lemma dlinked_dom: "dlinked h pl p as \<Longrightarrow> a \<in> set as \<Longrightarrow> \<exists>x. h a = Some x"
  by (induction as arbitrary: pl p) (auto split: option.splits)

text \<open>Fields other than the links are free to change.\<close>

lemma dlinked_data:
  "h c = Some x \<Longrightarrow> sc_le_next y = sc_le_next x \<Longrightarrow> sc_le_prev y = sc_le_prev x \<Longrightarrow>
   dlinked (h(c \<mapsto> y)) pl p as = dlinked h pl p as"
  by (induction as arbitrary: pl p) (auto split: option.splits)

lemma dlinked_unique: "dlinked h pl p as \<Longrightarrow> dlinked h pl p bs \<Longrightarrow> as = bs"
proof (induction as arbitrary: pl p bs)
  case Nil
  then show ?case by (cases bs) auto
next
  case (Cons a as)
  then show ?case by (cases bs) (auto split: option.splits)
qed

text \<open>The macros change links only.\<close>

definition conn_data :: "server_connection \<Rightarrow> server_connection" where
  "conn_data x = x\<lparr>sc_le_next := None, sc_le_prev := Head_Field\<rparr>"

definition same_data :: "conn_list \<Rightarrow> conn_list \<Rightarrow> bool" where
  "same_data l l' \<longleftrightarrow> (\<forall>a. map_option conn_data (cl_heap l' a) = map_option conn_data (cl_heap l a))"

lemma conn_data_links [simp]:
  "conn_data (x\<lparr>sc_le_next := p\<rparr>) = conn_data x" "conn_data (x\<lparr>sc_le_prev := pl\<rparr>) = conn_data x"
  by (simp_all add: conn_data_def)

lemma same_data_refl [simp]: "same_data l l"
  by (simp add: same_data_def)

lemma same_data_trans [trans]: "same_data l m \<Longrightarrow> same_data m n \<Longrightarrow> same_data l n"
  by (simp add: same_data_def)

lemma same_data_put: "cl_heap l c = Some x \<Longrightarrow> conn_data y = conn_data x \<Longrightarrow> same_data l (put_conn l c y)"
  by (simp add: same_data_def put_conn_def)

lemma same_data_head [simp]: "same_data l (m\<lparr>cl_head := p\<rparr>) = same_data l m"
  by (simp add: same_data_def)

lemma conn_at_eq: "conn_at l c = Inr x \<longleftrightarrow> cl_heap l c = Some x"
  by (simp add: conn_at_def split: option.splits)

lemma same_data_fields:
  assumes "same_data l l'" and "cl_heap l a = Some x"
  obtains y where "cl_heap l' a = Some y" "sc_pid y = sc_pid x" "sc_host y = sc_host x" "sc_fd y = sc_fd x"
    "sc_messages y = sc_messages x" "sc_messages_mutex y = sc_messages_mutex x" "sc_mutex y = sc_mutex x"
proof -
  from assms have "map_option conn_data (cl_heap l' a) = Some (conn_data x)" by (simp add: same_data_def)
  then obtain y where "cl_heap l' a = Some y" "conn_data y = conn_data x" by auto
  then show thesis using that by (cases x; cases y) (simp add: conn_data_def)
qed

lemma list_insert_head_data:
  assumes "list_insert_head c l = Inr l'"
  shows "same_data l l'"
proof -
  from assms obtain x l2 x2 where x: "cl_heap l c = Some x" and x2: "cl_heap l2 c = Some x2"
    and l2: "(case cl_head l of None \<Rightarrow> Inr (put_conn l c (x\<lparr>sc_le_next := cl_head l\<rparr>))
       | Some f \<Rightarrow> rbind (conn_at (put_conn l c (x\<lparr>sc_le_next := cl_head l\<rparr>)) f)
           (\<lambda>y. Inr (put_conn (put_conn l c (x\<lparr>sc_le_next := cl_head l\<rparr>)) f (y\<lparr>sc_le_prev := Next_Field c\<rparr>)))) = Inr l2"
    and l': "l' = put_conn (l2\<lparr>cl_head := Some c\<rparr>) c (x2\<lparr>sc_le_prev := Head_Field\<rparr>)"
    by (auto simp: list_insert_head_def Let_def rbind_eq_Inr conn_at_eq)
  let ?l1 = "put_conn l c (x\<lparr>sc_le_next := cl_head l\<rparr>)"
  have "same_data l ?l1" using same_data_put [OF x] by simp
  also have "same_data ?l1 l2"
    using l2 by (cases "cl_head l") (auto simp: rbind_eq_Inr conn_at_eq intro: same_data_put)
  also have "same_data l2 l'" unfolding l' using x2 by (simp add: same_data_def put_conn_def)
  finally show ?thesis .
qed

lemma list_remove_data:
  assumes "list_remove c l = Inr l'"
  shows "same_data l l'"
proof -
  from assms obtain x l1 where x: "cl_heap l c = Some x"
    and l1: "(case sc_le_next x of None \<Rightarrow> Inr l
       | Some n \<Rightarrow> rbind (conn_at l n) (\<lambda>y. Inr (put_conn l n (y\<lparr>sc_le_prev := sc_le_prev x\<rparr>)))) = Inr l1"
    and l': "store_place (sc_le_prev x) (sc_le_next x) l1 = Inr l'"
    by (auto simp: list_remove_def rbind_eq_Inr conn_at_eq)
  have "same_data l l1" using l1 by (cases "sc_le_next x") (auto simp: rbind_eq_Inr conn_at_eq intro: same_data_put)
  also have "same_data l1 l'"
    using l' by (cases "sc_le_prev x") (auto simp: store_place_def rbind_eq_Inr conn_at_eq intro: same_data_put)
  finally show ?thesis .
qed

section \<open>The macros act on the list\<close>

lemma list_insert_head_holds:
  assumes "conn_list_holds l as" and "cl_heap l c = Some x" and "c \<notin> set as"
  shows "\<exists>l'. list_insert_head c l = Inr l' \<and> conn_list_holds l' (c # as)"
proof (cases as)
  case Nil
  then have "cl_head l = None" using assms(1) by (simp add: conn_list_holds_def)
  with Nil assms show ?thesis
    by (auto simp: list_insert_head_def conn_at_def put_conn_def conn_list_holds_def Let_def)
next
  case (Cons f fs)
  from assms(1) Cons obtain y where y: "cl_head l = Some f" "cl_heap l f = Some y" "sc_le_prev y = Head_Field"
    "dlinked (cl_heap l) (Next_Field f) (sc_le_next y) fs" "distinct (f # fs)"
    by (auto simp: conn_list_holds_def split: option.splits)
  from assms(3) Cons have "c \<noteq> f" "c \<notin> set fs" "f \<notin> set fs" using y(5) by auto
  with y assms(2) Cons show ?thesis
    by (auto simp: list_insert_head_def conn_at_def put_conn_def conn_list_holds_def Let_def)
qed

lemma list_remove_head:
  assumes "conn_list_holds l (c # ns)"
  shows "\<exists>l'. list_remove c l = Inr l' \<and> conn_list_holds l' ns"
proof -
  from assms obtain x where x: "cl_heap l c = Some x" "sc_le_prev x = Head_Field"
    and tl: "dlinked (cl_heap l) (Next_Field c) (sc_le_next x) ns" and d: "distinct (c # ns)"
    by (auto simp: conn_list_holds_def split: option.splits)
  show ?thesis
  proof (cases ns)
    case Nil
    with x tl show ?thesis by (simp add: list_remove_def store_place_def conn_at_def conn_list_holds_def)
  next
    case (Cons n ms)
    with tl obtain y where y: "sc_le_next x = Some n" "cl_heap l n = Some y"
      "dlinked (cl_heap l) (Next_Field n) (sc_le_next y) ms" by (auto split: option.splits)
    let ?l = "(put_conn l n (y\<lparr>sc_le_prev := Head_Field\<rparr>))\<lparr>cl_head := Some n\<rparr>"
    have "list_remove c l = Inr ?l" using x y by (simp add: list_remove_def store_place_def conn_at_def)
    moreover have "conn_list_holds ?l ns" using d Cons y by (simp add: conn_list_holds_def put_conn_def)
    ultimately show ?thesis by blast
  qed
qed

lemma list_remove_inner:
  assumes "conn_list_holds l (ps @ b # c # ns)"
  shows "\<exists>l'. list_remove c l = Inr l' \<and> conn_list_holds l' (ps @ b # ns)"
proof -
  from assms obtain q qpl where seg: "dseg (cl_heap l) Head_Field (cl_head l) ps q qpl"
    and "dlinked (cl_heap l) qpl q (b # c # ns)" and d: "distinct (ps @ b # c # ns)"
    by (auto simp: conn_list_holds_def dlinked_append)
  then obtain z x where q: "q = Some b" and z: "cl_heap l b = Some z" "sc_le_prev z = qpl"
    and x: "cl_heap l c = Some x" "sc_le_prev x = Next_Field b"
    and tl: "dlinked (cl_heap l) (Next_Field c) (sc_le_next x) ns" by (auto split: option.splits)
  show ?thesis
  proof (cases ns)
    case Nil
    then have n: "sc_le_next x = None" using tl by simp
    let ?l = "put_conn l b (z\<lparr>sc_le_next := None\<rparr>)"
    have "list_remove c l = Inr ?l" using x z n by (simp add: list_remove_def store_place_def conn_at_def)
    moreover have "conn_list_holds ?l (ps @ b # ns)"
      using d seg z q Nil by (auto simp: conn_list_holds_def put_conn_def dlinked_append)
    ultimately show ?thesis by blast
  next
    case (Cons n ms)
    with tl obtain y where y: "sc_le_next x = Some n" "cl_heap l n = Some y"
      "dlinked (cl_heap l) (Next_Field n) (sc_le_next y) ms" by (auto split: option.splits)
    let ?l = "put_conn (put_conn l n (y\<lparr>sc_le_prev := Next_Field b\<rparr>)) b (z\<lparr>sc_le_next := Some n\<rparr>)"
    have "b \<noteq> n" using d Cons by simp
    then have "list_remove c l = Inr ?l" using x z y by (simp add: list_remove_def store_place_def conn_at_def put_conn_def)
    moreover have "conn_list_holds ?l (ps @ b # ns)"
      using d seg z q y Cons by (auto simp: conn_list_holds_def put_conn_def dlinked_append)
    ultimately show ?thesis by blast
  qed
qed

lemma list_remove_holds:
  assumes "conn_list_holds l as" and "c \<in> set as"
  shows "\<exists>l'. list_remove c l = Inr l' \<and> conn_list_holds l' (remove1 c as)"
proof -
  from assms(2) obtain ps ns where as: "as = ps @ c # ns" "c \<notin> set ps" by (meson split_list_first)
  then have r: "remove1 c as = ps @ ns" by (simp add: remove1_append)
  show ?thesis
  proof (cases ps rule: rev_cases)
    case Nil
    then show ?thesis using list_remove_head [of l c ns] assms(1) as r by simp
  next
    case (snoc qs b)
    then show ?thesis using list_remove_inner [of l qs b c ns] assms(1) as r by simp
  qed
qed

text \<open>A search over a well-formed list ends, and returns the first hit.\<close>

lemma list_find_dlinked:
  "dlinked h pl p as \<Longrightarrow> (\<And>a. a \<in> set as \<Longrightarrow> P a (the (h a)) = Inr (Q a)) \<Longrightarrow>
   list_find h P p = Some (Inr (find Q as))"
proof (induction as arbitrary: pl p)
  case Nil
  then show ?case by (simp add: list_find.simps)
next
  case (Cons a as)
  then obtain x where x: "p = Some a" "h a = Some x" "dlinked h (Next_Field a) (sc_le_next x) as"
    by (auto split: option.splits)
  with Cons.prems(2) [of a] have "P a x = Inr (Q a)" by simp
  moreover have "list_find h P (sc_le_next x) = Some (Inr (find Q as))" using Cons.IH [OF x(3)] Cons.prems(2) by simp
  ultimately show ?case using x by (simp add: list_find.simps [of h P "Some a"])
qed

end
