(* ===== verification/Server.thy ===== *)
theory Server
  imports Server_List
begin

text \<open>
  The server side, \<open>src/network/server.c\<close>: accepting connections, reassembling messages from the
  stream, the handler the worker threads run, the list of connections with registration, search and
  removal, the send functions, and the cascade of disconnections when a client goes away. The work
  queue is the one of \<open>Fifo\<close>; its jobs carry the data the code packs behind a \<open>void *\<close>. What
  libevent, the socket layer and the allocator contribute is an argument of each operation.
\<close>

section \<open>State\<close>

datatype server_job = Setup_Job addr | Message_Job addr buffer

record server_state =
  sv_list :: conn_list
  registration_mutex :: bool
  message_bytes_read :: nat
  sv_work :: "server_job work_list"

definition set_conn :: "server_state \<Rightarrow> addr \<Rightarrow> server_connection \<Rightarrow> server_state" where
  "set_conn s c x = s\<lparr>sv_list := put_conn (sv_list s) c x\<rparr>"

abbreviation sv_conn :: "server_state \<Rightarrow> addr \<Rightarrow> server_connection res" where
  "sv_conn s c \<equiv> conn_at (sv_list s) c"

section \<open>The list of connections\<close>

definition compare_id_host :: "server_connection \<Rightarrow> string \<Rightarrow> u32 \<Rightarrow> bool res" where
  "compare_id_host x host pid =
     (case sc_pid x of None \<Rightarrow> Inl Uninitialised
      | Some p \<Rightarrow>
          if p = pid then (case sc_host x of None \<Rightarrow> Inl Uninitialised | Some h \<Rightarrow> Inr (h = host))
          else Inr False)"

definition dynpm_find_client_connection_in_list :: "string \<Rightarrow> u32 \<Rightarrow> server_state \<Rightarrow> (int \<times> addr option) res" where
  "dynpm_find_client_connection_in_list host pid s =
     rbind (settle (list_find (cl_heap (sv_list s)) (\<lambda>a x. compare_id_host x host pid) (cl_head (sv_list s)))) (\<lambda>found.
       Inr (case found of Some c \<Rightarrow> (1, Some c) | None \<Rightarrow> (0, None)))"

definition is_client_connection_in_list :: "addr \<Rightarrow> conn_list \<Rightarrow> bool res" where
  "is_client_connection_in_list c l =
     rbind (settle (list_find (cl_heap l) (\<lambda>a x. Inr (a = c)) (cl_head l))) (\<lambda>found. Inr (found \<noteq> None))"

definition remove_client_connection_from_list :: "addr \<Rightarrow> conn_list \<Rightarrow> conn_list res" where
  "remove_client_connection_from_list c l =
     (if cl_head l = None then Inr l
      else rbind (is_client_connection_in_list c l) (\<lambda>found. if found then list_remove c l else Inr l))"

section \<open>Handlers of the worker threads\<close>

definition register_client_connection ::
    "addr \<Rightarrow> dynpm_register_connection_msg \<Rightarrow> server_state \<Rightarrow> server_state res" where
  "register_client_connection c m s =
     rbind (sv_conn s c) (\<lambda>x.
     rassert (\<not> sc_mutex x) Blocked
       (Inr (set_conn s c (x\<lparr>sc_pid := Some (rc_pid m), sc_host := Some (rc_hostname m)\<rparr>))))"

text \<open>\<open>_deregister_client_connection\<close>: the record leaves the list but stays allocated.\<close>

definition deregister_client_connection ::
    "addr \<Rightarrow> dynpm_deregister_connection_msg \<Rightarrow> server_state \<Rightarrow> server_state res" where
  "deregister_client_connection c m s =
     rassert (\<not> registration_mutex s) Blocked
       (rbind (remove_client_connection_from_list c (sv_list s)) (\<lambda>l.
        rbind (conn_at l c) (\<lambda>x. Inr (s\<lparr>sv_list := l\<rparr>))))"

text \<open>The indeterminate structs the deserialisers start from.\<close>

record job_env =
  je_header :: dynpm_header
  je_register :: dynpm_register_connection_msg
  je_deregister :: dynpm_deregister_connection_msg

text \<open>\<open>_dynpm_top_server_handler\<close>: everything but the two connection messages goes to the handler the
  server was initialised with.\<close>

definition dynpm_top_server_handler ::
    "(addr \<Rightarrow> buffer \<Rightarrow> server_state \<Rightarrow> server_state res) \<Rightarrow> job_env \<Rightarrow> addr \<Rightarrow> buffer \<Rightarrow> server_state \<Rightarrow>
     server_state res" where
  "dynpm_top_server_handler handler e c message s =
     rbind (dynpm_deserialize_header (je_header e) message) (\<lambda>header.
       if hdr_message_type header = message_code REGISTER_CONNECTION then
         rbind (dynpm_deserialize_register_connection_msg (je_register e) message) (\<lambda>m.
           register_client_connection c m s)
       else if hdr_message_type header = message_code DEREGISTER_CONNECTION then
         rbind (dynpm_deserialize_deregister_connection_msg (je_deregister e) message) (\<lambda>m.
           deregister_client_connection c m s)
       else handler c message s)"

text \<open>\<open>_client_connection_setup\<close>\<close>

definition client_connection_setup :: "addr \<Rightarrow> server_state \<Rightarrow> server_state res" where
  "client_connection_setup c s =
     rassert (\<not> registration_mutex s) Blocked
       (rbind (list_insert_head c (sv_list s)) (\<lambda>l. Inr (s\<lparr>sv_list := l\<rparr>)))"

fun run_job ::
    "(addr \<Rightarrow> buffer \<Rightarrow> server_state \<Rightarrow> server_state res) \<Rightarrow> job_env \<Rightarrow> server_job \<Rightarrow> server_state \<Rightarrow> server_state res" where
  "run_job handler e (Setup_Job c) s = client_connection_setup c s"
| "run_job handler e (Message_Job c b) s = dynpm_top_server_handler handler e c b s"

section \<open>Accepting\<close>

text \<open>\<open>_client_connection_event_handler\<close>: \<open>ok\<close> says whether the socket and libevent calls succeeded (a
  failure ends the process), \<open>c\<close> and \<open>u\<close> are the new record and work unit. The id and the host of the
  record are not initialised.\<close>

definition client_connection_event_handler ::
    "bool \<Rightarrow> int \<Rightarrow> addr \<Rightarrow> le_place \<Rightarrow> addr option \<Rightarrow> addr \<Rightarrow> server_state \<Rightarrow> server_state res" where
  "client_connection_event_handler ok fd c pl g u s =
     (if \<not> ok then Inl Exited
      else rbind (settle (submit_work (Setup_Job c) g u (sv_work s))) (\<lambda>w.
        Inr (set_conn (s\<lparr>sv_work := w\<rparr>) c
          \<lparr>sc_pid = None, sc_host = None, sc_fd = fd, sc_messages = empty_queue, sc_messages_mutex = False,
           sc_mutex = False, sc_le_next = None, sc_le_prev = pl\<rparr>)))"

section \<open>Reading\<close>

text \<open>
  The loop of \<open>_server_on_read\<close>. The offset is a \<open>static\<close> variable, shared by all connections and kept
  between calls; the buffer is new in each call. For every full message one element of \<open>allocs\<close> is
  used: the next read buffer, the indeterminate link and the address of the work unit; when a
  \<open>malloc\<close> fails (\<open>None\<close>) the function returns at once. The last component tells whether it ran to
  its end.
\<close>

fun server_read_loop ::
    "addr \<Rightarrow> char list list \<Rightarrow> (buffer \<times> addr option \<times> addr) option list \<Rightarrow> nat \<Rightarrow> buffer \<Rightarrow> server_job work_list \<Rightarrow>
     (nat \<times> server_job work_list \<times> bool) res" where
  "server_read_loop c [] allocs off buf w = Inr (off, w, True)"
| "server_read_loop c (ch # chs) allocs off buf w =
     (if ch = [] then Inr (off, w, True)
      else rbind (memcpy_to buf off ch (length ch)) (\<lambda>buf'.
        if off + length ch < DYNPM_MAX_MESSAGE_SIZE then server_read_loop c chs allocs (off + length ch) buf' w
        else (case allocs of
                Some (next_buf, g, u) # allocs' \<Rightarrow>
                  rbind (settle (submit_work (Message_Job c buf') g u w)) (\<lambda>w'.
                    server_read_loop c chs allocs' 0 next_buf w')
              | _ \<Rightarrow> Inr (off + length ch, w, False))))"

definition server_on_read ::
    "addr \<Rightarrow> char list list \<Rightarrow> buffer \<Rightarrow> (buffer \<times> addr option \<times> addr) option list \<Rightarrow> server_state \<Rightarrow> server_state res" where
  "server_on_read c chunks read_buffer allocs s =
     rbind (sv_conn s c) (\<lambda>x.
     rassert (\<not> sc_mutex x) Blocked
       (rbind (server_read_loop c chunks allocs (message_bytes_read s) read_buffer (sv_work s)) (\<lambda>(off, w, done).
          Inr (set_conn (s\<lparr>message_bytes_read := off, sv_work := w\<rparr>) c (x\<lparr>sc_mutex := \<not> done\<rparr>)))))"

section \<open>Writing\<close>

definition server_on_write :: "addr option \<Rightarrow> server_state \<Rightarrow> (buffer option \<times> server_state) res" where
  "server_on_write connection s =
     (case connection of None \<Rightarrow> Inl Exited
      | Some c \<Rightarrow>
          rbind (sv_conn s c) (\<lambda>x.
          rassert (\<not> sc_mutex x) Blocked
            (rbind (write_head (sc_messages x)) (\<lambda>(out, q). Inr (out, set_conn s c (x\<lparr>sc_messages := q\<rparr>))))))"

definition server_to_client_send_progress :: "addr option \<Rightarrow> server_state \<Rightarrow> (buffer option \<times> server_state) res" where
  "server_to_client_send_progress connection s =
     rassert (\<not> registration_mutex s) Blocked
       (case connection of None \<Rightarrow> Inr (None, s) | Some c \<Rightarrow> server_on_write (Some c) s)"

section \<open>The end of a connection\<close>

text \<open>The loop over the client's table: every connection made on behalf of \<open>c\<close> is closed too.\<close>

fun cascade_disconnect :: "nat list \<Rightarrow> addr \<Rightarrow> client_state \<Rightarrow> client_state res" where
  "cascade_disconnect [] c cs = Inr cs"
| "cascade_disconnect (i # is) c cs =
     rbind (server_entry cs (int i)) (\<lambda>entry.
       case entry of None \<Rightarrow> cascade_disconnect is c cs
       | Some d \<Rightarrow>
           rbind (connection_at cs d) (\<lambda>y.
             if cc_parent_connection y = Some c
             then rbind (dynpm_disconnect_from_server (int i) cs) (\<lambda>(_, cs'). cascade_disconnect is c cs')
             else cascade_disconnect is c cs))"

text \<open>\<open>_server_on_error\<close> with the flags \<open>BEV_EVENT_EOF\<close> and \<open>BEV_EVENT_READING\<close>. The host pointer is
  printed and freed in every case.\<close>

definition server_on_error ::
    "bool \<Rightarrow> bool \<Rightarrow> addr \<Rightarrow> server_state \<Rightarrow> client_state \<Rightarrow> (server_state \<times> client_state) res" where
  "server_on_error eof reading c s cs =
     rassert (\<not> registration_mutex s) Blocked
       (if eof \<and> reading then
          rbind (sv_conn s c) (\<lambda>x.
          rbind (is_client_connection_in_list c (sv_list s)) (\<lambda>found.
          rassert (sc_host x \<noteq> None) Uninitialised
            (rbind (if found
                    then rbind (cascade_disconnect [0..<MAX_SERVER_CONNECTIONS] c cs) (\<lambda>cs'.
                         rbind (remove_client_connection_from_list c (sv_list s)) (\<lambda>l. Inr (l, cs')))
                    else Inr (sv_list s, cs)) (\<lambda>(l, cs').
               Inr (s\<lparr>sv_list := l\<lparr>cl_heap := (cl_heap l)(c := None)\<rparr>\<rparr>, cs')))))
        else Inr (s, cs))"

text \<open>\<open>dynpm_clear_client_connections\<close>: each record is freed inside the \<open>LIST_FOREACH\<close> that then reads
  its link.\<close>

partial_function (option) clear_loop :: "addr option \<Rightarrow> conn_list \<Rightarrow> conn_list res option" where
  "clear_loop p l =
     (case p of None \<Rightarrow> Some (Inr l)
      | Some c \<Rightarrow>
          (case rbind (conn_at l c) (\<lambda>x. rassert (sc_host x \<noteq> None) Uninitialised (list_remove c l)) of
             Inl e \<Rightarrow> Some (Inl e)
           | Inr l1 \<Rightarrow>
               (let l2 = l1\<lparr>cl_heap := (cl_heap l1)(c := None)\<rparr> in
                case conn_at l2 c of Inl e \<Rightarrow> Some (Inl e) | Inr y \<Rightarrow> clear_loop (sc_le_next y) l2)))"

definition dynpm_clear_client_connections :: "server_state \<Rightarrow> server_state res" where
  "dynpm_clear_client_connections s =
     rbind (settle (clear_loop (cl_head (sv_list s)) (sv_list s))) (\<lambda>l. Inr (s\<lparr>sv_list := l\<rparr>))"

text \<open>\<open>dynpm_lock_client_connections\<close> and \<open>dynpm_unlock_client_connections\<close>, for callers that walk the list.\<close>

definition dynpm_lock_client_connections :: "server_state \<Rightarrow> server_state res" where
  "dynpm_lock_client_connections s = rassert (\<not> registration_mutex s) Blocked (Inr (s\<lparr>registration_mutex := True\<rparr>))"

definition dynpm_unlock_client_connections :: "server_state \<Rightarrow> server_state" where
  "dynpm_unlock_client_connections s = s\<lparr>registration_mutex := False\<rparr>"

section \<open>Sending\<close>

definition dynpm_send_buffer_to_client_connection ::
    "addr \<Rightarrow> buffer \<Rightarrow> addr \<Rightarrow> server_state \<Rightarrow> (int \<times> server_state) res" where
  "dynpm_send_buffer_to_client_connection node buf c s =
     rbind (sv_conn s c) (\<lambda>x.
     rassert (\<not> sc_messages_mutex x) Blocked
       (rbind (settle (dynpm_enqueue_send_buffer buf (Some node) (sc_messages x))) (\<lambda>(_, q).
          Inr (0, set_conn s c (x\<lparr>sc_messages := q\<rparr>)))))"

text \<open>\<open>dynpm_send_header_to_client_connection\<close> has no \<open>return\<close>: only its effect is modelled.\<close>

definition dynpm_send_header_to_client_connection ::
    "send_env \<Rightarrow> dynpm_source_type \<Rightarrow> dynpm_message_type \<Rightarrow> addr \<Rightarrow> server_state \<Rightarrow> server_state res" where
  "dynpm_send_header_to_client_connection e source type c s =
     rbind (dynpm_serialize_header \<lparr>hdr_source_type = source_code source, hdr_message_type = message_code type\<rparr>
              (se_buffer e)) (\<lambda>buf.
     rbind (dynpm_send_buffer_to_client_connection (se_node e) buf c s) (\<lambda>(_, s'). Inr s'))"

text \<open>The switch of \<open>dynpm_send_message_to_client_connection\<close>: \<open>None\<close> is a type it does not send.\<close>

definition serialize_for_client :: "send_env \<Rightarrow> dynpm_header \<Rightarrow> wire_msg \<Rightarrow> buffer res option" where
  "serialize_for_client e h m =
     (if hdr_message_type h = message_code OFFER_RESOURCES then
        Some (case m of M_offer x \<Rightarrow> dynpm_serialize_resource_offer_msg h x (se_buffer e) | _ \<Rightarrow> Inl Type_Confusion)
      else if hdr_message_type h = message_code READY_TBON then
        Some (case m of M_ready x \<Rightarrow> dynpm_serialize_ready_tbon_msg h x (se_buffer e) | _ \<Rightarrow> Inl Type_Confusion)
      else if hdr_message_type h = message_code READY_DYNAMIC_PM then
        Some (case m of M_ready x \<Rightarrow> dynpm_serialize_ready_dynamic_pm_msg h x (se_buffer e) | _ \<Rightarrow> Inl Type_Confusion)
      else if hdr_message_type h = message_code DYNAMIC_IO_OUT then
        Some (case m of M_io_out x \<Rightarrow> dynpm_serialize_dynamic_io_out_msg h x (se_buffer e) | _ \<Rightarrow> Inl Type_Confusion)
      else if hdr_message_type h = message_code PROCESSES_DONE then
        Some (case m of M_ready x \<Rightarrow> dynpm_serialize_processes_done_msg h x (se_buffer e) | _ \<Rightarrow> Inl Type_Confusion)
      else if hdr_message_type h = message_code REPORT_PROCESS_DATA then
        Some (case m of M_report x \<Rightarrow> dynpm_serialize_report_process_data_msg h x (se_buffer e) | _ \<Rightarrow> Inl Type_Confusion)
      else if hdr_message_type h = message_code REALLOCATION_START then
        Some (case m of M_realloc_start x \<Rightarrow> dynpm_serialize_reallocation_start_msg h x (se_buffer e) | _ \<Rightarrow> Inl Type_Confusion)
      else None)"

text \<open>
  \<open>dynpm_send_message_to_client_connection\<close>. A null connection jumps to the error label before the
  buffer is allocated, and the label frees it. The types that are not sent leave the queue's lock
  held; all but the two connection types also unlock the connection's other lock.
\<close>

definition dynpm_send_message_to_client_connection ::
    "send_env \<Rightarrow> dynpm_header \<Rightarrow> wire_msg \<Rightarrow> addr option \<Rightarrow> server_state \<Rightarrow> (int \<times> server_state) res" where
  "dynpm_send_message_to_client_connection e h m connection s =
     (case connection of None \<Rightarrow> Inl Uninitialised
      | Some c \<Rightarrow>
          rbind (sv_conn s c) (\<lambda>x.
          rassert (\<not> sc_messages_mutex x) Blocked
            (case serialize_for_client e h m of
               None \<Rightarrow>
                 (let x1 = x\<lparr>sc_messages_mutex := True\<rparr> in
                  if hdr_message_type h \<in> {message_code REGISTER_CONNECTION, message_code DEREGISTER_CONNECTION}
                  then Inr (-1, set_conn s c x1)
                  else Inr (-1, set_conn s c (x1\<lparr>sc_mutex := False\<rparr>)))
             | Some r \<Rightarrow>
                 rbind r (\<lambda>buf.
                 rbind (settle (dynpm_enqueue_send_buffer buf (Some (se_node e)) (sc_messages x))) (\<lambda>(_, q).
                   Inr (0, set_conn s c (x\<lparr>sc_messages := q\<rparr>)))))))"

section \<open>Starting\<close>

text \<open>What \<open>bind\<close> answers for a port.\<close>

datatype bind_result = Bound | In_Use | Bind_Error

text \<open>The loop of \<open>dynpm_server_init_port_range\<close> over the ports from \<open>p\<close>, \<open>n\<close> of them left, with the
  last answer (\<open>None\<close>: \<open>error_code\<close> is not yet set).\<close>

fun try_ports :: "(int \<Rightarrow> bind_result) \<Rightarrow> int \<Rightarrow> nat \<Rightarrow> bind_result option \<Rightarrow> int \<times> bind_result option" where
  "try_ports bind p 0 answer = (p, answer)"
| "try_ports bind p (Suc n) answer =
     (if bind p = In_Use then try_ports bind (p + 1) n (Some In_Use) else (p, Some (bind p)))"

text \<open>\<open>_dynpm_server_init_common\<close>: the list is emptied; whether the work queue, the accept thread and its
  name could be set up comes from outside.\<close>

definition dynpm_server_init_common :: "bool \<Rightarrow> bool \<Rightarrow> bool \<Rightarrow> server_state \<Rightarrow> int \<times> server_state" where
  "dynpm_server_init_common queue_ok thread_ok name_ok s =
     (let s' = s\<lparr>registration_mutex := False, sv_list := (sv_list s)\<lparr>cl_head := None\<rparr>\<rparr>
      in (if queue_ok \<and> thread_ok \<and> name_ok then 0 else -1, s'))"

definition dynpm_server_init ::
    "bool \<Rightarrow> (int \<Rightarrow> bind_result) \<Rightarrow> bool \<Rightarrow> bool \<Rightarrow> bool \<Rightarrow> int \<Rightarrow> server_state \<Rightarrow> int \<times> server_state" where
  "dynpm_server_init socket_ok bind queue_ok thread_ok name_ok port s =
     (if \<not> socket_ok then (-1, s)
      else if bind port = Bound then dynpm_server_init_common queue_ok thread_ok name_ok s
      else (-1, s))"

definition dynpm_server_init_port_range ::
    "bool \<Rightarrow> (int \<Rightarrow> bind_result) \<Rightarrow> bool \<Rightarrow> bool \<Rightarrow> bool \<Rightarrow> int \<Rightarrow> int \<Rightarrow> server_state \<Rightarrow>
     (int \<times> int option \<times> server_state) res" where
  "dynpm_server_init_port_range socket_ok bind queue_ok thread_ok name_ok min_port max_port s =
     (if \<not> socket_ok then Inr (-1, None, s)
      else (case try_ports bind min_port (nat (max_port - min_port + 1)) None of
              (p, None) \<Rightarrow> Inl Uninitialised
            | (p, Some Bound) \<Rightarrow>
                (let (rc, s') = dynpm_server_init_common queue_ok thread_ok name_ok s in Inr (rc, Some p, s'))
            | (p, Some _) \<Rightarrow> Inr (-1, None, s)))"

section \<open>Lemmas on the list\<close>

text \<open>A connection has registered once its id and its host are set.\<close>

definition registered :: "conn_list \<Rightarrow> addr \<Rightarrow> u32 \<Rightarrow> string \<Rightarrow> bool" where
  "registered l c pid host \<longleftrightarrow> (\<exists>x. cl_heap l c = Some x \<and> sc_pid x = Some pid \<and> sc_host x = Some host)"

definition all_registered :: "conn_list \<Rightarrow> addr list \<Rightarrow> bool" where
  "all_registered l as \<longleftrightarrow> (\<forall>a \<in> set as. \<exists>pid host. registered l a pid host)"

lemma find_connection:
  assumes "conn_list_holds (sv_list s) as" and "all_registered (sv_list s) as"
  shows "dynpm_find_client_connection_in_list host pid s =
    Inr (case find (\<lambda>a. registered (sv_list s) a pid host) as of Some c \<Rightarrow> (1, Some c) | None \<Rightarrow> (0, None))"
proof -
  have "list_find (cl_heap (sv_list s)) (\<lambda>a x. compare_id_host x host pid) (cl_head (sv_list s)) =
      Some (Inr (find (\<lambda>a. registered (sv_list s) a pid host) as))"
  proof (rule list_find_dlinked)
    show "dlinked (cl_heap (sv_list s)) Head_Field (cl_head (sv_list s)) as"
      using assms(1) by (simp add: conn_list_holds_def)
    fix a assume "a \<in> set as"
    with assms(2) obtain x p h where x: "cl_heap (sv_list s) a = Some x" "sc_pid x = Some p" "sc_host x = Some h"
      by (auto simp: all_registered_def registered_def)
    then show "compare_id_host (the (cl_heap (sv_list s) a)) host pid = Inr (registered (sv_list s) a pid host)"
      by (auto simp: compare_id_host_def registered_def)
  qed
  then show ?thesis by (simp add: dynpm_find_client_connection_in_list_def)
qed

lemma find_mem: "find (\<lambda>a. a = c) as = (if c \<in> set as then Some c else None)"
  by (induction as) auto

lemma is_in_list: "conn_list_holds l as \<Longrightarrow> is_client_connection_in_list c l = Inr (c \<in> set as)"
  using list_find_dlinked [of "cl_heap l" Head_Field "cl_head l" as "\<lambda>a x. Inr (a = c)" "\<lambda>a. a = c"]
  by (simp add: is_client_connection_in_list_def conn_list_holds_def find_mem)

lemma remove_connection_holds:
  assumes "conn_list_holds l as"
  shows "\<exists>l'. remove_client_connection_from_list c l = Inr l' \<and> conn_list_holds l' (remove1 c as) \<and> same_data l l'"
proof (cases "c \<in> set as")
  case True
  then have "cl_head l \<noteq> None" using assms by (cases as) (auto simp: conn_list_holds_def)
  with True list_remove_holds [OF assms True] show ?thesis
    by (auto simp: remove_client_connection_from_list_def is_in_list [OF assms] list_remove_data)
next
  case False
  then show ?thesis using assms
    by (simp add: remove_client_connection_from_list_def is_in_list [OF assms] remove1_idem)
qed

section \<open>Lemmas on the stream\<close>

lemma submit_work_other:
  "submit_work j g u q = Some (Inr q') \<Longrightarrow> v \<noteq> u \<Longrightarrow> wl_heap q v = None \<Longrightarrow> wl_heap q' v = None"
  by (auto simp: submit_work_def dynpm_work_queue_add_def Let_def split: option.splits sum.splits if_splits)

lemma server_read_loop_message:
  "\<forall>p \<in> set ps. p \<noteq> [] \<Longrightarrow> ps \<noteq> [] \<Longrightarrow> length buf = DYNPM_MAX_MESSAGE_SIZE \<Longrightarrow>
   n + length (concat ps) = DYNPM_MAX_MESSAGE_SIZE \<Longrightarrow>
   server_read_loop c (ps @ rest) (Some (next_buf, g, u) # allocs) n buf w =
     rbind (settle (submit_work (Message_Job c (take n buf @ concat ps)) g u w)) (\<lambda>w'.
       server_read_loop c rest allocs 0 next_buf w')"
proof (induction ps arbitrary: n buf)
  case Nil
  then show ?case by simp
next
  case (Cons p ps)
  let ?buf = "take n buf @ p @ drop (n + length p) buf"
  from Cons.prems have m: "memcpy_to buf n p (length p) = Inr ?buf" by (simp add: memcpy_to_def)
  show ?case
  proof (cases "ps = []")
    case True
    with m Cons.prems show ?thesis by simp
  next
    case False
    then have "0 < length (concat ps)" using Cons.prems(1) by (cases ps) auto
    then have lt: "n + length p < DYNPM_MAX_MESSAGE_SIZE"
      using Cons.prems(4) unfolding concat.simps length_append by linarith
    have "server_read_loop c (ps @ rest) (Some (next_buf, g, u) # allocs) (n + length p) ?buf w =
      rbind (settle (submit_work (Message_Job c (take (n + length p) ?buf @ concat ps)) g u w)) (\<lambda>w'.
        server_read_loop c rest allocs 0 next_buf w')"
      using Cons.prems False by (intro Cons.IH) auto
    then show ?thesis using m lt Cons.prems by simp
  qed
qed

text \<open>Pieces that do not fill the buffer only move the offset.\<close>

lemma server_read_loop_partial:
  "\<forall>p \<in> set ps. p \<noteq> [] \<Longrightarrow> length buf = DYNPM_MAX_MESSAGE_SIZE \<Longrightarrow>
   n + length (concat ps) < DYNPM_MAX_MESSAGE_SIZE \<Longrightarrow>
   server_read_loop c ps allocs n buf w = Inr (n + length (concat ps), w, True)"
proof (induction ps arbitrary: n buf)
  case Nil
  then show ?case by simp
next
  case (Cons p ps)
  let ?buf = "take n buf @ p @ drop (n + length p) buf"
  from Cons.prems have m: "memcpy_to buf n p (length p) = Inr ?buf" by (simp add: memcpy_to_def)
  have lt: "n + length p < DYNPM_MAX_MESSAGE_SIZE" using Cons.prems(3) by simp
  have "server_read_loop c ps allocs (n + length p) ?buf w = Inr (n + length p + length (concat ps), w, True)"
    using Cons.prems by (intro Cons.IH) auto
  then show ?case using m lt Cons.prems by simp
qed

text \<open>Messages that each arrive in pieces of their own, read in one call.\<close>

lemma server_read_loop_messages:
  "work_list_holds w js \<Longrightarrow> length buf = DYNPM_MAX_MESSAGE_SIZE \<Longrightarrow>
   list_all (\<lambda>ps. (\<forall>p \<in> set ps. p \<noteq> []) \<and> ps \<noteq> [] \<and> length (concat ps) = DYNPM_MAX_MESSAGE_SIZE) pss \<Longrightarrow>
   length allocs = length pss \<Longrightarrow> \<forall>(b, g, u) \<in> set allocs. length b = DYNPM_MAX_MESSAGE_SIZE \<and> wl_heap w u = None \<Longrightarrow>
   distinct (map (snd \<circ> snd) allocs) \<Longrightarrow>
   \<exists>w'. server_read_loop c (concat pss) (map Some allocs) 0 buf w = Inr (0, w', True) \<and>
        work_list_holds w' (js @ map (\<lambda>ps. Message_Job c (concat ps)) pss)"
proof (induction pss arbitrary: allocs buf w js)
  case Nil
  then show ?case by simp
next
  case (Cons ps pss)
  from Cons.prems(4) obtain b g u allocs' where al: "allocs = (b, g, u) # allocs'" by (cases allocs) auto
  from Cons.prems(5) al have u: "wl_heap w u = None" "length b = DYNPM_MAX_MESSAGE_SIZE" by auto
  obtain w1 where w1: "submit_work (Message_Job c (concat ps)) g u w = Some (Inr w1)"
    "work_list_holds w1 (js @ [Message_Job c (concat ps)])" using submit_work_holds [OF Cons.prems(1) u(1)] by blast
  have "u \<notin> (snd \<circ> snd) ` set allocs'" using Cons.prems(6) al by simp
  then have fr: "\<forall>(b, g, v) \<in> set allocs'. length b = DYNPM_MAX_MESSAGE_SIZE \<and> wl_heap w1 v = None"
    using Cons.prems(5) al submit_work_other [OF w1(1)] by fastforce
  obtain w' where "server_read_loop c (concat pss) (map Some allocs') 0 b w1 = Inr (0, w', True)"
    "work_list_holds w' ((js @ [Message_Job c (concat ps)]) @ map (\<lambda>ps. Message_Job c (concat ps)) pss)"
    using Cons.IH [OF w1(2) u(2) _ _ fr] Cons.prems(3,4,6) al by auto
  moreover have "server_read_loop c (concat (ps # pss)) (map Some allocs) 0 buf w =
      rbind (settle (submit_work (Message_Job c (concat ps)) g u w)) (\<lambda>w'.
        server_read_loop c (concat pss) (map Some allocs') 0 b w')"
    using server_read_loop_message [of ps buf 0 c "concat pss" b g u "map Some allocs'" w] Cons.prems(2,3) al by simp
  ultimately show ?case using w1(1) by auto
qed

section \<open>Lemmas on the cascade\<close>

definition opened_for :: "client_state \<Rightarrow> nat \<Rightarrow> addr \<Rightarrow> bool" where
  "opened_for cs i c \<longleftrightarrow>
     (\<exists>d y. server_connections cs ! i = Some d \<and> client_heap cs d = Some y \<and> cc_parent_connection y = Some c)"

lemma cascade_disconnect_ok:
  "client_inv cs \<Longrightarrow> \<not> server_connections_mutex cs \<Longrightarrow> distinct is \<Longrightarrow>
   \<forall>i \<in> set is. i < MAX_SERVER_CONNECTIONS \<Longrightarrow>
   \<exists>cs'. cascade_disconnect is c cs = Inr cs' \<and> client_inv cs' \<and> \<not> server_connections_mutex cs' \<and>
     (\<forall>i. server_connections cs' ! i =
        (if i \<in> set is \<and> opened_for cs i c then None else server_connections cs ! i))"
proof (induction "is" arbitrary: cs)
  case Nil
  then show ?case by simp
next
  case (Cons k "is")
  have len: "k < length (server_connections cs)" using Cons.prems by (simp add: client_inv_def)
  then have e: "server_entry cs (int k) = Inr (server_connections cs ! k)" by (simp add: server_entry_def)
  show ?case
  proof (cases "opened_for cs k c")
    case False
    have step: "cascade_disconnect (k # is) c cs = cascade_disconnect is c cs"
    proof (cases "server_connections cs ! k")
      case None
      with e show ?thesis by simp
    next
      case (Some d)
      with len Cons.prems(1) have "connection_ok (client_heap cs) k d" by (simp add: entries_okD client_inv_def)
      with Some False e show ?thesis by (auto simp: connection_ok_def opened_for_def connection_at_def)
    qed
    with False Cons.IH [of cs] Cons.prems show ?thesis by auto
  next
    case True
    then obtain d y where d: "server_connections cs ! k = Some d" "client_heap cs d = Some y"
      "cc_parent_connection y = Some c" by (auto simp: opened_for_def)
    let ?cs = "cs\<lparr>server_connections := (server_connections cs)[k := None],
                 server_connection_count := server_connection_count cs - 1\<rparr>"
    have dis: "dynpm_disconnect_from_server (int k) cs = Inr (0, ?cs)"
      using disconnect_ok [OF Cons.prems(1,2), of "int k" d] e d(1) by simp
    have inv: "client_inv ?cs" using disconnect_inv [OF Cons.prems(1) _ dis] e d(1) by simp
    from dis e d have step: "cascade_disconnect (k # is) c cs = cascade_disconnect is c ?cs"
      by (simp add: connection_at_def)
    have same: "opened_for ?cs i c = opened_for cs i c" if "i \<noteq> k" for i using that by (simp add: opened_for_def)
    obtain cs' where cs': "cascade_disconnect is c ?cs = Inr cs'" "client_inv cs'" "\<not> server_connections_mutex cs'"
      "\<forall>i. server_connections cs' ! i = (if i \<in> set is \<and> opened_for ?cs i c then None else server_connections ?cs ! i)"
      using Cons.IH [OF inv] Cons.prems by auto
    have "server_connections cs' ! i =
        (if i \<in> set (k # is) \<and> opened_for cs i c then None else server_connections cs ! i)" for i
      using cs'(4) same [of i] True Cons.prems(3) len by (cases "i = k") auto
    then show ?thesis using step cs'(1-3) by auto
  qed
qed

section \<open>Registration\<close>

lemma register_then_find:
  assumes "conn_list_holds (sv_list s) (ps @ c # ns)" and "all_registered (sv_list s) (ps @ ns)"
    and "cl_heap (sv_list s) c = Some x" and "\<not> sc_mutex x"
    and "\<forall>a \<in> set ps. \<not> registered (sv_list s) a (rc_pid m) (rc_hostname m)"
  shows "\<exists>s'. register_client_connection c m s = Inr s' \<and> conn_list_holds (sv_list s') (ps @ c # ns) \<and>
              dynpm_find_client_connection_in_list (rc_hostname m) (rc_pid m) s' = Inr (1, Some c)"
proof -
  let ?y = "x\<lparr>sc_pid := Some (rc_pid m), sc_host := Some (rc_hostname m)\<rparr>"
  let ?s = "set_conn s c ?y"
  have reg: "register_client_connection c m s = Inr ?s"
    using assms(3,4) by (simp add: register_client_connection_def conn_at_def)
  have holds: "conn_list_holds (sv_list ?s) (ps @ c # ns)"
    using assms(1,3) dlinked_data [of "cl_heap (sv_list s)" c x ?y]
    by (simp add: conn_list_holds_def set_conn_def put_conn_def)
  have c: "c \<notin> set ps" "c \<notin> set ns" using assms(1) by (auto simp: conn_list_holds_def)
  have other: "registered (sv_list ?s) a = registered (sv_list s) a" if "a \<noteq> c" for a
    using that by (auto simp: registered_def set_conn_def put_conn_def fun_eq_iff)
  have own: "registered (sv_list ?s) c (rc_pid m) (rc_hostname m)" by (simp add: registered_def set_conn_def put_conn_def)
  have all: "all_registered (sv_list ?s) (ps @ c # ns)"
    unfolding all_registered_def using assms(2) own other by (metis Un_iff all_registered_def set_ConsD set_append)
  have "find (\<lambda>a. registered (sv_list ?s) a (rc_pid m) (rc_hostname m)) (ps @ c # ns) = Some c"
    using own other c(1) assms(5) by (induction ps) auto
  then show ?thesis using reg holds find_connection [OF holds all] by simp
qed

section \<open>Properties\<close>

text \<open>A server with one registered client and an empty work queue, for the examples.\<close>

definition example_conn :: server_connection where
  "example_conn =
     \<lparr>sc_pid = Some 42, sc_host = Some ''n01'', sc_fd = 5, sc_messages = empty_queue, sc_messages_mutex = False,
      sc_mutex = False, sc_le_next = None, sc_le_prev = Head_Field\<rparr>"

definition example_server :: server_state where
  "example_server =
     \<lparr>sv_list = \<lparr>cl_heap = [5 \<mapsto> example_conn], cl_head = Some 5\<rparr>, registration_mutex = False,
      message_bytes_read = 0, sv_work = \<lparr>wl_heap = Map.empty, wl_units = None\<rparr>\<rparr>"

definition example_msg :: "char \<Rightarrow> buffer" where
  "example_msg ch = replicate DYNPM_MAX_MESSAGE_SIZE ch"

lemma example_server_simps [simp]:
  "cl_heap (sv_list example_server) = [5 \<mapsto> example_conn]" "cl_head (sv_list example_server) = Some 5"
  "\<not> registration_mutex example_server" "message_bytes_read example_server = 0"
  "wl_heap (sv_work example_server) u = None" "work_list_holds (sv_work example_server) []"
  "conn_list_holds (sv_list example_server) [5]" "registered (sv_list example_server) 5 42 ''n01''"
  "\<not> sc_mutex example_conn" "\<not> sc_messages_mutex example_conn" "length (example_msg ch) = DYNPM_MAX_MESSAGE_SIZE"
  "example_msg ch \<noteq> []"
  by (simp_all add: example_server_def example_conn_def example_msg_def work_list_holds_def conn_list_holds_def
      registered_def DYNPM_MAX_MESSAGE_SIZE_def)

text \<open>C4: Messages that arrive whole in one read event are queued for the workers in the order of their bytes,
  each with exactly its bytes, however the pieces are cut, and the next event starts at offset 0.\<close>

theorem server_on_read_whole_messages:
  assumes "cl_heap (sv_list s) c = Some x" and "\<not> sc_mutex x" and "message_bytes_read s = 0"
    and "work_list_holds (sv_work s) js" and "length buf = DYNPM_MAX_MESSAGE_SIZE"
    and "list_all (\<lambda>ps. (\<forall>p \<in> set ps. p \<noteq> []) \<and> ps \<noteq> [] \<and> length (concat ps) = DYNPM_MAX_MESSAGE_SIZE) pss"
    and "length allocs = length pss"
    and "\<forall>(b, g, u) \<in> set allocs. length b = DYNPM_MAX_MESSAGE_SIZE \<and> wl_heap (sv_work s) u = None"
    and "distinct (map (snd \<circ> snd) allocs)"
  shows "\<exists>s'. server_on_read c (concat pss) buf (map Some allocs) s = Inr s' \<and> message_bytes_read s' = 0 \<and>
              work_list_holds (sv_work s') (js @ map (\<lambda>ps. Message_Job c (concat ps)) pss)"
  using server_read_loop_messages [OF assms(4-9), of c] assms(1-3)
  by (auto simp: server_on_read_def conn_at_def set_conn_def)

theorem server_on_read_whole_messages_witness:
  "\<exists>s'. server_on_read 5 (concat [[example_msg (CHR ''a'')], [example_msg (CHR ''b'')]]) (example_msg (CHR ''x''))
           (map Some [(example_msg (CHR ''y''), None, 8), (example_msg (CHR ''z''), None, 9)]) example_server = Inr s' \<and>
         message_bytes_read s' = 0 \<and>
         work_list_holds (sv_work s')
           ([] @ map (\<lambda>ps. Message_Job 5 (concat ps)) [[example_msg (CHR ''a'')], [example_msg (CHR ''b'')]])"
  by (rule server_on_read_whole_messages [where x = example_conn]) simp_all

text \<open>C37: A message whose bytes arrive over two read events is queued with its first part replaced by whatever
  the second event's new buffer held.\<close>

theorem server_on_read_split_message:
  assumes "cl_heap (sv_list s) c = Some x" and "\<not> sc_mutex x" and "message_bytes_read s = 0"
    and "work_list_holds (sv_work s) js" and "wl_heap (sv_work s) u = None"
    and "length buf1 = DYNPM_MAX_MESSAGE_SIZE" and "length buf2 = DYNPM_MAX_MESSAGE_SIZE"
    and "p \<noteq> []" and "q \<noteq> []" and "length p + length q = DYNPM_MAX_MESSAGE_SIZE"
  shows "\<exists>s1 s2. server_on_read c [p] buf1 [] s = Inr s1 \<and>
                 server_on_read c [q] buf2 [Some (buf1, g, u)] s1 = Inr s2 \<and>
                 work_list_holds (sv_work s2) (js @ [Message_Job c (take (length p) buf2 @ q)])"
proof -
  let ?s1 = "set_conn (s\<lparr>message_bytes_read := length p\<rparr>) c (x\<lparr>sc_mutex := False\<rparr>)"
  have "0 < length q" using assms(9) by simp
  then have "length p < DYNPM_MAX_MESSAGE_SIZE" using assms(10) by linarith
  then have "server_read_loop c [p] [] 0 buf1 (sv_work s) = Inr (length p, sv_work s, True)"
    using server_read_loop_partial [of "[p]" buf1 0] assms(6,8) by simp
  then have r1: "server_on_read c [p] buf1 [] s = Inr ?s1"
    using assms(1-3) by (simp add: server_on_read_def conn_at_def set_conn_def)
  obtain w where w: "submit_work (Message_Job c (take (length p) buf2 @ q)) g u (sv_work s) = Some (Inr w)"
    "work_list_holds w (js @ [Message_Job c (take (length p) buf2 @ q)])" using submit_work_holds [OF assms(4,5)] by blast
  have "server_read_loop c [q] [Some (buf1, g, u)] (length p) buf2 (sv_work s) = Inr (0, w, True)"
    using server_read_loop_message [of "[q]" buf2 "length p" c "[]" buf1 g u "[]"] w(1) assms(7,9,10) by simp
  then have "\<exists>s2. server_on_read c [q] buf2 [Some (buf1, g, u)] ?s1 = Inr s2 \<and> sv_work s2 = w"
    by (simp add: server_on_read_def conn_at_def set_conn_def put_conn_def)
  with r1 w(2) show ?thesis by blast
qed

theorem server_on_read_split_message_witness:
  "\<exists>s1 s2. server_on_read 5 [replicate 96 (CHR ''a'')] (example_msg (CHR ''x'')) [] example_server = Inr s1 \<and>
     server_on_read 5 [replicate 4000 (CHR ''a'')] (example_msg (CHR ''y'')) [Some (example_msg (CHR ''x''), None, 9)] s1 = Inr s2 \<and>
     work_list_holds (sv_work s2)
       ([] @ [Message_Job 5 (take (length (replicate 96 (CHR ''a''))) (example_msg (CHR ''y'')) @ replicate 4000 (CHR ''a''))])"
  by (rule server_on_read_split_message [where x = example_conn]) (simp_all add: DYNPM_MAX_MESSAGE_SIZE_def)

text \<open>After a read event that ended inside a message, a piece that is longer than the rest of the buffer
  is written past its end.\<close>

theorem server_on_read_overflow:
  assumes "cl_heap (sv_list s) c = Some x" and "\<not> sc_mutex x" and "length buf = DYNPM_MAX_MESSAGE_SIZE"
    and "DYNPM_MAX_MESSAGE_SIZE < message_bytes_read s + length p" and "p \<noteq> []"
  shows "server_on_read c (p # ps) buf allocs s = Inl Buffer_Overflow"
  using assms by (simp add: server_on_read_def conn_at_def memcpy_to_def)

theorem server_on_read_overflow_witness:
  "server_on_read 5 [example_msg (CHR ''a'')] (example_msg (CHR ''x'')) [] (example_server\<lparr>message_bytes_read := 96\<rparr>) =
     Inl Buffer_Overflow"
  by (rule server_on_read_overflow [where x = example_conn]) simp_all

text \<open>Once a connection's registration has been handled, a search for its process id and host finds it,
  provided no earlier entry has the same pair and every entry of the list has registered.\<close>

theorem registered_connection_found:
  assumes "conn_list_holds (sv_list s) (ps @ c # ns)" and "all_registered (sv_list s) (ps @ ns)"
    and "cl_heap (sv_list s) c = Some x" and "\<not> sc_mutex x"
    and "\<forall>a \<in> set ps. \<not> registered (sv_list s) a (rc_pid m) (rc_hostname m)"
  shows "\<exists>s'. register_client_connection c m s = Inr s' \<and> conn_list_holds (sv_list s') (ps @ c # ns) \<and>
              dynpm_find_client_connection_in_list (rc_hostname m) (rc_pid m) s' = Inr (1, Some c)"
  using assms by (rule register_then_find)

theorem registered_connection_found_witness:
  "\<exists>s'. register_client_connection 5 \<lparr>rc_pid = 7, rc_hostname = ''n02''\<rparr> example_server = Inr s' \<and>
         conn_list_holds (sv_list s') ([] @ [5]) \<and>
         dynpm_find_client_connection_in_list ''n02'' 7 s' = Inr (1, Some 5)"
  using registered_connection_found [of example_server "[]" 5 "[]" example_conn "\<lparr>rc_pid = 7, rc_hostname = ''n02''\<rparr>"]
  by (simp add: all_registered_def)

text \<open>Deregistration takes the connection out of the list and leaves every other entry and all data alone.\<close>

theorem deregister_removes:
  assumes "conn_list_holds (sv_list s) as" and "c \<in> set as" and "\<not> registration_mutex s"
  shows "\<exists>s'. deregister_client_connection c m s = Inr s' \<and> conn_list_holds (sv_list s') (remove1 c as) \<and>
              same_data (sv_list s) (sv_list s') \<and> is_client_connection_in_list c (sv_list s') = Inr False"
proof -
  from remove_connection_holds [OF assms(1)] obtain l where l: "remove_client_connection_from_list c (sv_list s) = Inr l"
    "conn_list_holds l (remove1 c as)" "same_data (sv_list s) l" by blast
  obtain x where "cl_heap (sv_list s) c = Some x"
    using dlinked_dom [of "cl_heap (sv_list s)" Head_Field _ as c] assms(1,2) by (auto simp: conn_list_holds_def)
  from same_data_fields [OF l(3) this] obtain y where "cl_heap l c = Some y" by blast
  moreover have "c \<notin> set (remove1 c as)" using assms(1) by (simp add: conn_list_holds_def)
  ultimately show ?thesis using l assms(3)
    by (simp add: deregister_client_connection_def conn_at_def is_in_list [OF l(2)])
qed

theorem deregister_removes_witness:
  "\<exists>s'. deregister_client_connection 5 \<lparr>dc_pid = 42, dc_hostname = ''n01'', dc_error_code = 0\<rparr> example_server = Inr s' \<and>
         conn_list_holds (sv_list s') (remove1 5 [5]) \<and> same_data (sv_list example_server) (sv_list s') \<and>
         is_client_connection_in_list 5 (sv_list s') = Inr False"
  by (rule deregister_removes) simp_all

text \<open>C22: When a client goes away, its record leaves the list and is freed, and exactly the client-side
  connections that were opened on its behalf are closed.\<close>

theorem server_on_error_cascade:
  assumes "conn_list_holds (sv_list s) as" and "c \<in> set as" and "registered (sv_list s) c pid host"
    and "\<not> registration_mutex s" and "client_inv cs" and "\<not> server_connections_mutex cs"
  shows "\<exists>s' cs'. server_on_error True True c s cs = Inr (s', cs') \<and>
      conn_list_holds (sv_list s') (remove1 c as) \<and> cl_heap (sv_list s') c = None \<and> client_inv cs' \<and>
      (\<forall>i < MAX_SERVER_CONNECTIONS. server_connections cs' ! i =
         (if opened_for cs i c then None else server_connections cs ! i))"
proof -
  from assms(3) obtain x where x: "cl_heap (sv_list s) c = Some x" "sc_host x \<noteq> None" by (auto simp: registered_def)
  from remove_connection_holds [OF assms(1)] obtain l where l: "remove_client_connection_from_list c (sv_list s) = Inr l"
    "conn_list_holds l (remove1 c as)" by blast
  obtain cs' where cs': "cascade_disconnect [0..<MAX_SERVER_CONNECTIONS] c cs = Inr cs'" "client_inv cs'"
    "\<forall>i. server_connections cs' ! i =
       (if i \<in> set [0..<MAX_SERVER_CONNECTIONS] \<and> opened_for cs i c then None else server_connections cs ! i)"
    using cascade_disconnect_ok [OF assms(5,6), of "[0..<MAX_SERVER_CONNECTIONS]" c] by auto
  have c: "c \<notin> set (remove1 c as)" using assms(1) by (simp add: conn_list_holds_def)
  have "conn_list_holds (l\<lparr>cl_heap := (cl_heap l)(c := None)\<rparr>) (remove1 c as)"
    using l(2) c by (simp add: conn_list_holds_def)
  then show ?thesis using x l(1) cs' assms(2,4)
    by (simp add: server_on_error_def conn_at_def is_in_list [OF assms(1)])
qed

lemma dynpm_client_init_unlocked: "\<not> server_connections_mutex (snd (dynpm_client_init client_start))"
  by (simp add: dynpm_client_init_def client_start_def)

theorem server_on_error_cascade_witness:
  "\<exists>s' cs'. server_on_error True True 5 example_server (snd (dynpm_client_init client_start)) = Inr (s', cs') \<and>
      conn_list_holds (sv_list s') (remove1 5 [5]) \<and> cl_heap (sv_list s') 5 = None \<and> client_inv cs' \<and>
      server_connections cs' ! 3 = None"
proof -
  let ?c = "snd (dynpm_client_init client_start)"
  have none: "server_connections ?c ! 3 = None"
    by (simp add: dynpm_client_init_def client_start_def MAX_SERVER_CONNECTIONS_def)
  have "\<exists>s' cs'. server_on_error True True 5 example_server ?c = Inr (s', cs') \<and>
      conn_list_holds (sv_list s') (remove1 5 [5]) \<and> cl_heap (sv_list s') 5 = None \<and> client_inv cs' \<and>
      (\<forall>i < MAX_SERVER_CONNECTIONS. server_connections cs' ! i = (if opened_for ?c i 5 then None else server_connections ?c ! i))"
    by (rule server_on_error_cascade [where pid = 42 and host = "''n01''"])
       (simp_all add: client_init_inv dynpm_client_init_unlocked)
  moreover have "3 < MAX_SERVER_CONNECTIONS" by (simp add: MAX_SERVER_CONNECTIONS_def)
  ultimately show ?thesis using none by (metis (no_types, lifting))
qed

text \<open>C38: Clearing a list that is not empty reads a link of the record it has just freed.\<close>

theorem clear_client_connections_use_after_free:
  assumes "conn_list_holds (sv_list s) (c # as)" and "registered (sv_list s) c pid host"
  shows "dynpm_clear_client_connections s = Inl Wild_Pointer"
proof -
  from list_remove_head [OF assms(1)] obtain l where l: "list_remove c (sv_list s) = Inr l" by blast
  have h: "cl_head (sv_list s) = Some c" using assms(1) by (simp add: conn_list_holds_def)
  from assms(2) obtain x where "cl_heap (sv_list s) c = Some x" "sc_host x \<noteq> None" by (auto simp: registered_def)
  with l h show ?thesis
    by (simp add: dynpm_clear_client_connections_def clear_loop.simps [of "Some c"] conn_at_def Let_def)
qed

theorem clear_client_connections_use_after_free_witness:
  "dynpm_clear_client_connections example_server = Inl Wild_Pointer"
  by (rule clear_client_connections_use_after_free [of example_server 5 "[]" 42 "''n01''"]) simp_all

text \<open>Trying to send a message of a type the server does not send fails and leaves the queue of the
  connection locked: every later send to that client blocks.\<close>

theorem send_unsupported_type_blocks_client:
  assumes "cl_heap (sv_list s) c = Some x" and "\<not> sc_messages_mutex x" and "serialize_for_client e h m = None"
  shows "\<exists>s'. dynpm_send_message_to_client_connection e h m (Some c) s = Inr (-1, s') \<and>
              dynpm_send_message_to_client_connection e' h' m' (Some c) s' = Inl Blocked \<and>
              dynpm_send_buffer_to_client_connection node buf c s' = Inl Blocked"
  using assms
  by (auto simp: dynpm_send_message_to_client_connection_def dynpm_send_buffer_to_client_connection_def
      conn_at_def set_conn_def put_conn_def Let_def)

theorem send_unsupported_type_blocks_client_witness:
  "\<exists>s'. dynpm_send_message_to_client_connection
           \<lparr>se_buffer = [], se_node = 9, se_app = 0, se_temp = []\<rparr> \<lparr>hdr_source_type = 1, hdr_message_type = 1\<rparr> M_other
           (Some 5) example_server = Inr (-1, s') \<and>
         dynpm_send_message_to_client_connection
           \<lparr>se_buffer = [], se_node = 9, se_app = 0, se_temp = []\<rparr> \<lparr>hdr_source_type = 1, hdr_message_type = 8\<rparr> M_other
           (Some 5) s' = Inl Blocked \<and>
         dynpm_send_buffer_to_client_connection 9 (example_msg (CHR ''x'')) 5 s' = Inl Blocked"
  by (rule send_unsupported_type_blocks_client [where x = example_conn]) (simp_all add: serialize_for_client_def)

end
