(* ===== verification/Network.thy ===== *)
theory Network
  imports Client_Properties Server
begin

text \<open>
  Client and server together: a registration from the call that opens the connection to the search
  that finds it, through the client's queue, the stream, the server's reassembly, the work queue and
  the handler of the worker threads.
\<close>

section \<open>From the client's queue to the server's list\<close>






end
