(* ===== verification/Dispatch.thy ===== *)
theory Dispatch
  imports Server Registration
begin

text \<open>
  The two switches that choose a serialiser by the message type of the header, in
  \<open>_dynpm_internal_send_message_to_server\<close> and \<open>dynpm_send_message_to_client_connection\<close>. The message
  is a \<open>void *\<close>: nothing but the header says what it points to. The typing relation between headers
  and messages is what the callers have to respect; then no serialiser reads a structure of another
  type, and every buffer keeps the size of a message.
\<close>

section \<open>Typing\<close>


text \<open>A buffer of \<open>n\<close> bytes, or an error that is not one of types.\<close>

definition sized :: "nat \<Rightarrow> buffer res \<Rightarrow> bool" where
  "sized n r \<longleftrightarrow> (case r of Inl e \<Rightarrow> e \<noteq> Type_Confusion | Inr b \<Rightarrow> length b = n)"



lemma sized_Inr [simp]: "sized n (Inr b) \<longleftrightarrow> length b = n"
  by (simp add: sized_def)

lemma sized_Inl [simp]: "sized n (Inl e) \<longleftrightarrow> e \<noteq> Type_Confusion"
  by (simp add: sized_def)



section \<open>The serialisers are typed\<close>













section \<open>Properties\<close>



end
