(* ===== verification/Server_Life.thy ===== *)
theory Server_Life
  imports Server
begin

text \<open>
  The life of a server in \<open>src/network/server.c\<close>: its listening socket among the descriptors of the
  process, the thread that accepts clients, and the worker that puts accepted clients into the list.
\<close>

section \<open>The listening socket\<close>

record descriptors =
  ds_open :: "int set"
  server_socket :: int

text \<open>The variable starts at 0, the descriptor of the standard input.\<close>

definition descriptors_start :: "int set \<Rightarrow> descriptors" where
  "descriptors_start fds = \<lparr>ds_open = fds, server_socket = 0\<rparr>"

text \<open>\<open>server_socket = socket(...)\<close>, with the descriptor the system gave, if any.\<close>

definition open_socket :: "int option \<Rightarrow> descriptors \<Rightarrow> descriptors" where
  "open_socket answer d =
     (case answer of None \<Rightarrow> d\<lparr>server_socket := -1\<rparr>
      | Some fd \<Rightarrow> d\<lparr>server_socket := fd, ds_open := insert fd (ds_open d)\<rparr>)"

text \<open>The two functions that start a server, with their socket.\<close>

definition server_start ::
    "int option \<Rightarrow> (int \<Rightarrow> bind_result) \<Rightarrow> bool \<Rightarrow> bool \<Rightarrow> bool \<Rightarrow> int \<Rightarrow> descriptors \<times> server_state \<Rightarrow> int \<times> descriptors \<times> server_state" where
  "server_start answer bind queue_ok thread_ok name_ok port = (\<lambda>(d, s).
     (let (rc, s') = dynpm_server_init (answer \<noteq> None) bind queue_ok thread_ok name_ok port s
      in (rc, open_socket answer d, s')))"

definition close_socket :: "descriptors \<Rightarrow> int \<times> descriptors" where
  "close_socket d =
     (if server_socket d \<in> ds_open d then (0, d\<lparr>ds_open := ds_open d - {server_socket d}\<rparr>) else (-1, d))"

definition dynpm_server_finalize :: "descriptors \<Rightarrow> int \<times> descriptors" where
  "dynpm_server_finalize d = (if fst (close_socket d) \<noteq> 0 then (-1, snd (close_socket d)) else (0, snd (close_socket d)))"

section \<open>Accepting\<close>





section \<open>Lemmas\<close>





section \<open>Properties\<close>



text \<open>Finalising closes the socket that starting opened, and leaves the other descriptors alone, whether or not the
  port could be bound; finalising again reports an error.\<close>

theorem server_finalize_closes:
  assumes "fd \<notin> ds_open d" and "server_start (Some fd) bind q t n port (d, s) = (rc, d1, s1)"
  shows "\<exists>d2. dynpm_server_finalize d1 = (0, d2) \<and> ds_open d2 = ds_open d \<and> dynpm_server_finalize d2 = (-1, d2) \<and> fd \<in> ds_open d1"
  using assms by (auto simp: server_start_def open_socket_def dynpm_server_finalize_def close_socket_def split: prod.splits)

theorem server_finalize_closes_witness:
  "\<exists>d2. dynpm_server_finalize (fst (snd (server_start (Some 3) (\<lambda>p. In_Use) True True True 8000 (descriptors_start {0, 1, 2}, example_server)))) =
    (0, d2) \<and> ds_open d2 = {0, 1, 2}"
proof -
  obtain rc d1 s1 where "server_start (Some 3) (\<lambda>p. In_Use) True True True 8000 (descriptors_start {0, 1, 2}, example_server) = (rc, d1, s1)"
    by (cases "server_start (Some 3) (\<lambda>p. In_Use) True True True 8000 (descriptors_start {0, 1, 2}, example_server)")
  with server_finalize_closes [OF _ this] show ?thesis by (auto simp: descriptors_start_def)
qed

text \<open>Without a start, finalising closes the standard input.\<close>

theorem server_finalize_unstarted: "dynpm_server_finalize (descriptors_start {0, 1, 2}) = (0, \<lparr>ds_open = {1, 2}, server_socket = 0\<rparr>)"
  by (auto simp: descriptors_start_def dynpm_server_finalize_def close_socket_def)

end
