(* ===== verification/Client_Threads.thy ===== *)
theory Client_Threads
  imports Client_Properties
begin

text \<open>
  Threads of the client that meet at one connection. First the queue of outgoing messages: the threads
  that send hold \<open>messages_mutex\<close> while the connection's event thread holds \<open>mutex\<close>, so an append and a
  removal can interleave. Then the opening of a connection: the caller of \<open>dynpm_connect_to_server\<close>
  waits for the event thread while it holds the lock of the table.
\<close>

section \<open>An append in two steps\<close>

text \<open>The new node, the search for the last node, and the store that links the new node.\<close>

definition new_message :: "addr \<Rightarrow> buffer \<Rightarrow> message_queue \<Rightarrow> message_queue" where
  "new_message a buf q =
     q\<lparr>messages_heap := (messages_heap q)(a \<mapsto> \<lparr>mq_buffer = take DYNPM_MAX_MESSAGE_SIZE buf, mq_next = None\<rparr>)\<rparr>"

definition tail_search :: "message_queue \<Rightarrow> addr option res option" where
  "tail_search q =
     (case messages_head q of None \<Rightarrow> Some (Inr None)
      | Some p \<Rightarrow> map_option (map_sum id Some) (find_tail (messages_heap q) mq_next p))"

definition tail_link :: "addr \<Rightarrow> addr option \<Rightarrow> message_queue \<Rightarrow> message_queue res" where
  "tail_link a tail q =
     (case tail of None \<Rightarrow> Inr (q\<lparr>messages_head := Some a\<rparr>)
      | Some t \<Rightarrow>
          (case messages_heap q t of None \<Rightarrow> Inl Wild_Pointer
           | Some n \<Rightarrow> Inr (q\<lparr>messages_heap := (messages_heap q)(t \<mapsto> n\<lparr>mq_next := Some a\<rparr>)\<rparr>)))"

section \<open>A send in two steps\<close>

text \<open>\<open>dynpm_send_buffer_to_server\<close> tests the entry under the lock of the table, and reads it again after it has
  given the lock back.\<close>

definition send_check :: "int \<Rightarrow> client_state \<Rightarrow> bool res" where
  "send_check index s =
     (if \<not> dynpm_client_initialized s then Inr False
      else rassert (\<not> server_connections_mutex s) Blocked
        (rbind (server_entry s index) (\<lambda>entry. Inr (entry \<noteq> None))))"

definition send_use :: "addr \<Rightarrow> buffer \<Rightarrow> int \<Rightarrow> client_state \<Rightarrow> (int \<times> client_state) res" where
  "send_use node buf index s =
     rbind (server_entry s index) (\<lambda>entry.
       case entry of None \<Rightarrow> Inl Null_Deref | Some c \<Rightarrow> internal_send_buffer_to_server node buf c s)"

section \<open>Opening a connection\<close>

text \<open>Where the caller of \<open>dynpm_connect_to_server\<close> is, from the creation of the event thread on.\<close>

datatype caller_at = C_Lock | C_Test | C_Wait | C_Woken | C_Unlock | C_Send | C_Done

text \<open>Where the event thread is: in the dispatcher, in \<open>_client_on_error\<close> for the connected event, or in the
  timer callback \<open>_client_to_server_send_progress\<close>.\<close>

datatype event_at = E_Dispatch | E_Connected_Lock | E_Connected | E_Progress_Table | E_Progress_Lock | E_Progress

datatype thread = Caller | Event

record open_state =
  op_caller :: caller_at
  op_event :: event_at
  op_table_lock :: "thread option"
  op_lock :: "thread option"
  op_connected :: bool
  op_network :: bool  \<comment> \<open>the connected event is still to come\<close>

text \<open>The caller holds the lock of the table; the event thread has just been created. Spurious wake-ups of
  \<open>pthread_cond_wait\<close> are left out of the steps.\<close>

definition opening_start :: open_state where
  "opening_start = \<lparr>op_caller = C_Lock, op_event = E_Dispatch, op_table_lock = Some Caller, op_lock = None,
     op_connected = False, op_network = True\<rparr>"

inductive opening_step :: "open_state \<Rightarrow> open_state \<Rightarrow> bool" where
  c_lock: "op_caller s = C_Lock \<Longrightarrow> op_lock s = None \<Longrightarrow>
    opening_step s (s\<lparr>op_caller := C_Test, op_lock := Some Caller\<rparr>)"
| c_test_connected: "op_caller s = C_Test \<Longrightarrow> op_connected s \<Longrightarrow> opening_step s (s\<lparr>op_caller := C_Unlock\<rparr>)"
| c_test_wait: "op_caller s = C_Test \<Longrightarrow> \<not> op_connected s \<Longrightarrow>
    opening_step s (s\<lparr>op_caller := C_Wait, op_lock := None\<rparr>)"
| c_woken: "op_caller s = C_Woken \<Longrightarrow> op_lock s = None \<Longrightarrow>
    opening_step s (s\<lparr>op_caller := C_Unlock, op_lock := Some Caller\<rparr>)"
| c_unlock: "op_caller s = C_Unlock \<Longrightarrow> opening_step s (s\<lparr>op_caller := C_Send, op_lock := None\<rparr>)"
| c_send: "op_caller s = C_Send \<Longrightarrow> opening_step s (s\<lparr>op_caller := C_Done, op_table_lock := None\<rparr>)"
| e_connected: "op_event s = E_Dispatch \<Longrightarrow> op_network s \<Longrightarrow>
    opening_step s (s\<lparr>op_event := E_Connected_Lock, op_network := False\<rparr>)"
| e_connected_lock: "op_event s = E_Connected_Lock \<Longrightarrow> op_lock s = None \<Longrightarrow>
    opening_step s (s\<lparr>op_event := E_Connected, op_lock := Some Event\<rparr>)"
| e_connected_signal: "op_event s = E_Connected \<Longrightarrow>
    opening_step s (s\<lparr>op_event := E_Dispatch, op_lock := None, op_connected := True,
                      op_caller := (if op_caller s = C_Wait then C_Woken else op_caller s)\<rparr>)"
| e_timer: "op_event s = E_Dispatch \<Longrightarrow> opening_step s (s\<lparr>op_event := E_Progress_Table\<rparr>)"
| e_progress_table: "op_event s = E_Progress_Table \<Longrightarrow> op_table_lock s = None \<Longrightarrow>
    opening_step s (s\<lparr>op_event := E_Progress_Lock, op_table_lock := Some Event\<rparr>)"
| e_progress_lock: "op_event s = E_Progress_Lock \<Longrightarrow> op_lock s = None \<Longrightarrow>
    opening_step s (s\<lparr>op_event := E_Progress, op_lock := Some Event\<rparr>)"
| e_progress: "op_event s = E_Progress \<Longrightarrow>
    opening_step s (s\<lparr>op_event := E_Dispatch, op_lock := None, op_table_lock := None\<rparr>)"

inductive_cases opening_stepE: "opening_step s t"

inductive opening_reach :: "open_state \<Rightarrow> bool" where
  start: "opening_reach opening_start"
| step: "opening_reach s \<Longrightarrow> opening_step s t \<Longrightarrow> opening_reach t"

section \<open>Lemmas\<close>

lemma holds_popped:
  assumes "message_queue_holds q (b # bufs)" and "messages_heap q a = None"
  obtains p as n where "messages_head q = Some p" "messages_heap q p = Some n" "mq_buffer n = b"
    "linked (messages_heap q) mq_next (mq_next n) as" "distinct (p # as)" "a \<notin> set (p # as)"
    "map (\<lambda>x. map_option mq_buffer (messages_heap q x)) as = map Some bufs"
proof -
  from assms(1) obtain p as n where p: "messages_head q = Some p" "messages_heap q p = Some n" "mq_buffer n = b"
    "linked (messages_heap q) mq_next (mq_next n) as" "distinct (p # as)"
    "map (\<lambda>x. map_option mq_buffer (messages_heap q x)) as = map Some bufs"
    by (auto simp: message_queue_holds_def map_eq_Cons_conv split: option.splits)
  have "a \<notin> set (p # as)" using assms(2) p(2) linked_dom [OF p(4)] by fastforce
  with that p show thesis by blast
qed

text \<open>Who holds the two locks in every state that can be reached.\<close>

definition opening_inv :: "open_state \<Rightarrow> bool" where
  "opening_inv s \<longleftrightarrow>
     (op_lock s = Some Caller \<longleftrightarrow> op_caller s \<in> {C_Test, C_Unlock}) \<and>
     (op_lock s = Some Event \<longleftrightarrow> op_event s \<in> {E_Connected, E_Progress}) \<and>
     (op_table_lock s = Some Caller \<longleftrightarrow> op_caller s \<noteq> C_Done) \<and>
     (op_table_lock s = Some Event \<longleftrightarrow> op_event s \<in> {E_Progress_Lock, E_Progress}) \<and>
     (op_caller s \<in> {C_Woken, C_Unlock, C_Send, C_Done} \<longrightarrow> op_connected s) \<and>
     (op_caller s = C_Wait \<longrightarrow> \<not> op_connected s) \<and>
     (op_network s \<or> op_connected s \<or> op_event s \<in> {E_Connected_Lock, E_Connected})"

lemma opening_inv_start: "opening_inv opening_start"
  by (simp add: opening_inv_def opening_start_def)

lemma opening_inv_step: "opening_inv s \<Longrightarrow> opening_step s t \<Longrightarrow> opening_inv t"
  by (elim opening_stepE) (auto simp: opening_inv_def split: if_splits)

lemma opening_reach_inv: "opening_reach s \<Longrightarrow> opening_inv s"
  by (induction rule: opening_reach.induct) (auto intro: opening_inv_start opening_inv_step)

lemma lock_free:
  assumes "opening_inv s" and "op_lock s \<noteq> Some Event" and "op_caller s \<notin> {C_Test, C_Unlock}"
  shows "op_lock s = None"
  using assms by (cases "op_lock s") (auto simp: opening_inv_def intro: thread.exhaust)

lemma table_free:
  assumes "opening_inv s" and "op_event s \<notin> {E_Progress_Lock, E_Progress}" and "op_caller s = C_Done"
  shows "op_table_lock s = None"
  using assms by (cases "op_table_lock s") (auto simp: opening_inv_def intro: thread.exhaust)

lemma opening_stuck:
  assumes inv: "opening_inv s"
  shows "(\<nexists>t. opening_step s t) \<longleftrightarrow> op_caller s = C_Wait \<and> op_event s = E_Progress_Table"
proof
  assume no: "\<nexists>t. opening_step s t"
  have ev: "op_event s \<noteq> E_Dispatch" "op_event s \<noteq> E_Connected" "op_event s \<noteq> E_Progress"
    using no e_timer e_connected_signal e_progress by blast+
  then have "op_lock s \<noteq> Some Event" using inv by (auto simp: opening_inv_def)
  moreover have ct: "op_caller s \<noteq> C_Test" "op_caller s \<noteq> C_Unlock" using no c_test_connected c_test_wait c_unlock by blast+
  ultimately have "op_lock s = None" using lock_free [OF inv] by blast
  then have c: "op_caller s \<noteq> C_Lock" "op_caller s \<noteq> C_Woken" "op_caller s \<noteq> C_Send"
    "op_event s \<noteq> E_Connected_Lock" "op_event s \<noteq> E_Progress_Lock"
    using no c_lock c_woken c_send e_connected_lock e_progress_lock by blast+
  with ev have e: "op_event s = E_Progress_Table" by (cases "op_event s") simp_all
  then have "op_table_lock s \<noteq> None" using no e_progress_table by blast
  then have "op_caller s \<noteq> C_Done" using table_free [OF inv] e by auto
  with c ct e show "op_caller s = C_Wait \<and> op_event s = E_Progress_Table" by (cases "op_caller s") simp_all
next
  assume a: "op_caller s = C_Wait \<and> op_event s = E_Progress_Table"
  then have "op_table_lock s = Some Caller" using inv by (auto simp: opening_inv_def)
  with a show "\<nexists>t. opening_step s t" by (auto elim!: opening_stepE)
qed







section \<open>Properties\<close>

text \<open>An append is the search for the last node followed by the store of one link.\<close>

theorem enqueue_in_steps:
  assumes "DYNPM_MAX_MESSAGE_SIZE \<le> length buf"
  shows "dynpm_enqueue_send_buffer buf (Some a) q =
    (case tail_search (new_message a buf q) of None \<Rightarrow> None
     | Some (Inl e) \<Rightarrow> Some (Inl e)
     | Some (Inr t) \<Rightarrow> Some (map_sum id (Pair 0) (tail_link a t (new_message a buf q))))"
  using assms
  by (auto simp: dynpm_enqueue_send_buffer_def tail_search_def tail_link_def new_message_def Let_def
      split: option.splits sum.splits)

theorem enqueue_in_steps_witness:
  "dynpm_enqueue_send_buffer example_message (Some 8) example_queue =
    (case tail_search (new_message 8 example_message example_queue) of None \<Rightarrow> None
     | Some (Inl e) \<Rightarrow> Some (Inl e)
     | Some (Inr t) \<Rightarrow> Some (map_sum id (Pair 0) (tail_link 8 t (new_message 8 example_message example_queue))))"
  by (rule enqueue_in_steps) (simp add: example_message_def)

text \<open>C19: When the event thread removes the oldest message between the two steps of an append, the new message
  is lost exactly if the queue held one message; otherwise it is appended as it should be.\<close>

theorem concurrent_pop_loses_message:
  assumes "message_queue_holds q (b # bufs)" and "messages_heap q a = None" and "DYNPM_MAX_MESSAGE_SIZE \<le> length buf"
  shows "\<exists>t q1 q2. tail_search (new_message a buf q) = Some (Inr t) \<and>
    message_pop (new_message a buf q) = Some (b, q1) \<and> tail_link a t q1 = Inr q2 \<and>
    message_queue_holds q2 (if bufs = [] then [] else bufs @ [take DYNPM_MAX_MESSAGE_SIZE buf])"
proof -
  obtain p as n where p: "messages_head q = Some p" "messages_heap q p = Some n" "mq_buffer n = b"
    "linked (messages_heap q) mq_next (mq_next n) as" "distinct (p # as)" "a \<notin> set (p # as)"
    "map (\<lambda>x. map_option mq_buffer (messages_heap q x)) as = map Some bufs"
    using holds_popped [OF assms(1,2)] by metis
  let ?n = "\<lparr>mq_buffer = take DYNPM_MAX_MESSAGE_SIZE buf, mq_next = None\<rparr>"
  let ?h = "(messages_heap q)(a \<mapsto> ?n)"
  have all: "linked ?h mq_next (Some p) (p # as)" using p(2,4,6) by simp
  have ts: "tail_search (new_message a buf q) = Some (Inr (Some (last (p # as))))"
    using find_tail_linked [OF all] p(1) by (simp add: tail_search_def new_message_def)
  obtain k where k: "?h (last (p # as)) = Some k" using linked_dom [OF all] last_in_set by blast
  let ?q1 = "(new_message a buf q)\<lparr>messages_head := mq_next n\<rparr>"
  let ?q2 = "?q1\<lparr>messages_heap := ?h(last (p # as) \<mapsto> k\<lparr>mq_next := Some a\<rparr>)\<rparr>"
  have pop: "message_pop (new_message a buf q) = Some (b, ?q1)"
    using p(1,2,3,6) by (simp add: message_pop_def new_message_def)
  have link: "tail_link a (Some (last (p # as))) ?q1 = Inr ?q2"
    using k by (simp add: tail_link_def new_message_def del: fun_upd_apply)
  have "message_queue_holds ?q2 (if bufs = [] then [] else bufs @ [take DYNPM_MAX_MESSAGE_SIZE buf])"
  proof (cases "as = []")
    case True
    then have "bufs = []" "mq_next n = None" using p(4,7) by simp_all
    then show ?thesis by (simp add: message_queue_holds_def)
  next
    case False
    then have ne: "bufs \<noteq> []" "last (p # as) = last as" using p(7) by auto
    have l: "linked ?h mq_next (mq_next n) as" using p(4,6) by simp
    have "linked (messages_heap ?q2) mq_next (messages_head ?q2) (as @ [a])"
      using mq_nodes.linked_snoc [OF l False _ _ _ _ k [unfolded ne(2)], of a ?n] p(5,6) ne(2) by (simp del: fun_upd_apply add: fun_upd_same)
    moreover have "map (\<lambda>x. map_option mq_buffer (?h x)) as = map Some bufs"
      using p(6,7) by (simp del: fun_upd_apply)
    then have "map (\<lambda>x. map_option mq_buffer (messages_heap ?q2 x)) (as @ [a]) = map Some (bufs @ [take DYNPM_MAX_MESSAGE_SIZE buf])"
      using mq_nodes.items_snoc [where h = ?h and n = ?n, OF False _ _ k [unfolded ne(2)]] p(6) ne(2)
      by (simp del: fun_upd_apply add: fun_upd_same)
    moreover have "distinct (as @ [a])" using p(5,6) by simp
    ultimately show ?thesis unfolding message_queue_holds_def using ne(1) by auto
  qed
  with ts pop link show ?thesis by blast
qed

theorem concurrent_pop_loses_message_witness:
  "\<exists>t q1 q2. tail_search (new_message 8 example_message example_queue) = Some (Inr t) \<and>
    message_pop (new_message 8 example_message example_queue) = Some (example_message, q1) \<and> tail_link 8 t q1 = Inr q2 \<and>
    message_queue_holds q2 []"
  using concurrent_pop_loses_message [OF example_queue_holds, of 8 example_message]
  by (simp add: example_queue_def example_message_def)

text \<open>C18: A call that opens a connection gets stuck exactly when the event thread's timer fires before the
  connection is established: the caller then waits for the connected event with the lock of the table
  held, and the event thread waits for that lock. The example is a state that can be reached, with the
  connected event still to come.\<close>

theorem opening_deadlock:
  assumes "opening_reach s"
  shows "(\<nexists>t. opening_step s t) \<longleftrightarrow> op_caller s = C_Wait \<and> op_event s = E_Progress_Table"
  using opening_stuck [OF opening_reach_inv [OF assms]] .

lemma slow_server:
  "opening_reach (opening_start\<lparr>op_caller := C_Wait, op_lock := None, op_event := E_Progress_Table\<rparr>)"
  using opening_reach.step [OF opening_reach.step [OF opening_reach.step [OF opening_reach.start c_lock] c_test_wait] e_timer]
  by (simp add: opening_start_def)

theorem opening_deadlock_witness: "\<exists>s. opening_reach s \<and> op_network s \<and> (\<nexists>t. opening_step s t)"
  using opening_deadlock [OF slow_server] slow_server
  by (intro exI [of _ "opening_start\<lparr>op_caller := C_Wait, op_lock := None, op_event := E_Progress_Table\<rparr>"])
     (simp add: opening_start_def)




text \<open>A sender that has found its connection open dereferences a null pointer when another thread
  disconnects in between; alone, the two steps are the send function.\<close>

theorem send_disconnect_race:
  assumes "client_inv s" and "\<not> server_connections_mutex s" and "server_entry s index = Inr (Some c)"
  shows "send_check index s = Inr True \<and> dynpm_send_buffer_to_server node buf index s = send_use node buf index s \<and>
    (\<exists>s'. dynpm_disconnect_from_server index s = Inr (0, s') \<and> send_use node buf index s' = Inl Null_Deref)"
proof -
  have init: "dynpm_client_initialized s" using assms(1) by (simp add: client_inv_def)
  note d = disconnect_ok [OF assms]
  from disconnect_inv [OF assms(1,3) d] show ?thesis using d init assms(2,3)
    by (simp add: send_check_def send_use_def dynpm_send_buffer_to_server_def)
qed

theorem send_disconnect_race_witness:
  "\<exists>s'. dynpm_disconnect_from_server 0 example_open = Inr (0, s') \<and> send_use 8 example_message 0 s' = Inl Null_Deref"
  using send_disconnect_race [OF example_open_simps(1,2,4), of 8 example_message] by blast



end
