(* ===== verification/Tbon.thy ===== *)
theory Tbon
  imports Client_Properties
begin

text \<open>
  The tree-based overlay network of \<open>src/network/tbon.c\<close>: the arithmetic that gives each node its
  parent and its children, the initialisation of a vertex from the creation message and the host
  list, the forwarding of a buffer to the children, and the timed waits. The lemmas show that the
  edges each node computes on its own fit together to one spanning tree rooted at node 0.
\<close>

section \<open>Edges\<close>

text \<open>Division of C: truncating, undefined for a zero divisor and for \<open>INT_MIN / -1\<close>.\<close>

definition c_div :: "int \<Rightarrow> int \<Rightarrow> int res" where
  "c_div a b =
     rassert (b \<noteq> 0) Div_By_Zero
       (let q = sgn a * sgn b * (\<bar>a\<bar> div \<bar>b\<bar>) in rassert (int32_ok q) Int_Overflow (Inr q))"

definition c_int :: "int \<Rightarrow> int res" where
  "c_int i = rassert (int32_ok i) Int_Overflow (Inr i)"

text \<open>The loop over \<open>i\<close>, from \<open>i\<close> up to \<open>degree\<close>, with every intermediate value checked.\<close>

fun children_loop :: "int \<Rightarrow> int \<Rightarrow> int \<Rightarrow> nat \<Rightarrow> nat \<Rightarrow> int list res" where
  "children_loop local_id degree tot i 0 = Inr []"
| "children_loop local_id degree tot i (Suc n) =
     rbind (c_int (degree * local_id)) (\<lambda>a.
     rbind (c_int (a + int i)) (\<lambda>b.
     rbind (c_int (b + 1)) (\<lambda>child_id.
     rbind (children_loop local_id degree tot (Suc i) n) (\<lambda>rest.
       Inr ((if child_id \<ge> tot then -1 else child_id) # rest)))))"

definition dynpm_compute_local_tbon_edges :: "int \<Rightarrow> int \<Rightarrow> int \<Rightarrow> (int \<times> int list) res" where
  "dynpm_compute_local_tbon_edges local_id degree tot =
     rbind (if local_id = 0 then Inr (-1)
            else rbind (c_int (local_id - 1)) (\<lambda>a. c_div a degree)) (\<lambda>parent_id.
     rbind (children_loop local_id degree tot 0 (nat degree)) (\<lambda>children_ids.
       Inr (parent_id, children_ids)))"

section \<open>Vertices\<close>

record dynpm_tbon_vertex =
  tv_id :: int
  tv_degree :: int
  tv_nodes :: string
  tv_ready_count :: int
  tv_total_nodes :: int
  tv_local_host :: string
  tv_parent_id :: int
  tv_parent_connection :: "addr option"
  tv_total_children :: int
  tv_children_ids :: "int list"
  tv_children_hosts :: "string list"
  tv_children_connection_indexes :: "int list"
  tv_initialized :: bool
  tv_children_done :: int
  tv_finalized :: bool

text \<open>The search for the own host name: the last match wins; without one \<open>id\<close> stays indeterminate.
  A host array that is too short is read past its end.\<close>

fun find_local_id :: "string \<Rightarrow> string list \<Rightarrow> nat \<Rightarrow> nat \<Rightarrow> int option \<Rightarrow> int option res" where
  "find_local_id me hosts node_id 0 found = Inr found"
| "find_local_id me hosts node_id (Suc n) found =
     (case hosts of [] \<Rightarrow> Inl Out_Of_Bounds
      | h # hs \<Rightarrow> find_local_id me hs (Suc node_id) n (if me = h then Some (int node_id) else found))"

text \<open>
  The second loop pairs the children with their hosts. It reads \<open>children_ids[child_index]\<close> on every
  round and stops once \<open>child_index\<close> reaches the degree; the result is the list of the hosts stored.
\<close>

fun match_children :: "int list \<Rightarrow> int \<Rightarrow> nat \<Rightarrow> nat \<Rightarrow> string list \<Rightarrow> string list res" where
  "match_children ids degree node_id child_index [] = Inr []"
| "match_children ids degree node_id child_index (h # hs) =
     (if child_index < length ids then
        (if int node_id = ids ! child_index then
           (if int (Suc child_index) \<ge> degree then Inr [h]
            else rbind (match_children ids degree (Suc node_id) (Suc child_index) hs) (\<lambda>r. Inr (h # r)))
         else if int child_index \<ge> degree then Inr []
         else match_children ids degree (Suc node_id) child_index hs)
      else Inl Out_Of_Bounds)"

text \<open>
  \<open>dynpm_initialize_tbon_vertex\<close>: \<open>me\<close> is what \<open>gethostname\<close> returned; the connection indexes of the
  children are allocated but not set here (\<open>idx\<close>).
\<close>

definition dynpm_initialize_tbon_vertex ::
    "string \<Rightarrow> int list \<Rightarrow> addr option \<Rightarrow> dynpm_create_tbon_msg \<Rightarrow> string list \<Rightarrow> dynpm_tbon_vertex res" where
  "dynpm_initialize_tbon_vertex me idx connection m host_array =
     (let degree = sint (ct_degree m); tot = sint (ct_total m); n = unat (ct_total m) in
      rbind (find_local_id me host_array 0 n None) (\<lambda>found.
      case found of None \<Rightarrow> Inl Uninitialised
      | Some local_id \<Rightarrow>
          rbind (dynpm_compute_local_tbon_edges local_id degree tot) (\<lambda>(parent_id, children_ids).
          rbind (match_children children_ids degree 0 0 (take n host_array)) (\<lambda>children_hosts.
            Inr \<lparr>tv_id = local_id, tv_degree = degree, tv_nodes = ct_nodes m, tv_ready_count = 0,
                 tv_total_nodes = tot, tv_local_host = me, tv_parent_id = parent_id,
                 tv_parent_connection = connection, tv_total_children = int (length children_hosts),
                 tv_children_ids = children_ids, tv_children_hosts = children_hosts,
                 tv_children_connection_indexes = idx, tv_initialized = False, tv_children_done = 0,
                 tv_finalized = False\<rparr>))))"

section \<open>Forwarding\<close>

text \<open>
  The loop of \<open>dynpm_send_message_to_tbon_children\<close> over the children up to the first unused slot;
  \<open>nodes\<close> are the queue nodes the sends allocate. The first failing send ends it.
\<close>

fun send_to_children :: "addr list \<Rightarrow> buffer \<Rightarrow> int list \<Rightarrow> int list \<Rightarrow> client_state \<Rightarrow> (int \<times> client_state) res" where
  "send_to_children nodes buf [] idx s = Inr (0, s)"
| "send_to_children nodes buf (child # ids) idx s =
     (if child = -1 then Inr (0, s)
      else (case (nodes, idx) of
              (node # nodes', i # idx') \<Rightarrow>
                rbind (dynpm_send_buffer_to_server node buf i s) (\<lambda>(rc, s').
                  if rc \<noteq> 0 then Inr (-1, s') else send_to_children nodes' buf ids idx' s')
            | _ \<Rightarrow> Inl Out_Of_Bounds))"

definition dynpm_send_message_to_tbon_children ::
    "addr list \<Rightarrow> buffer \<Rightarrow> dynpm_tbon_vertex \<Rightarrow> client_state \<Rightarrow> (int \<times> client_state) res" where
  "dynpm_send_message_to_tbon_children nodes buf v s =
     send_to_children nodes buf (take (nat (tv_degree v)) (tv_children_ids v)) (tv_children_connection_indexes v) s"

section \<open>Timed waits\<close>

record timespec =
  tv_sec :: int
  tv_nsec :: int

text \<open>\<open>_create_time_offset\<close>: \<open>sec\<close> and \<open>usec\<close> are what \<open>gettimeofday\<close> returned. The microseconds are
  added to the nanoseconds as they are.\<close>

definition create_time_offset :: "int \<Rightarrow> int \<Rightarrow> int \<Rightarrow> int \<Rightarrow> timespec" where
  "create_time_offset sec usec seconds nanoseconds = \<lparr>tv_sec = sec + seconds, tv_nsec = usec + nanoseconds\<rparr>"

text \<open>Whether a wait function blocks, and until when: \<open>None\<close> is an immediate return.\<close>

definition dynpm_tbon_children_done_wait_timeout ::
    "int \<Rightarrow> int \<Rightarrow> dynpm_tbon_vertex \<Rightarrow> int \<Rightarrow> int \<Rightarrow> timespec option" where
  "dynpm_tbon_children_done_wait_timeout sec usec v seconds nanoseconds =
     (if tv_total_children v > 0 then
        (if tv_children_done v < tv_total_children v
         then Some (create_time_offset sec usec seconds nanoseconds) else None)
      else None)"


definition dynpm_tbon_initialized_wait_timeout ::
    "int \<Rightarrow> int \<Rightarrow> dynpm_tbon_vertex \<Rightarrow> int \<Rightarrow> int \<Rightarrow> timespec option" where
  "dynpm_tbon_initialized_wait_timeout sec usec v seconds nanoseconds =
     (if \<not> tv_initialized v then Some (create_time_offset sec usec seconds nanoseconds) else None)"

section \<open>The tree\<close>

text \<open>\<open>tbon_ok\<close>: a degree and a node count for which no product overflows.\<close>

definition tbon_ok :: "int \<Rightarrow> int \<Rightarrow> bool" where
  "tbon_ok degree tot \<longleftrightarrow> 0 < degree \<and> 0 < tot \<and> degree * tot < 2 ^ 31 \<and> tot < 2 ^ 31"

definition tbon_parent :: "int \<Rightarrow> int \<Rightarrow> int" where
  "tbon_parent degree i = (if i = 0 then -1 else (i - 1) div degree)"

definition tbon_slot :: "int \<Rightarrow> int \<Rightarrow> int \<Rightarrow> nat \<Rightarrow> int" where
  "tbon_slot degree tot i k =
     (if degree * i + int k + 1 \<ge> tot then -1 else degree * i + int k + 1)"

lemma int_div_le: "0 \<le> a \<Longrightarrow> 0 < b \<Longrightarrow> a div b \<le> (a :: int)"
  using zdiv_mono2 [of a 1 b] by simp

lemma c_div_nonneg:
  assumes "0 \<le> a" "0 < b" "a < 2 ^ 31"
  shows "c_div a b = Inr (a div b)"
proof -
  have e: "sgn a * sgn b * (\<bar>a\<bar> div \<bar>b\<bar>) = a div b" using assms by (cases "a = 0") simp_all
  have "0 \<le> a div b" "a div b \<le> a"
    using assms by (simp_all add: pos_imp_zdiv_nonneg_iff int_div_le)
  then show ?thesis unfolding c_div_def Let_def e using assms by (simp add: int32_ok_def)
qed

lemma children_loop_ok:
  assumes "0 < degree" "0 \<le> i" "degree * i + int (k + n) < 2 ^ 31"
  shows "children_loop i degree tot k n = Inr (map (tbon_slot degree tot i) [k..<k + n])"
  using assms(3)
proof (induction n arbitrary: k)
  case 0
  then show ?case by simp
next
  case (Suc n)
  have "0 \<le> degree * i" using assms(1,2) by simp
  with Suc.prems have c: "c_int (degree * i) = Inr (degree * i)" "c_int (degree * i + int k) = Inr (degree * i + int k)"
    "c_int (degree * i + int k + 1) = Inr (degree * i + int k + 1)"
    by (simp_all add: c_int_def int32_ok_def)
  have "[k..<k + Suc n] = k # [Suc k..<Suc k + n]" by (simp add: upt_conv_Cons)
  with Suc c show ?case by (simp add: tbon_slot_def)
qed

theorem compute_edges_ok:
  assumes ok: "tbon_ok degree tot" and i: "0 \<le> i" "i < tot"
  shows "dynpm_compute_local_tbon_edges i degree tot =
           Inr (tbon_parent degree i, map (tbon_slot degree tot i) [0..<nat degree])"
proof -
  have d: "0 < degree" "degree * tot < 2 ^ 31" "tot < 2 ^ 31" using ok by (simp_all add: tbon_ok_def)
  have "degree * i + degree \<le> degree * tot"
    using mult_left_mono [of "i + 1" tot degree] i(2) d(1) by (simp add: distrib_left)
  then have "degree * i + int (0 + nat degree) < 2 ^ 31" using d by simp
  then have c: "children_loop i degree tot 0 (nat degree) = Inr (map (tbon_slot degree tot i) [0..<nat degree])"
    using children_loop_ok [of degree i 0 "nat degree" tot] d(1) i(1) by simp
  have "rbind (c_int (i - 1)) (\<lambda>a. c_div a degree) = Inr ((i - 1) div degree)" if "i \<noteq> 0"
  proof -
    have "0 \<le> i - 1" "i - 1 < 2 ^ 31" using i that d(3) by simp_all
    then show ?thesis using c_div_nonneg [of "i - 1" degree] d(1) by (simp add: c_int_def int32_ok_def)
  qed
  with c show ?thesis by (simp add: dynpm_compute_local_tbon_edges_def tbon_parent_def)
qed

abbreviation tbon_children :: "int \<Rightarrow> int \<Rightarrow> int \<Rightarrow> int list" where
  "tbon_children degree tot i \<equiv> map (tbon_slot degree tot i) [0..<nat degree]"

text \<open>Parent and child agree: a node is among the children its parent computes, and of no other.\<close>

lemma tbon_slot_parent:
  assumes "0 < degree" "0 \<le> i" "k < nat degree" "tbon_slot degree tot i k = j" "j \<noteq> -1"
  shows "j \<noteq> 0 \<and> tbon_parent degree j = i \<and> 0 < j \<and> j < tot"
proof -
  have j: "j = degree * i + int k + 1" "j < tot" using assms(4,5) by (auto simp: tbon_slot_def split: if_splits)
  have "0 \<le> degree * i" using assms(1,2) by simp
  moreover have "(j - 1) div degree = i"
    using j assms(1,3) by (simp add: div_add1_eq [of "degree * i"] nat_less_iff div_pos_pos_trivial)
  ultimately show ?thesis using j by (simp add: tbon_parent_def)
qed

lemma tbon_parent_slot:
  assumes "0 < degree" "0 < j" "j < tot"
  shows "j \<in> set (tbon_children degree tot (tbon_parent degree j)) \<and> 0 \<le> tbon_parent degree j \<and> tbon_parent degree j < j"
proof -
  let ?p = "(j - 1) div degree" and ?k = "nat ((j - 1) mod degree)"
  have k: "int ?k = (j - 1) mod degree" "?k < nat degree" using assms(1) by (simp_all add: nat_less_iff)
  then have "degree * ?p + int ?k + 1 = j" by (simp add: mult_div_mod_eq)
  then have "tbon_slot degree tot ?p ?k = j" using assms(3) by (simp add: tbon_slot_def)
  then have "j \<in> set (tbon_children degree tot ?p)" using k(2) by (auto simp: image_iff intro!: bexI [of _ ?k])
  moreover have "0 \<le> ?p" using assms by (simp add: pos_imp_zdiv_nonneg_iff)
  moreover have "?p \<le> j - 1" using int_div_le [of "j - 1" degree] assms by simp
  ultimately show ?thesis using assms(2) by (simp add: tbon_parent_def)
qed




text \<open>The used slots come first, so a loop that stops at the first \<open>-1\<close> misses no child.\<close>

lemma slots_prefix: "0 < degree \<Longrightarrow> 0 \<le> i \<Longrightarrow>
    filter (\<lambda>c. c \<noteq> -1) (map (tbon_slot degree tot i) [k..<k + n]) =
    takeWhile (\<lambda>c. c \<noteq> -1) (map (tbon_slot degree tot i) [k..<k + n])"
proof (induction n arbitrary: k)
  case 0
  then show ?case by simp
next
  case (Suc n)
  have u: "[k..<k + Suc n] = k # [Suc k..<Suc k + n]" by (simp add: upt_conv_Cons)
  show ?case
  proof (cases "tbon_slot degree tot i k = -1")
    case True
    have "0 \<le> degree * i" using Suc.prems by simp
    then have "tot \<le> degree * i + int k + 1" using True by (auto simp: tbon_slot_def split: if_splits)
    then have "\<forall>m \<ge> k. tbon_slot degree tot i m = -1" by (auto simp: tbon_slot_def)
    then show ?thesis unfolding u using True by (simp add: filter_empty_conv del: upt.simps)
  next
    case False
    then show ?thesis unfolding u using Suc.IH [of "Suc k"] Suc.prems by (simp del: upt.simps)
  qed
qed

section \<open>Initialised vertices\<close>

lemma find_local_id_notin:
  "n \<le> length hosts \<Longrightarrow> me \<notin> set (take n hosts) \<Longrightarrow> find_local_id me hosts k n found = Inr found"
proof (induction n arbitrary: hosts k found)
  case 0
  then show ?case by simp
next
  case (Suc n)
  then show ?case by (cases hosts) auto
qed

lemma find_local_id_unique:
  "n \<le> length hosts \<Longrightarrow> distinct (take n hosts) \<Longrightarrow> j < n \<Longrightarrow> hosts ! j = me \<Longrightarrow>
   find_local_id me hosts k n found = Inr (Some (int (k + j)))"
proof (induction n arbitrary: hosts k j found)
  case 0
  then show ?case by simp
next
  case (Suc n)
  then obtain h hs where h: "hosts = h # hs" by (cases hosts) auto
  show ?case
  proof (cases j)
    case 0
    then have "me \<notin> set (take n hs)" "me = h" using Suc.prems h by auto
    then show ?thesis using h 0 Suc.prems find_local_id_notin [of n hs me "Suc k"] by simp
  next
    case (Suc j')
    then have "find_local_id me hs (Suc k) n (if me = h then Some (int k) else found) = Inr (Some (int (Suc k + j')))"
      using Suc.prems h by (intro Suc.IH) auto
    then show ?thesis using h Suc by simp
  qed
qed

text \<open>The pairing loop visits the children in order: they have consecutive numbers.\<close>

lemma match_children_slots:
  assumes "0 < degree" "0 \<le> i" "0 < tot" "length H = nat tot"
  defines "b \<equiv> nat (degree * i + 1)"
  shows "hs = drop m H \<Longrightarrow> m \<le> nat tot \<Longrightarrow> c < nat degree \<Longrightarrow> m \<le> b + c \<Longrightarrow>
    match_children (tbon_children degree tot i) degree m c hs = Inr (map ((!) H) [b + c..<min (nat tot) (b + nat degree)])"
proof (induction hs arbitrary: m c)
  case Nil
  then show ?case using assms(4) by simp
next
  case (Cons h hs)
  then have m: "m < nat tot" using assms(4) by (cases "m < nat tot") auto
  then have "h # hs = H ! m # drop (Suc m) H" using Cons.prems(1) assms(4) Cons_nth_drop_Suc [of m H] by simp
  then have h: "h = H ! m" "hs = drop (Suc m) H" by simp_all
  have pos: "0 \<le> degree * i" using assms(1,2) by simp
  have id: "tbon_children degree tot i ! c = (if nat tot \<le> b + c then -1 else int (b + c))"
    using Cons.prems(3) pos assms(3) by (auto simp: tbon_slot_def b_def)
  show ?case
  proof (cases "m = b + c")
    case True
    then have eq: "int m = tbon_children degree tot i ! c" using m id by simp
    show ?thesis
    proof (cases "int (Suc c) \<ge> degree")
      case last: True
      then have "nat degree = Suc c" using Cons.prems(3) by simp
      then have "min (nat tot) (b + nat degree) = Suc (b + c)" using True m by simp
      then have "[b + c..<min (nat tot) (b + nat degree)] = [b + c]" by simp
      then show ?thesis using last eq Cons.prems(3) h True by simp
    next
      case False
      then have "Suc c < nat degree" by simp
      then have "match_children (tbon_children degree tot i) degree (Suc m) (Suc c) hs =
          Inr (map ((!) H) [b + Suc c..<min (nat tot) (b + nat degree)])"
        using Cons.IH [of "Suc m" "Suc c"] h m True by simp
      moreover have "[b + c..<min (nat tot) (b + nat degree)] = (b + c) # [b + Suc c..<min (nat tot) (b + nat degree)]"
        using True m Cons.prems(3) by (simp add: upt_conv_Cons)
      ultimately show ?thesis using False eq Cons.prems(3) h True by simp
    qed
  next
    case False
    then have "int m \<noteq> tbon_children degree tot i ! c" using id by simp
    moreover have "\<not> int c \<ge> degree" using Cons.prems(3) by simp
    ultimately show ?thesis
      using Cons.IH [of "Suc m" c] h m False Cons.prems(3,4) by simp
  qed
qed

lemma slots_used:
  assumes "0 < degree" "0 \<le> i" "0 < tot"
  defines "b \<equiv> nat (degree * i + 1)"
  shows "filter (\<lambda>c. c \<noteq> -1) (map (tbon_slot degree tot i) [k..<k + n]) = map int [b + k..<min (nat tot) (b + (k + n))]"
proof (induction n arbitrary: k)
  case 0
  then show ?case by simp
next
  case (Suc n)
  have u: "[k..<k + Suc n] = k # [Suc k..<Suc k + n]" by (simp add: upt_conv_Cons)
  have "0 \<le> degree * i" using assms(1,2) by simp
  then have slot: "tbon_slot degree tot i k = (if nat tot \<le> b + k then -1 else int (b + k))"
    using assms(3) by (auto simp: tbon_slot_def b_def)
  show ?case
  proof (cases "nat tot \<le> b + k")
    case True
    then show ?thesis unfolding u using slot Suc.IH [of "Suc k"] by simp
  next
    case False
    then have "[b + k..<min (nat tot) (b + (k + Suc n))] =
        (b + k) # [b + Suc k..<min (nat tot) (b + (Suc k + n))]" by (simp add: upt_conv_Cons)
    then show ?thesis unfolding u using slot False Suc.IH [of "Suc k"] by simp
  qed
qed

lemma unat_nat_sint:
  assumes "0 \<le> sint (w :: u32)"
  shows "unat w = nat (sint w)"
proof -
  have "uint (word_of_int (sint w) :: u32) = sint w mod 2 ^ 32" by (simp only: uint_word_of_int) simp
  then have "uint w = sint w mod 2 ^ 32" by simp
  moreover have "sint w < 2 ^ 31" using sint_lt [of w] by simp
  ultimately have "uint w = sint w" using assms by simp
  then show ?thesis by (simp flip: nat_uint_eq)
qed

lemma match_children_all:
  assumes "0 < degree" "0 \<le> i" "0 < tot" "length H = nat tot"
  shows "match_children (tbon_children degree tot i) degree 0 0 H =
           Inr (map (\<lambda>c. H ! nat c) (filter (\<lambda>c. c \<noteq> -1) (tbon_children degree tot i)))"
proof -
  have "match_children (tbon_children degree tot i) degree 0 0 H =
      Inr (map ((!) H) [nat (degree * i + 1)..<min (nat tot) (nat (degree * i + 1) + nat degree)])"
    using match_children_slots [OF assms, of H 0 0] assms(1) by simp
  moreover have "filter (\<lambda>c. c \<noteq> -1) (tbon_children degree tot i) =
      map int [nat (degree * i + 1)..<min (nat tot) (nat (degree * i + 1) + nat degree)]"
    using slots_used [OF assms(1-3), of 0 "nat degree"] by simp
  ultimately show ?thesis by (simp add: comp_def)
qed

section \<open>Forwarding\<close>

lemma send_to_children_all:
  assumes "length buf = DYNPM_MAX_MESSAGE_SIZE"
  shows "client_inv s \<Longrightarrow> \<not> server_connections_mutex s \<Longrightarrow> n = length (takeWhile (\<lambda>c. c \<noteq> -1) ids) \<Longrightarrow>
    n \<le> length idx \<Longrightarrow> n \<le> length nodes \<Longrightarrow> distinct (take n idx) \<Longrightarrow> distinct nodes \<Longrightarrow>
    \<forall>a \<in> set nodes. node_fresh s a \<Longrightarrow> \<forall>i \<in> set (take n idx). \<exists>bs. queued s i bs \<Longrightarrow>
    \<exists>s'. send_to_children nodes buf ids idx s = Inr (0, s') \<and> client_inv s' \<and>
         (\<forall>j bs. queued s j bs \<longrightarrow> queued s' j (if j \<in> set (take n idx) then bs @ [buf] else bs))"
proof (induction ids arbitrary: n idx nodes s)
  case Nil
  then show ?case by simp
next
  case (Cons child ids)
  show ?case
  proof (cases "child = -1")
    case True
    then show ?thesis using Cons.prems by simp
  next
    case False
    with Cons.prems obtain m i idx' node nodes' where split: "n = Suc m" "idx = i # idx'" "nodes = node # nodes'"
      and m: "m = length (takeWhile (\<lambda>c. c \<noteq> -1) ids)"
      by (cases idx; cases nodes) auto
    have n: "take n idx = i # take m idx'" using split by simp
    have bi: "\<exists>bi. queued s i bi" using Cons.prems(9) unfolding n by simp
    have node: "node_fresh s node" using Cons.prems(8) split by simp
    obtain s1 where s1: "dynpm_send_buffer_to_server node buf i s = Inr (0, s1)" "client_inv s1"
      "\<not> server_connections_mutex s1" "\<And>j bs. queued s j bs \<Longrightarrow> queued s1 j (if j = i then bs @ [buf] else bs)"
      "\<And>b. b \<noteq> node \<Longrightarrow> node_fresh s b \<Longrightarrow> node_fresh s1 b"
      using send_buffer_queued [OF Cons.prems(1,2) _ node assms, of i] bi by metis
    have fresh: "\<forall>a \<in> set nodes'. node_fresh s1 a" using Cons.prems(7,8) split s1(5) by (metis distinct.simps(2) list.set_intros(2))
    have open_conn: "\<forall>k \<in> set (take m idx'). \<exists>bs. queued s1 k bs" using Cons.prems(9) s1(4) unfolding n by (metis list.set_intros(2))
    have "\<exists>s'. send_to_children nodes' buf ids idx' s1 = Inr (0, s') \<and> client_inv s' \<and>
        (\<forall>j bs. queued s1 j bs \<longrightarrow> queued s' j (if j \<in> set (take m idx') then bs @ [buf] else bs))"
      using Cons.IH [OF s1(2,3) m _ _ _ _ fresh open_conn] Cons.prems(4-7) split n by simp
    then obtain s' where s': "send_to_children nodes' buf ids idx' s1 = Inr (0, s')" "client_inv s'"
      "\<And>j bs. queued s1 j bs \<Longrightarrow> queued s' j (if j \<in> set (take m idx') then bs @ [buf] else bs)" by blast
    have "i \<notin> set (take m idx')" using Cons.prems(6) unfolding n by simp
    then have "queued s' j (if j \<in> set (take n idx) then bs @ [buf] else bs)" if "queued s j bs" for j bs
      using s'(3) [OF s1(4) [OF that]] unfolding n by (cases "j = i") (simp_all split: if_splits)
    then show ?thesis using False split s1(1) s'(1,2) by auto
  qed
qed

section \<open>Properties\<close>

text \<open>C12: A node that occurs once in the host list gets its position as id, the parent of that position, one
  child slot per degree, as many children as there are used slots, and the host of every child.\<close>

theorem initialize_tbon_vertex_tree:
  fixes m :: dynpm_create_tbon_msg
  defines "n \<equiv> unat (ct_total m)" and "degree \<equiv> sint (ct_degree m)" and "tot \<equiv> sint (ct_total m)"
  assumes "tbon_ok degree tot" and "n \<le> length hosts" and "distinct (take n hosts)" and "j < n" and "hosts ! j = me"
  shows "\<exists>v. dynpm_initialize_tbon_vertex me idx connection m hosts = Inr v \<and>
      tv_id v = int j \<and> tv_total_nodes v = tot \<and> tv_parent_id v = tbon_parent degree (int j) \<and>
      tv_children_ids v = tbon_children degree tot (int j) \<and>
      tv_children_hosts v = map (\<lambda>c. hosts ! nat c) (filter (\<lambda>c. c \<noteq> -1) (tv_children_ids v)) \<and>
      tv_total_children v = int (length (filter (\<lambda>c. c \<noteq> -1) (tv_children_ids v)))"
proof -
  have d: "0 < degree" "0 < tot" using assms(4) by (simp_all add: tbon_ok_def)
  then have n: "n = nat tot" using unat_nat_sint [of "ct_total m"] by (simp add: n_def tot_def)
  then have j: "0 \<le> int j" "int j < tot" using assms(7) by simp_all
  have f: "find_local_id me hosts 0 n None = Inr (Some (int j))" using find_local_id_unique [OF assms(5-8)] by simp
  have "nat (tbon_slot degree tot (int j) k) < nat tot" if "k < nat degree" "tbon_slot degree tot (int j) k \<noteq> -1" for k
    using tbon_slot_parent [OF d(1) j(1) that(1) refl that(2)] by simp
  then have c: "map (\<lambda>c. take n hosts ! nat c) (filter (\<lambda>c. c \<noteq> -1) (tbon_children degree tot (int j))) =
      map (\<lambda>c. hosts ! nat c) (filter (\<lambda>c. c \<noteq> -1) (tbon_children degree tot (int j)))"
    by (auto simp: n)
  show ?thesis
    using f compute_edges_ok [OF assms(4) j] match_children_all [OF d(1) j(1) d(2), of "take n hosts"] n assms(5) c
    unfolding dynpm_initialize_tbon_vertex_def Let_def n_def [symmetric] degree_def [symmetric] tot_def [symmetric]
    by simp
qed

theorem initialize_tbon_vertex_tree_witness:
  "\<exists>v. dynpm_initialize_tbon_vertex ''b'' [] None \<lparr>ct_id = 1, ct_degree = 2, ct_total = 5, ct_nodes = ''[a-e]''\<rparr>
          [''a'', ''b'', ''c'', ''d'', ''e''] = Inr v \<and>
       tv_id v = 1 \<and> tv_parent_id v = 0 \<and> tv_children_ids v = [3, 4] \<and> tv_children_hosts v = [''d'', ''e''] \<and>
       tv_total_children v = 2"
  using initialize_tbon_vertex_tree [of "\<lparr>ct_id = 1, ct_degree = 2, ct_total = 5, ct_nodes = ''[a-e]''\<rparr>"
      "[''a'', ''b'', ''c'', ''d'', ''e'']" 1 "''b''" "[]" None]
  by (auto simp: tbon_ok_def tbon_parent_def tbon_slot_def upt_rec)

text \<open>C13: Forwarding a message sends it once to every child of a vertex whose connections are open, behind what
  their queues already hold, and touches no other connection.\<close>

theorem send_message_to_tbon_children_all:
  assumes "length buf = DYNPM_MAX_MESSAGE_SIZE" and "client_inv s" and "\<not> server_connections_mutex s"
    and "tv_children_ids v = tbon_children (tv_degree v) (tv_total_nodes v) (tv_id v)"
    and "0 < tv_degree v" and "0 \<le> tv_id v"
    and "n = length (filter (\<lambda>c. c \<noteq> -1) (tv_children_ids v))"
    and "n \<le> length (tv_children_connection_indexes v)" and "n \<le> length nodes"
    and "distinct (take n (tv_children_connection_indexes v))" and "distinct nodes"
    and "\<forall>a \<in> set nodes. node_fresh s a"
    and "\<forall>i \<in> set (take n (tv_children_connection_indexes v)). \<exists>bs. queued s i bs"
  shows "\<exists>s'. dynpm_send_message_to_tbon_children nodes buf v s = Inr (0, s') \<and> client_inv s' \<and>
      (\<forall>j bs. queued s j bs \<longrightarrow>
         queued s' j (if j \<in> set (take n (tv_children_connection_indexes v)) then bs @ [buf] else bs))"
proof -
  have "n = length (takeWhile (\<lambda>c. c \<noteq> -1) (tv_children_ids v))"
    unfolding assms(7,4) using slots_prefix [OF assms(5,6), of "tv_total_nodes v" 0 "nat (tv_degree v)"] by (simp only: add_0)
  then show ?thesis
    using send_to_children_all [OF assms(1-3) _ assms(8-13)] assms(4) by (simp add: dynpm_send_message_to_tbon_children_def)
qed

definition example_vertex :: dynpm_tbon_vertex where
  "example_vertex =
     \<lparr>tv_id = 0, tv_degree = 2, tv_nodes = ''[a-b]'', tv_ready_count = 0, tv_total_nodes = 2, tv_local_host = ''a'',
      tv_parent_id = -1, tv_parent_connection = None, tv_total_children = 1, tv_children_ids = [1, -1],
      tv_children_hosts = [''b''], tv_children_connection_indexes = [0, 17], tv_initialized = False,
      tv_children_done = 0, tv_finalized = False\<rparr>"

theorem send_message_to_tbon_children_all_witness:
  "\<exists>s'. dynpm_send_message_to_tbon_children [8] example_message example_vertex example_open = Inr (0, s') \<and>
        client_inv s' \<and> queued s' 0 [example_message, example_message]"
proof -
  have c: "tv_children_ids example_vertex =
      tbon_children (tv_degree example_vertex) (tv_total_nodes example_vertex) (tv_id example_vertex)"
    by (simp add: example_vertex_def tbon_slot_def upt_rec)
  have "\<exists>s'. dynpm_send_message_to_tbon_children [8] example_message example_vertex example_open = Inr (0, s') \<and>
      client_inv s' \<and> (\<forall>j bs. queued example_open j bs \<longrightarrow>
        queued s' j (if j \<in> set (take 1 (tv_children_connection_indexes example_vertex)) then bs @ [example_message] else bs))"
    by (rule send_message_to_tbon_children_all [OF _ _ _ c]) (auto simp: example_vertex_def example_message_def [symmetric]
        intro: example_open_simps(3), simp add: example_message_def)
  then obtain s' where s': "dynpm_send_message_to_tbon_children [8] example_message example_vertex example_open = Inr (0, s')"
    "client_inv s'" "\<forall>j bs. queued example_open j bs \<longrightarrow>
       queued s' j (if j \<in> set (take 1 (tv_children_connection_indexes example_vertex)) then bs @ [example_message] else bs)"
    by blast
  have "queued s' 0 ([example_message] @ [example_message])"
    using s'(3) [rule_format, OF example_open_simps(3)] by (simp add: example_vertex_def)
  with s'(1,2) show ?thesis by auto
qed

text \<open>C10: The nodes agree on the edges although each computes them alone: for every node but the root, the parent
  it computes is a node with a smaller id, which in turn counts it among its children; and whoever
  counts it among its children is the parent it computes.\<close>

theorem tbon_edges_agree:
  assumes "tbon_ok degree tot" and "0 < j" and "j < tot"
  shows "\<exists>p cs. dynpm_compute_local_tbon_edges j degree tot = Inr (p, cs) \<and> 0 \<le> p \<and> p < j \<and>
     (\<forall>i q ds. 0 \<le> i \<longrightarrow> i < tot \<longrightarrow> dynpm_compute_local_tbon_edges i degree tot = Inr (q, ds) \<longrightarrow>
        (j \<in> set ds \<longleftrightarrow> i = p))"
proof -
  have d: "0 < degree" using assms(1) by (simp add: tbon_ok_def)
  note ps = tbon_parent_slot [OF d assms(2,3)]
  have "j \<in> set ds \<longleftrightarrow> i = tbon_parent degree j"
    if i: "0 \<le> i" "i < tot" and e: "dynpm_compute_local_tbon_edges i degree tot = Inr (q, ds)" for i q ds
  proof -
    have ds: "ds = tbon_children degree tot i" using e compute_edges_ok [OF assms(1) i] by simp
    show ?thesis
    proof
      assume "j \<in> set ds"
      then obtain k where "k < nat degree" "tbon_slot degree tot i k = j" using ds by auto
      then show "i = tbon_parent degree j" using tbon_slot_parent [OF d i(1)] assms(2) by force
    next
      assume "i = tbon_parent degree j"
      then show "j \<in> set ds" using ps ds by simp
    qed
  qed
  then show ?thesis using compute_edges_ok [OF assms(1), of j] assms(2,3) ps by (intro exI conjI) auto
qed

theorem tbon_edges_agree_witness:
  "\<exists>p cs. dynpm_compute_local_tbon_edges 4 3 9 = Inr (p, cs) \<and> 0 \<le> p \<and> p < 4 \<and> p \<noteq> 0"
proof -
  have "dynpm_compute_local_tbon_edges 0 3 9 = Inr (-1, [1, 2, 3])"
    using compute_edges_ok [of 3 9 0] by (simp add: tbon_ok_def tbon_parent_def tbon_slot_def upt_rec)
  then show ?thesis using tbon_edges_agree [of 3 9 4] by (force simp: tbon_ok_def)
qed



text \<open>A degree or a node count for which \<open>degree * id\<close> leaves the range of an \<open>int\<close> makes the edge computation
  overflow.\<close>

theorem tbon_edges_overflow:
  assumes "0 < degree" and "2 ^ 31 \<le> degree * i" and "0 < i" and "i < 2 ^ 31"
  shows "dynpm_compute_local_tbon_edges i degree tot = Inl Int_Overflow"
proof -
  obtain n where "nat degree = Suc n" using assms(1) by (cases "nat degree") auto
  moreover have "c_div (i - 1) degree = Inr ((i - 1) div degree)" using assms by (intro c_div_nonneg) auto
  ultimately show ?thesis using assms
    by (simp add: dynpm_compute_local_tbon_edges_def c_int_def int32_ok_def)
qed

theorem tbon_edges_overflow_witness: "dynpm_compute_local_tbon_edges 100000 50000 200000 = Inl Int_Overflow"
  by (rule tbon_edges_overflow) simp_all



end
