(* ===== verification/Work_Pool.thy ===== *)
theory Work_Pool
  imports Fifo
begin

text \<open>
  The thread pool of \<open>src/network/queue.c\<close>: workers that take units off the linked work queue under its
  mutex, sleep on its condition variable, and end when \<open>dynpm_work_queue_finalize\<close> tells them to. One
  step is one critical section, so that steps interleave as the mutex allows; \<open>pthread_cond_signal\<close>
  wakes any one sleeper and sleepers may wake without a signal. The invariant gives the order in
  which jobs start, the absence of lost wake-ups, and what finalisation does.
\<close>

section \<open>State\<close>

text \<open>Where a worker is: about to lock the mutex at the top of its loop, asleep in \<open>pthread_cond_wait\<close>,
  woken and about to get the mutex back, running a job, or gone.\<close>

datatype 'j worker_phase = Locking | Sleeping | Woken | Running 'j | Gone

record 'j worker =
  w_phase :: "'j worker_phase"
  w_terminate :: bool

text \<open>\<open>p_submitted\<close> and \<open>p_started\<close> record the jobs added and the jobs begun so far; \<open>p_finalized\<close> that
  the workers have been told to end.\<close>

record 'j pool =
  p_queue :: "'j work_list"
  p_workers :: "'j worker list"
  p_submitted :: "'j list"
  p_started :: "'j list"
  p_finalized :: bool

section \<open>Operations\<close>

text \<open>The loop of \<open>dynpm_work_queue_init\<close>: \<open>oks\<close> says for each worker whether its allocation and thread
  creation succeed; the first failure ends the loop with code 1.\<close>

fun start_workers :: "nat \<Rightarrow> bool list \<Rightarrow> int \<times> nat" where
  "start_workers 0 oks = (0, 0)"
| "start_workers (Suc n) oks =
     (case oks of True # oks' \<Rightarrow> (let (rc, k) = start_workers n oks' in (rc, Suc k)) | _ \<Rightarrow> (1, 0))"

definition dynpm_work_queue_init :: "bool \<Rightarrow> bool \<Rightarrow> bool list \<Rightarrow> int \<Rightarrow> int \<times> 'j pool option" where
  "dynpm_work_queue_init mutex_ok cond_ok oks thread_count =
     (if thread_count < 1 \<or> \<not> mutex_ok \<or> \<not> cond_ok then (-1, None)
      else (let (rc, k) = start_workers (nat thread_count) oks
            in (rc, Some \<lparr>p_queue = \<lparr>wl_heap = Map.empty, wl_units = None\<rparr>,
                          p_workers = replicate k \<lparr>w_phase = Locking, w_terminate = False\<rparr>,
                          p_submitted = [], p_started = [], p_finalized = False\<rparr>)))"

definition set_worker :: "nat \<Rightarrow> 'j worker_phase \<Rightarrow> 'j pool \<Rightarrow> 'j pool" where
  "set_worker i ph s = s\<lparr>p_workers := (p_workers s)[i := (p_workers s ! i)\<lparr>w_phase := ph\<rparr>]\<rparr>"

text \<open>The critical section of \<open>queue_thread\<close>, entered from the top of the loop or from the wait.\<close>

definition worker_section :: "nat \<Rightarrow> 'j pool \<Rightarrow> 'j pool" where
  "worker_section i s =
     (if wl_units (p_queue s) = None then
        (if w_terminate (p_workers s ! i) then set_worker i Gone s else set_worker i Sleeping s)
      else if w_terminate (p_workers s ! i) then set_worker i Gone s
      else (case take_work (p_queue s) of None \<Rightarrow> s
            | Some (j, q) \<Rightarrow> set_worker i (Running j) (s\<lparr>p_queue := q, p_started := p_started s @ [j]\<rparr>)))"

text \<open>\<open>pthread_cond_signal\<close> wakes one sleeper, here \<open>i\<close>.\<close>

definition asleep :: "'j pool \<Rightarrow> nat \<Rightarrow> bool" where
  "asleep s i \<longleftrightarrow> i < length (p_workers s) \<and> w_phase (p_workers s ! i) = Sleeping"

definition signal_worker :: "nat \<Rightarrow> 'j pool \<Rightarrow> 'j pool" where
  "signal_worker i s = (if asleep s i then set_worker i Woken s else s)"

text \<open>\<open>dynpm_work_queue_finalize\<close>: every worker is told to end, the queue is emptied, all sleepers wake.\<close>

definition wake :: "'j worker \<Rightarrow> 'j worker" where
  "wake w = (if w_phase w = Sleeping then w\<lparr>w_phase := Woken\<rparr> else w)"

definition dynpm_work_queue_finalize :: "'j pool \<Rightarrow> 'j pool" where
  "dynpm_work_queue_finalize s =
     s\<lparr>p_workers := map (\<lambda>w. wake (w\<lparr>w_terminate := True\<rparr>)) (p_workers s),
       p_queue := (p_queue s)\<lparr>wl_units := None\<rparr>, p_finalized := True\<rparr>"

section \<open>Steps\<close>

text \<open>The signal of a submission reaches a sleeper whenever there is one.\<close>

inductive pool_step :: "'j pool \<Rightarrow> 'j pool \<Rightarrow> bool" where
  submit: "wl_heap (p_queue s) u = None \<Longrightarrow> submit_work j g u (p_queue s) = Some (Inr q) \<Longrightarrow>
     (\<exists>k. asleep s k) \<longrightarrow> asleep s i \<Longrightarrow>
     pool_step s (signal_worker i (s\<lparr>p_queue := q, p_submitted := p_submitted s @ [j]\<rparr>))"
| section_step: "i < length (p_workers s) \<Longrightarrow> w_phase (p_workers s ! i) \<in> {Locking, Woken} \<Longrightarrow>
     pool_step s (worker_section i s)"
| finish: "i < length (p_workers s) \<Longrightarrow> w_phase (p_workers s ! i) = Running j \<Longrightarrow> pool_step s (set_worker i Locking s)"
| spurious: "asleep s i \<Longrightarrow> pool_step s (set_worker i Woken s)"
| finalize: "pool_step s (dynpm_work_queue_finalize s)"

inductive_cases pool_stepE: "pool_step s t"

inductive pool_reach :: "'j pool \<Rightarrow> 'j pool \<Rightarrow> bool" for s where
  start: "pool_reach s s"
| step: "pool_reach s t \<Longrightarrow> pool_step t u \<Longrightarrow> pool_reach s u"

section \<open>The invariant\<close>

definition awake :: "'j worker \<Rightarrow> bool" where
  "awake w \<longleftrightarrow> w_phase w = Locking \<or> w_phase w = Woken"

definition awake_count :: "'j pool \<Rightarrow> nat" where
  "awake_count s = length (filter awake (p_workers s))"

text \<open>
  The queue holds what was submitted and not yet started, until finalisation empties it; a worker is
  asleep only while the workers on their way to the queue suffice for what it holds; finalisation
  reaches every worker, and its order to end is never taken back.
\<close>

definition pool_inv :: "'j pool \<Rightarrow> bool" where
  "pool_inv s \<longleftrightarrow>
     (\<exists>js. work_list_holds (p_queue s) js \<and>
           (\<not> p_finalized s \<longrightarrow> p_submitted s = p_started s @ js) \<and>
           ((\<exists>i. asleep s i) \<longrightarrow> length js \<le> awake_count s)) \<and>
     (\<forall>w \<in> set (p_workers s). w_terminate w = p_finalized s) \<and>
     (p_finalized s \<longrightarrow> (\<forall>w \<in> set (p_workers s). w_phase w \<noteq> Sleeping))"

lemma filter_count_upd:
  "i < length xs \<Longrightarrow>
   length (filter P (xs[i := v])) + of_bool (P (xs ! i)) = length (filter P xs) + (of_bool (P v) :: nat)"
proof (induction xs arbitrary: i)
  case Nil
  then show ?case by simp
next
  case (Cons x xs)
  show ?case
  proof (cases i)
    case 0
    then show ?thesis by simp
  next
    case (Suc k)
    then show ?thesis using Cons.IH [of k] Cons.prems by simp
  qed
qed

lemma awake_count_set_worker:
  "i < length (p_workers s) \<Longrightarrow>
   awake_count (set_worker i ph s) + of_bool (awake (p_workers s ! i)) =
   awake_count s + of_bool (ph = Locking \<or> ph = Woken)"
  unfolding awake_count_def set_worker_def using filter_count_upd [of i "p_workers s" awake]
  by (simp add: awake_def)

lemma set_worker_simps [simp]:
  "p_queue (set_worker i ph s) = p_queue s" "p_submitted (set_worker i ph s) = p_submitted s"
  "p_started (set_worker i ph s) = p_started s" "p_finalized (set_worker i ph s) = p_finalized s"
  "length (p_workers (set_worker i ph s)) = length (p_workers s)"
  by (simp_all add: set_worker_def)

lemma asleep_set_worker:
  "asleep (set_worker i ph s) k \<longleftrightarrow> (if k = i then i < length (p_workers s) \<and> ph = Sleeping else asleep s k)"
  by (auto simp: asleep_def set_worker_def nth_list_update)

lemma asleep_queue [simp]:
  "asleep (s\<lparr>p_queue := q, p_submitted := a\<rparr>) k = asleep s k" "asleep (s\<lparr>p_queue := q, p_started := a\<rparr>) k = asleep s k"
  "awake_count (s\<lparr>p_queue := q, p_submitted := a\<rparr>) = awake_count s"
  "awake_count (s\<lparr>p_queue := q, p_started := a\<rparr>) = awake_count s"
  by (simp_all add: asleep_def awake_count_def)

text \<open>Workers keep their orders, and a finalised pool has no sleepers, when one worker changes phase.\<close>

definition workers_ok :: "'j pool \<Rightarrow> bool" where
  "workers_ok s \<longleftrightarrow>
     (\<forall>w \<in> set (p_workers s). w_terminate w = p_finalized s) \<and>
     (p_finalized s \<longrightarrow> (\<forall>w \<in> set (p_workers s). w_phase w \<noteq> Sleeping))"

lemma workers_ok_set:
  assumes "workers_ok s" and "i < length (p_workers s)" and "p_finalized s \<longrightarrow> ph \<noteq> Sleeping"
  shows "workers_ok (set_worker i ph s)"
  using assms set_update_subset_insert [of "p_workers s" i "(p_workers s ! i)\<lparr>w_phase := ph\<rparr>"]
  by (fastforce simp: workers_ok_def set_worker_def)

lemma workers_ok_queue [simp]:
  "workers_ok (s\<lparr>p_queue := q, p_submitted := a\<rparr>) = workers_ok s" "workers_ok (s\<lparr>p_queue := q, p_started := a\<rparr>) = workers_ok s"
  by (simp_all add: workers_ok_def)

definition queue_ok :: "'j pool \<Rightarrow> 'j list \<Rightarrow> bool" where
  "queue_ok s js \<longleftrightarrow>
     work_list_holds (p_queue s) js \<and> (\<not> p_finalized s \<longrightarrow> p_submitted s = p_started s @ js) \<and>
     ((\<exists>i. asleep s i) \<longrightarrow> length js \<le> awake_count s)"

lemma pool_inv_eq: "pool_inv s \<longleftrightarrow> (\<exists>js. queue_ok s js) \<and> workers_ok s"
  by (simp add: pool_inv_def queue_ok_def workers_ok_def)

lemma work_list_empty: "work_list_holds q js \<Longrightarrow> wl_units q = None \<longleftrightarrow> js = []"
  by (cases js) (auto simp: work_list_holds_def)

section \<open>The invariant is kept\<close>

lemma signal_inv:
  assumes "work_list_holds q (js @ [j])" and "queue_ok s js" and "workers_ok s"
    and "(\<exists>k. asleep s k) \<longrightarrow> asleep s i"
  shows "pool_inv (signal_worker i (s\<lparr>p_queue := q, p_submitted := p_submitted s @ [j]\<rparr>))"
proof (cases "asleep s i")
  case True
  let ?s = "s\<lparr>p_queue := q, p_submitted := p_submitted s @ [j]\<rparr>"
  have i: "i < length (p_workers ?s)" "\<not> awake (p_workers ?s ! i)" using True by (auto simp: asleep_def awake_def)
  then have "awake_count (set_worker i Woken ?s) = Suc (awake_count s)"
    using awake_count_set_worker [OF i(1), of Woken] by simp
  then have "queue_ok (set_worker i Woken ?s) (js @ [j])" using assms(1,2) True by (auto simp: queue_ok_def)
  moreover have "workers_ok (set_worker i Woken ?s)" using workers_ok_set [OF _ i(1)] assms(3) by simp
  moreover have "signal_worker i ?s = set_worker i Woken ?s" using True by (simp add: signal_worker_def)
  ultimately show ?thesis unfolding pool_inv_eq by metis
next
  case False
  then have "\<not> (\<exists>k. asleep s k)" using assms(4) by blast
  then have "queue_ok (s\<lparr>p_queue := q, p_submitted := p_submitted s @ [j]\<rparr>) (js @ [j])"
    using assms(1,2) by (simp add: queue_ok_def)
  then show ?thesis using False assms(3) by (auto simp: pool_inv_eq signal_worker_def)
qed

lemma worker_section_inv:
  assumes q: "queue_ok s js" and w: "workers_ok s" and i: "i < length (p_workers s)"
    and ph: "w_phase (p_workers s ! i) \<in> {Locking, Woken}"
  shows "pool_inv (worker_section i s)"
proof -
  have aw: "awake (p_workers s ! i)" using ph by (auto simp: awake_def)
  have t: "w_terminate (p_workers s ! i) = p_finalized s" using w i by (simp add: workers_ok_def)
  show ?thesis
  proof (cases "p_finalized s")
    case True
    then have g: "worker_section i s = set_worker i Gone s" using t by (simp add: worker_section_def)
    have "\<not> asleep s k" for k using w True by (auto simp: workers_ok_def asleep_def)
    then have "queue_ok (set_worker i Gone s) js" using q True by (auto simp: queue_ok_def asleep_set_worker)
    then show ?thesis using g workers_ok_set [OF w i] by (auto simp: pool_inv_eq)
  next
    case False
    show ?thesis
    proof (cases js)
      case Nil
      then have g: "worker_section i s = set_worker i Sleeping s"
        using t False work_list_empty [of "p_queue s" js] q by (simp add: worker_section_def queue_ok_def)
      have "queue_ok (set_worker i Sleeping s) js" using q Nil by (auto simp: queue_ok_def)
      then show ?thesis using g workers_ok_set [OF w i] False by (auto simp: pool_inv_eq)
    next
      case (Cons j ks)
      then obtain q' where q': "take_work (p_queue s) = Some (j, q')" "work_list_holds q' ks"
        using wl.deq_head [of "p_queue s" j ks] q by (auto simp: queue_ok_def)
      let ?s = "s\<lparr>p_queue := q', p_started := p_started s @ [j]\<rparr>"
      have "wl_units (p_queue s) \<noteq> None" using work_list_empty [of "p_queue s" js] q Cons by (simp add: queue_ok_def)
      then have g: "worker_section i s = set_worker i (Running j) ?s"
        using t False q'(1) by (auto simp: worker_section_def)
      have i': "i < length (p_workers ?s)" using i by simp
      have "Suc (awake_count (set_worker i (Running j) ?s)) = awake_count s"
        using awake_count_set_worker [OF i', of "Running j"] aw by simp
      then have "queue_ok (set_worker i (Running j) ?s) ks"
        using q q'(2) Cons by (auto simp: queue_ok_def asleep_set_worker split: if_splits)
      then show ?thesis using g workers_ok_set [OF _ i', of "Running j"] w by (auto simp: pool_inv_eq)
    qed
  qed
qed

lemma set_worker_awake_inv:
  assumes "queue_ok s js" and "workers_ok s" and "i < length (p_workers s)" and "\<not> awake (p_workers s ! i)"
    and "ph = Locking \<or> ph = Woken"
  shows "pool_inv (set_worker i ph s)"
proof -
  have "awake_count (set_worker i ph s) = Suc (awake_count s)"
    using awake_count_set_worker [OF assms(3), of ph] assms(4,5) by auto
  then have "queue_ok (set_worker i ph s) js"
    using assms(1,5) by (auto simp: queue_ok_def asleep_set_worker split: if_splits)
  moreover have "workers_ok (set_worker i ph s)" using workers_ok_set [OF assms(2,3), of ph] assms(5) by auto
  ultimately show ?thesis by (auto simp: pool_inv_eq)
qed

lemma finalize_inv: "pool_inv (dynpm_work_queue_finalize s)"
proof -
  have "work_list_holds ((p_queue s)\<lparr>wl_units := None\<rparr>) []" by (simp add: work_list_holds_def)
  then have "queue_ok (dynpm_work_queue_finalize s) []" by (simp add: queue_ok_def dynpm_work_queue_finalize_def)
  moreover have "workers_ok (dynpm_work_queue_finalize s)"
    by (auto simp: workers_ok_def dynpm_work_queue_finalize_def wake_def)
  ultimately show ?thesis by (auto simp: pool_inv_eq)
qed

lemma pool_step_inv: "pool_step s t \<Longrightarrow> pool_inv s \<Longrightarrow> pool_inv t"
proof (induction rule: pool_step.induct)
  case (submit s u j g q i)
  then obtain js where js: "queue_ok s js" "workers_ok s" by (auto simp: pool_inv_eq)
  then have "work_list_holds q (js @ [j])"
    using submit_work_holds [of "p_queue s" js u j g] submit.hyps(1,2) by (auto simp: queue_ok_def)
  then show ?case using js submit.hyps(3) by (rule signal_inv)
next
  case (section_step i s)
  then show ?case using worker_section_inv by (auto simp: pool_inv_eq)
next
  case (finish i s j)
  then show ?case using set_worker_awake_inv [of s _ i Locking] by (auto simp: pool_inv_eq awake_def)
next
  case (spurious s i)
  then show ?case using set_worker_awake_inv [of s _ i Woken] by (auto simp: pool_inv_eq awake_def asleep_def)
next
  case (finalize s)
  show ?case by (rule finalize_inv)
qed

lemma init_inv:
  "dynpm_work_queue_init mutex_ok cond_ok oks n = (rc, Some s) \<Longrightarrow> pool_inv s"
  by (auto simp: dynpm_work_queue_init_def pool_inv_def work_list_holds_def asleep_def split: if_splits prod.splits)

lemma pool_reach_inv: "pool_reach s t \<Longrightarrow> pool_inv s \<Longrightarrow> pool_inv t"
  by (induction rule: pool_reach.induct) (auto intro: pool_step_inv)

lemma finalized_stays: "pool_step s t \<Longrightarrow> p_finalized s \<Longrightarrow> p_finalized t"
  by (erule pool_stepE) (auto simp: signal_worker_def worker_section_def dynpm_work_queue_finalize_def split: option.splits)

lemma finalized_starts_nothing:
  assumes "pool_step s t" and "p_finalized s" and "pool_inv s"
  shows "p_started t = p_started s"
  using assms(1)
proof (rule pool_stepE)
  fix i
  assume t: "t = worker_section i s" and i: "i < length (p_workers s)"
  have "w_terminate (p_workers s ! i)" using assms(2,3) i by (auto simp: pool_inv_def)
  then show ?thesis using t by (simp add: worker_section_def)
qed (auto simp: signal_worker_def dynpm_work_queue_finalize_def)

section \<open>Properties\<close>

text \<open>C3: However the workers are scheduled, until the pool is finalised the jobs start in the order in which they
  were added, each once, and what has been added and not started is exactly what the linked queue
  holds.\<close>

theorem pool_fifo_order:
  assumes "dynpm_work_queue_init mutex_ok cond_ok oks n = (rc, Some s)" and "pool_reach s t" and "\<not> p_finalized t"
  shows "\<exists>js. p_submitted t = p_started t @ js \<and> work_list_holds (p_queue t) js"
  using pool_reach_inv [OF assms(2) init_inv [OF assms(1)]] assms(3) by (auto simp: pool_inv_def)

definition example_pool :: "nat pool" where
  "example_pool = the (snd (dynpm_work_queue_init True True [True, True] 2))"

lemma example_pool_init: "dynpm_work_queue_init True True [True, True] 2 = (0, Some example_pool)"
  by (simp add: dynpm_work_queue_init_def example_pool_def numeral_2_eq_2)

theorem pool_fifo_order_witness:
  "\<exists>js. p_submitted example_pool = p_started example_pool @ js \<and> work_list_holds (p_queue example_pool) js"
  using pool_fifo_order [OF example_pool_init pool_reach.start]
  by (simp add: example_pool_def dynpm_work_queue_init_def numeral_2_eq_2)

text \<open>C21: No wake-up is lost: whenever all workers sleep, every job that was ever added has been started.\<close>

theorem pool_no_lost_wakeup:
  assumes "dynpm_work_queue_init mutex_ok cond_ok oks n = (rc, Some s)" and "pool_reach s t"
    and "p_workers t \<noteq> []" and "\<forall>w \<in> set (p_workers t). w_phase w = Sleeping"
  shows "p_started t = p_submitted t"
proof -
  have inv: "pool_inv t" using pool_reach_inv [OF assms(2) init_inv [OF assms(1)]] .
  then have "\<not> p_finalized t" using assms(3,4) by (auto simp: pool_inv_def neq_Nil_conv)
  moreover have "asleep t 0" using assms(3,4) by (simp add: asleep_def)
  moreover have "awake_count t = 0" using assms(4) by (simp add: awake_count_def awake_def filter_empty_conv)
  ultimately show ?thesis using inv by (auto simp: pool_inv_def)
qed

definition example_asleep :: "nat pool" where
  "example_asleep = worker_section 1 (worker_section 0 example_pool)"

theorem pool_no_lost_wakeup_witness: "p_started example_asleep = p_submitted example_asleep"
proof -
  have e: "example_pool = \<lparr>p_queue = \<lparr>wl_heap = Map.empty, wl_units = None\<rparr>,
      p_workers = [\<lparr>w_phase = Locking, w_terminate = False\<rparr>, \<lparr>w_phase = Locking, w_terminate = False\<rparr>],
      p_submitted = [], p_started = [], p_finalized = False\<rparr>"
    by (simp add: example_pool_def dynpm_work_queue_init_def numeral_2_eq_2)
  have "pool_step example_pool (worker_section 0 example_pool)"
    by (rule pool_step.section_step) (simp_all add: e)
  moreover have "pool_step (worker_section 0 example_pool) example_asleep"
    unfolding example_asleep_def by (rule pool_step.section_step) (simp_all add: e worker_section_def set_worker_def)
  ultimately have "pool_reach example_pool example_asleep"
    using pool_reach.start pool_reach.step by metis
  then show ?thesis
    using pool_no_lost_wakeup [OF example_pool_init]
    by (simp add: example_asleep_def e worker_section_def set_worker_def)
qed

text \<open>Finalisation discards the queue for good: jobs still queued, and jobs added later, are never started, and
  every worker ends the next time it holds the mutex.\<close>

theorem pool_finalize_discards:
  assumes "pool_reach (dynpm_work_queue_finalize s) t"
  shows "p_started t = p_started s \<and>
         (\<forall>i < length (p_workers t). w_phase (p_workers (worker_section i t) ! i) = Gone)"
proof -
  have "p_finalized t \<and> pool_inv t \<and> p_started t = p_started s" using assms
  proof (induction rule: pool_reach.induct)
    case start
    then show ?case using finalize_inv [of s] by (simp add: dynpm_work_queue_finalize_def)
  next
    case (step t u)
    then show ?case using finalized_stays pool_step_inv finalized_starts_nothing by metis
  qed
  then show ?thesis by (auto simp: pool_inv_def worker_section_def set_worker_def)
qed

theorem pool_finalize_discards_witness:
  "p_started (dynpm_work_queue_finalize example_pool) = p_started example_pool \<and>
   w_phase (p_workers (worker_section 1 (dynpm_work_queue_finalize example_pool)) ! 1) = Gone"
proof -
  have "1 < length (p_workers (dynpm_work_queue_finalize example_pool))"
    by (simp add: dynpm_work_queue_finalize_def example_pool_def dynpm_work_queue_init_def numeral_2_eq_2)
  then show ?thesis using pool_finalize_discards [OF pool_reach.start, of example_pool] by simp
qed

end
