(* ===== verification/Release.thy ===== *)
theory Release
  imports Prelude
begin

text \<open>
  The functions that give the memory of messages and of a tree vertex back (\<open>protocol.c\<close>, \<open>tbon.c\<close>).
  The memory is a map from addresses to live blocks; of a block only its pointers count, and the
  number of elements where the code loops over them. The locale \<open>releaser\<close> is the contract of such a
  function: it frees exactly the blocks that belong to its argument.
\<close>

section \<open>Blocks\<close>

record block =
  bl_ptrs :: "addr option list"
  bl_count :: nat

type_synonym memory = "addr \<rightharpoonup> block"

definition free :: "addr option \<Rightarrow> memory \<Rightarrow> memory res" where
  "free x h =
     (case x of None \<Rightarrow> Inr h
      | Some a \<Rightarrow> (case h a of None \<Rightarrow> Inl Wild_Pointer | Some b \<Rightarrow> Inr (h(a := None))))"

text \<open>Reading pointer number \<open>i\<close> of a block.\<close>

definition member :: "nat \<Rightarrow> addr \<Rightarrow> memory \<Rightarrow> addr option res" where
  "member i a h =
     (case h a of None \<Rightarrow> Inl Wild_Pointer
      | Some b \<Rightarrow> if i < length (bl_ptrs b) then Inr (bl_ptrs b ! i) else Inl Out_Of_Bounds)"

text \<open>Reading the number of elements a block records.\<close>

definition elements :: "addr \<Rightarrow> memory \<Rightarrow> nat res" where
  "elements a h = (case h a of None \<Rightarrow> Inl Wild_Pointer | Some b \<Rightarrow> Inr (bl_count b))"

text \<open>Freeing the blocks some members of \<open>a\<close> point to, and then \<open>a\<close> itself; a null member is skipped.\<close>

fun free_members :: "addr \<Rightarrow> nat list \<Rightarrow> memory \<Rightarrow> memory res" where
  "free_members a [] h = Inr h"
| "free_members a (i # is) h = rbind (member i a h) (\<lambda>x. rbind (free x h) (free_members a is))"

definition free_struct :: "addr \<Rightarrow> nat list \<Rightarrow> memory \<Rightarrow> memory res" where
  "free_struct a is h = rbind (free_members a is h) (free (Some a))"

section \<open>Messages\<close>

text \<open>Messages without pointers.\<close>

definition dynpm_free_header :: "addr option \<Rightarrow> memory \<Rightarrow> memory res" where
  "dynpm_free_header msg h = (case msg of None \<Rightarrow> Inr h | Some m \<Rightarrow> free_struct m [] h)"

definition dynpm_free_resource_offer_msg :: "addr option \<Rightarrow> memory \<Rightarrow> memory res" where
  "dynpm_free_resource_offer_msg msg h = (case msg of None \<Rightarrow> Inr h | Some m \<Rightarrow> free_struct m [] h)"

definition dynpm_free_allocation_request_msg :: "addr option \<Rightarrow> memory \<Rightarrow> memory res" where
  "dynpm_free_allocation_request_msg msg h = (case msg of None \<Rightarrow> Inr h | Some m \<Rightarrow> free_struct m [] h)"

definition dynpm_free_ready_msg :: "addr option \<Rightarrow> memory \<Rightarrow> memory res" where
  "dynpm_free_ready_msg msg h = (case msg of None \<Rightarrow> Inr h | Some m \<Rightarrow> free_struct m [] h)"

definition dynpm_free_ready_tbon_msg :: "addr option \<Rightarrow> memory \<Rightarrow> memory res" where
  "dynpm_free_ready_tbon_msg = dynpm_free_ready_msg"

definition dynpm_free_ready_dynamic_pm_msg :: "addr option \<Rightarrow> memory \<Rightarrow> memory res" where
  "dynpm_free_ready_dynamic_pm_msg = dynpm_free_ready_msg"

definition dynpm_free_processes_done_msg :: "addr option \<Rightarrow> memory \<Rightarrow> memory res" where
  "dynpm_free_processes_done_msg = dynpm_free_ready_msg"

text \<open>Messages with a host name, a list of nodes, or a payload.\<close>

definition dynpm_free_register_connection_msg :: "addr option \<Rightarrow> memory \<Rightarrow> memory res" where
  "dynpm_free_register_connection_msg msg h = (case msg of None \<Rightarrow> Inr h | Some m \<Rightarrow> free_struct m [0] h)"

definition dynpm_free_deregister_connection_msg :: "addr option \<Rightarrow> memory \<Rightarrow> memory res" where
  "dynpm_free_deregister_connection_msg msg h = (case msg of None \<Rightarrow> Inr h | Some m \<Rightarrow> free_struct m [0] h)"

definition dynpm_free_create_tbon_msg :: "addr option \<Rightarrow> memory \<Rightarrow> memory res" where
  "dynpm_free_create_tbon_msg msg h = (case msg of None \<Rightarrow> Inr h | Some m \<Rightarrow> free_struct m [0] h)"

definition dynpm_free_deregister_process_manager_msg :: "addr option \<Rightarrow> memory \<Rightarrow> memory res" where
  "dynpm_free_deregister_process_manager_msg msg h = (case msg of None \<Rightarrow> Inr h | Some m \<Rightarrow> free_struct m [0] h)"

definition dynpm_free_reallocation_complete_msg :: "addr option \<Rightarrow> memory \<Rightarrow> memory res" where
  "dynpm_free_reallocation_complete_msg msg h = (case msg of None \<Rightarrow> Inr h | Some m \<Rightarrow> free_struct m [0] h)"

definition dynpm_free_dynamic_pm_launch_msg :: "addr option \<Rightarrow> memory \<Rightarrow> memory res" where
  "dynpm_free_dynamic_pm_launch_msg msg h = (case msg of None \<Rightarrow> Inr h | Some m \<Rightarrow> free_struct m [0] h)"

definition dynpm_free_report_process_data_msg :: "addr option \<Rightarrow> memory \<Rightarrow> memory res" where
  "dynpm_free_report_process_data_msg msg h = (case msg of None \<Rightarrow> Inr h | Some m \<Rightarrow> free_struct m [0] h)"

text \<open>Host and payload; the three lists of nodes of a reallocation.\<close>

definition dynpm_free_dynamic_io_out_msg :: "addr option \<Rightarrow> memory \<Rightarrow> memory res" where
  "dynpm_free_dynamic_io_out_msg msg h = (case msg of None \<Rightarrow> Inr h | Some m \<Rightarrow> free_struct m [0, 1] h)"

definition dynpm_free_reallocation_start_msg :: "addr option \<Rightarrow> memory \<Rightarrow> memory res" where
  "dynpm_free_reallocation_start_msg msg h = (case msg of None \<Rightarrow> Inr h | Some m \<Rightarrow> free_struct m [0, 1, 2] h)"

text \<open>The applications of a registration: the loop frees the nodes of each and the application itself; the
  members of the message are its host name and the array.\<close>

fun free_applications :: "addr option \<Rightarrow> nat list \<Rightarrow> memory \<Rightarrow> memory res" where
  "free_applications arr [] h = Inr h"
| "free_applications arr (i # is) h =
     (case arr of None \<Rightarrow> Inl Null_Deref
      | Some p \<Rightarrow>
          rbind (member i p h) (\<lambda>x.
            case x of None \<Rightarrow> free_applications arr is h
            | Some a \<Rightarrow> rbind (free_struct a [0] h) (free_applications arr is)))"

definition dynpm_free_register_process_manager_msg :: "addr option \<Rightarrow> memory \<Rightarrow> memory res" where
  "dynpm_free_register_process_manager_msg msg h =
     (case msg of None \<Rightarrow> Inr h
      | Some m \<Rightarrow>
          rbind (free_members m [0] h) (\<lambda>h1.
          rbind (member 1 m h1) (\<lambda>arr.
          rbind (elements m h1) (\<lambda>n.
          rbind (free_applications arr [0..<n] h1) (\<lambda>h2.
          rbind (free arr h2) (free (Some m)))))))"

section \<open>A tree vertex\<close>

text \<open>The members are nodes, local host, ids, hosts and connection indexes of the children, and the reports
  with one payload per child. The strings in the array of the children's hosts are not freed.\<close>

definition dynpm_free_tbon_vertex :: "addr option \<Rightarrow> memory \<Rightarrow> memory res" where
  "dynpm_free_tbon_vertex vertex h =
     (case vertex of None \<Rightarrow> Inr h
      | Some v \<Rightarrow>
          rbind (free_members v [0, 1, 2, 3, 4] h) (\<lambda>h1.
          rbind (member 5 v h1) (\<lambda>reports.
          rbind (elements v h1) (\<lambda>n.
          rbind (case reports of None \<Rightarrow> Inr h1 | Some r \<Rightarrow> free_struct r [0..<n] h1) (free (Some v))))))"

section \<open>The contract\<close>

text \<open>\<open>owned h m\<close>: the blocks that belong to \<open>m\<close>; \<open>shape h m\<close>: the block and those its pointers lead to have the
  layout the function expects.\<close>

locale releaser =
  fixes rel :: "addr option \<Rightarrow> memory \<Rightarrow> memory res"
    and owned :: "memory \<Rightarrow> addr \<Rightarrow> addr list"
    and shape :: "memory \<Rightarrow> addr \<Rightarrow> bool"
  assumes rel_null: "rel None h = Inr h"
    and rel_owned: "shape h m \<Longrightarrow> distinct (owned h m) \<Longrightarrow> set (owned h m) \<subseteq> dom h \<Longrightarrow>
      rel (Some m) h = Inr (h |` (- set (owned h m)))"
    and owned_self: "m \<in> set (owned h m)"
    and rel_dead: "h m = None \<Longrightarrow> rel (Some m) h = Inl Wild_Pointer"
begin

text \<open>The caller's pointer is not reset: releasing twice frees a block that is not live.\<close>

lemma rel_twice:
  "shape h m \<Longrightarrow> distinct (owned h m) \<Longrightarrow> set (owned h m) \<subseteq> dom h \<Longrightarrow>
   rbind (rel (Some m) h) (rel (Some m)) = Inl Wild_Pointer"
  using rel_owned rel_dead owned_self by simp

lemma rel_exact:
  "shape h m \<Longrightarrow> distinct (owned h m) \<Longrightarrow> set (owned h m) \<subseteq> dom h \<Longrightarrow>
   \<exists>h'. rel (Some m) h = Inr h' \<and> dom h' = dom h - set (owned h m) \<and> (\<forall>a. a \<notin> set (owned h m) \<longrightarrow> h' a = h a)"
  using rel_owned [of h m] by auto

end

section \<open>Blocks with pointers\<close>

definition target :: "block \<Rightarrow> nat \<Rightarrow> addr list" where
  "target b i = (case bl_ptrs b ! i of None \<Rightarrow> [] | Some a \<Rightarrow> [a])"

definition targets :: "block \<Rightarrow> nat list \<Rightarrow> addr list" where
  "targets b is = concat (map (target b) is)"

definition struct_owned :: "nat list \<Rightarrow> memory \<Rightarrow> addr \<Rightarrow> addr list" where
  "struct_owned is h m = (case h m of None \<Rightarrow> [] | Some b \<Rightarrow> targets b is) @ [m]"

definition struct_shape :: "nat list \<Rightarrow> memory \<Rightarrow> addr \<Rightarrow> bool" where
  "struct_shape is h m \<longleftrightarrow> (\<exists>b. h m = Some b \<and> (\<forall>i \<in> set is. i < length (bl_ptrs b)))"

lemma targets_simps [simp]: "targets b [] = []" "targets b (i # is) = target b i @ targets b is"
  by (simp_all add: targets_def)

lemma restrict_fun_upd_None: "(h(a := None)) |` (- A) = h |` (- insert a A)"
  by (auto simp: restrict_map_def fun_eq_iff)

lemma restrict_twice: "(h |` (- A)) |` (- B) = h |` (- (A \<union> B))"
  by (simp add: restrict_restrict Compl_Un)

lemma free_members_ok:
  "h m = Some b \<Longrightarrow> \<forall>i \<in> set is. i < length (bl_ptrs b) \<Longrightarrow> distinct (m # targets b is) \<Longrightarrow>
   set (targets b is) \<subseteq> dom h \<Longrightarrow> free_members m is h = Inr (h |` (- set (targets b is)))"
proof (induction "is" arbitrary: h)
  case (Cons i "is")
  show ?case
  proof (cases "bl_ptrs b ! i")
    case None
    with Cons show ?thesis by (simp add: member_def free_def target_def)
  next
    case (Some a)
    then have t: "target b i = [a]" by (simp add: target_def)
    have d: "set (targets b is) \<subseteq> dom (h(a := None))" "(h(a := None)) m = Some b" using Cons.prems t by auto
    have "free_members m is (h(a := None)) = Inr ((h(a := None)) |` (- set (targets b is)))"
      by (rule Cons.IH [OF d(2) _ _ d(1)]) (use Cons.prems t in auto)
    then have "free_members m is (h(a := None)) = Inr (h |` (- set (targets b (i # is))))"
      unfolding restrict_fun_upd_None by (simp add: t del: fun_upd_apply)
    moreover obtain x where "h a = Some x" using Cons.prems(4) t by auto
    ultimately show ?thesis using Some Cons.prems(1,2) by (simp add: member_def free_def del: fun_upd_apply targets_simps)
  qed
qed (simp add: restrict_map_def)

lemma free_struct_ok:
  assumes "struct_shape is h m" and "distinct (struct_owned is h m)" and "set (struct_owned is h m) \<subseteq> dom h"
  shows "free_struct m is h = Inr (h |` (- set (struct_owned is h m)))"
proof -
  from assms(1) obtain b where b: "h m = Some b" "\<forall>i \<in> set is. i < length (bl_ptrs b)" by (auto simp: struct_shape_def)
  have o: "struct_owned is h m = targets b is @ [m]" using b(1) by (simp add: struct_owned_def)
  have "free_members m is h = Inr (h |` (- set (targets b is)))"
    by (rule free_members_ok [of h m b "is", OF b]) (use assms(2,3) o in auto)
  moreover have "(h |` (- set (targets b is))) m = Some b" using assms(2) b(1) o by simp
  ultimately show ?thesis using o
    by (simp add: free_struct_def free_def) (auto simp: restrict_map_def fun_eq_iff)
qed

lemma free_struct_dead: "h m = None \<Longrightarrow> free_struct m is h = Inl Wild_Pointer"
  by (cases "is") (simp_all add: free_struct_def free_def member_def)

lemma free_struct_releaser:
  "releaser (\<lambda>msg h. case msg of None \<Rightarrow> Inr h | Some m \<Rightarrow> free_struct m is h) (struct_owned is) (struct_shape is)"
  by unfold_locales (simp_all add: free_struct_ok free_struct_dead, simp add: struct_owned_def)

section \<open>Registrations\<close>

definition list_of :: "addr option \<Rightarrow> addr list" where
  "list_of x = (case x of None \<Rightarrow> [] | Some a \<Rightarrow> [a])"

definition entries :: "block \<Rightarrow> nat list \<Rightarrow> addr list" where
  "entries b is = concat (map (\<lambda>i. list_of (bl_ptrs b ! i)) is)"

definition apps_owned :: "memory \<Rightarrow> block \<Rightarrow> nat list \<Rightarrow> addr list" where
  "apps_owned h b is = concat (map (struct_owned [0] h) (entries b is))"

lemma entries_simps [simp]: "entries b [] = []" "entries b (i # is) = list_of (bl_ptrs b ! i) @ entries b is"
  by (simp_all add: entries_def)

lemma struct_owned_cong: "h' a = h a \<Longrightarrow> struct_owned is h' a = struct_owned is h a"
  by (simp add: struct_owned_def)

lemma apps_owned_restrict:
  "set (entries b is) \<inter> A = {} \<Longrightarrow> apps_owned (h |` (- A)) b is = apps_owned h b is"
  unfolding apps_owned_def by (intro arg_cong [of _ _ concat] map_cong) (auto intro!: struct_owned_cong simp: restrict_map_def)

lemma entries_owned: "a \<in> set (entries b is) \<Longrightarrow> a \<in> set (apps_owned h b is)"
  by (auto simp: apps_owned_def struct_owned_def)

lemma free_applications_ok:
  "h p = Some b \<Longrightarrow> \<forall>i \<in> set is. i < length (bl_ptrs b) \<Longrightarrow> \<forall>a \<in> set (entries b is). struct_shape [0] h a \<Longrightarrow>
   distinct (p # apps_owned h b is) \<Longrightarrow> set (apps_owned h b is) \<subseteq> dom h \<Longrightarrow>
   free_applications (Some p) is h = Inr (h |` (- set (apps_owned h b is)))"
proof (induction "is" arbitrary: h)
  case (Cons i "is")
  show ?case
  proof (cases "bl_ptrs b ! i")
    case None
    with Cons show ?thesis by (simp add: member_def list_of_def apps_owned_def)
  next
    case (Some a)
    let ?A = "set (struct_owned [0] h a)"
    have o: "apps_owned h b (i # is) = struct_owned [0] h a @ apps_owned h b is"
      using Some by (simp add: apps_owned_def list_of_def)
    have fs: "free_struct a [0] h = Inr (h |` (- ?A))"
      by (rule free_struct_ok) (use Cons.prems o Some in \<open>auto simp: list_of_def\<close>)
    have dis: "set (entries b is) \<inter> ?A = {}" using Cons.prems(4) o entries_owned [of _ b "is" h] by auto
    note same = apps_owned_restrict [OF dis, of h]
    have "free_applications (Some p) is (h |` (- ?A)) = Inr ((h |` (- ?A)) |` (- set (apps_owned (h |` (- ?A)) b is)))"
    proof (rule Cons.IH)
      show "\<forall>a \<in> set (entries b is). struct_shape [0] (h |` (- ?A)) a"
        using Cons.prems(3) dis by (auto simp: struct_shape_def restrict_map_def)
    qed (use Cons.prems o same in \<open>auto simp: restrict_map_def\<close>)
    then have "free_applications (Some p) is (h |` (- ?A)) = Inr (h |` (- set (apps_owned h b (i # is))))"
      unfolding same restrict_twice o by simp
    with fs Some Cons.prems(1,2) show ?thesis by (simp add: member_def)
  qed
qed (simp add: apps_owned_def restrict_map_def)

definition rp_owned :: "memory \<Rightarrow> addr \<Rightarrow> addr list" where
  "rp_owned h m =
     (case h m of None \<Rightarrow> []
      | Some b \<Rightarrow> target b 0 @
          (case bl_ptrs b ! 1 of None \<Rightarrow> []
           | Some p \<Rightarrow> (case h p of None \<Rightarrow> [] | Some bp \<Rightarrow> apps_owned h bp [0..<bl_count b]) @ [p])) @ [m]"

definition rp_shape :: "memory \<Rightarrow> addr \<Rightarrow> bool" where
  "rp_shape h m \<longleftrightarrow>
     (\<exists>b. h m = Some b \<and> 2 \<le> length (bl_ptrs b) \<and>
        (case bl_ptrs b ! 1 of None \<Rightarrow> bl_count b = 0
         | Some p \<Rightarrow> (\<exists>bp. h p = Some bp \<and> bl_count b \<le> length (bl_ptrs bp) \<and>
             (\<forall>a \<in> set (entries bp [0..<bl_count b]). struct_shape [0] h a))))"

lemma free_restricted:
  assumes "h a = Some b" and "a \<notin> A"
  shows "free (Some a) (h |` (- A)) = Inr (h |` (- insert a A))"
proof -
  have "(h |` (- A)) a = Some b" using assms by simp
  moreover have "(h |` (- A))(a := None) = h |` (- insert a A)" by (auto simp: restrict_map_def fun_eq_iff)
  ultimately show ?thesis by (simp add: free_def del: fun_upd_apply)
qed

lemma free_rp_ok:
  assumes "rp_shape h m" and "distinct (rp_owned h m)" and "set (rp_owned h m) \<subseteq> dom h"
  shows "dynpm_free_register_process_manager_msg (Some m) h = Inr (h |` (- set (rp_owned h m)))"
proof -
  from assms(1) obtain b where b: "h m = Some b" "2 \<le> length (bl_ptrs b)"
    and arr: "case bl_ptrs b ! 1 of None \<Rightarrow> bl_count b = 0
         | Some p \<Rightarrow> (\<exists>bp. h p = Some bp \<and> bl_count b \<le> length (bl_ptrs bp) \<and>
             (\<forall>a \<in> set (entries bp [0..<bl_count b]). struct_shape [0] h a))" by (auto simp: rp_shape_def)
  let ?A = "set (target b 0)"
  have fm: "free_members m [0] h = Inr (h |` (- ?A))"
    using free_members_ok [of h m b "[0]"] b assms(2,3) by (fastforce simp: rp_owned_def simp del: free_members.simps)
  have live: "(h |` (- ?A)) m = Some b" using b(1) assms(2) by (auto simp: rp_owned_def restrict_map_def)
  then have mem: "member 1 m (h |` (- ?A)) = Inr (bl_ptrs b ! 1)" "elements m (h |` (- ?A)) = Inr (bl_count b)"
    using b(2) by (simp_all add: member_def elements_def)
  show ?thesis
  proof (cases "bl_ptrs b ! 1")
    case None
    then have "free_applications None [0..<bl_count b] (h |` (- ?A)) = Inr (h |` (- ?A))" using arr by simp
    moreover have "m \<notin> ?A" using assms(2) b(1) by (auto simp: rp_owned_def)
    ultimately show ?thesis using fm mem None free_restricted [of h m b ?A, OF b(1)] b(1)
      by (simp add: dynpm_free_register_process_manager_msg_def free_def [of None] rp_owned_def)
  next
    case (Some p)
    then obtain bp where bp: "h p = Some bp" "bl_count b \<le> length (bl_ptrs bp)"
      "\<forall>a \<in> set (entries bp [0..<bl_count b]). struct_shape [0] h a" using arr by auto
    let ?P = "apps_owned h bp [0..<bl_count b]"
    have o: "rp_owned h m = target b 0 @ ?P @ [p, m]" using b(1) bp(1) Some by (simp add: rp_owned_def)
    have dis: "set (entries bp [0..<bl_count b]) \<inter> ?A = {}"
      using assms(2) o entries_owned [of _ bp "[0..<bl_count b]" h] by auto
    note same = apps_owned_restrict [OF dis, of h]
    have "free_applications (Some p) [0..<bl_count b] (h |` (- ?A)) =
        Inr ((h |` (- ?A)) |` (- set (apps_owned (h |` (- ?A)) bp [0..<bl_count b])))"
    proof (rule free_applications_ok)
      show "\<forall>a \<in> set (entries bp [0..<bl_count b]). struct_shape [0] (h |` (- ?A)) a"
        using bp(3) dis by (auto simp: struct_shape_def restrict_map_def)
    qed (use assms(2,3) o same bp in \<open>auto simp: restrict_map_def\<close>)
    then have "free_applications (Some p) [0..<bl_count b] (h |` (- ?A)) = Inr (h |` (- (?A \<union> set ?P)))"
      unfolding same restrict_twice .
    moreover have "free (Some p) (h |` (- (?A \<union> set ?P))) = Inr (h |` (- insert p (?A \<union> set ?P)))"
      by (rule free_restricted [of h p bp, OF bp(1)]) (use assms(2) o in auto)
    moreover have "free (Some m) (h |` (- insert p (?A \<union> set ?P))) = Inr (h |` (- insert m (insert p (?A \<union> set ?P))))"
      by (rule free_restricted [of h m b, OF b(1)]) (use assms(2) o in auto)
    moreover have "insert m (insert p (?A \<union> set ?P)) = set (rp_owned h m)" using o by auto
    ultimately show ?thesis using fm mem Some
      by (simp add: dynpm_free_register_process_manager_msg_def)
  qed
qed

lemma free_rp_dead: "h m = None \<Longrightarrow> dynpm_free_register_process_manager_msg (Some m) h = Inl Wild_Pointer"
  by (simp add: dynpm_free_register_process_manager_msg_def member_def)

section \<open>Vertices\<close>

definition vertex_owned :: "memory \<Rightarrow> addr \<Rightarrow> addr list" where
  "vertex_owned h v =
     (case h v of None \<Rightarrow> []
      | Some b \<Rightarrow> targets b [0, 1, 2, 3, 4] @
          (case bl_ptrs b ! 5 of None \<Rightarrow> [] | Some r \<Rightarrow> struct_owned [0..<bl_count b] h r)) @ [v]"

definition vertex_shape :: "memory \<Rightarrow> addr \<Rightarrow> bool" where
  "vertex_shape h v \<longleftrightarrow>
     (\<exists>b. h v = Some b \<and> 6 \<le> length (bl_ptrs b) \<and>
        (case bl_ptrs b ! 5 of None \<Rightarrow> True | Some r \<Rightarrow> struct_shape [0..<bl_count b] h r))"

lemma free_vertex_ok:
  assumes "vertex_shape h v" and "distinct (vertex_owned h v)" and "set (vertex_owned h v) \<subseteq> dom h"
  shows "dynpm_free_tbon_vertex (Some v) h = Inr (h |` (- set (vertex_owned h v)))"
proof -
  from assms(1) obtain b where b: "h v = Some b" "6 \<le> length (bl_ptrs b)"
    and rep: "case bl_ptrs b ! 5 of None \<Rightarrow> True | Some r \<Rightarrow> struct_shape [0..<bl_count b] h r" by (auto simp: vertex_shape_def)
  let ?A = "set (targets b [0, 1, 2, 3, 4])"
  have d: "distinct (v # targets b [0, 1, 2, 3, 4])" "?A \<subseteq> dom h"
    using assms(2,3) b(1) by (auto simp: vertex_owned_def simp del: targets_simps)
  have fm: "free_members v [0, 1, 2, 3, 4] h = Inr (h |` (- ?A))"
    by (rule free_members_ok [of h v b, OF b(1) _ d]) (use b(2) in auto)
  have live: "(h |` (- ?A)) v = Some b" using b(1) d(1) by (auto simp: restrict_map_def simp del: targets_simps)
  then have mem: "member 5 v (h |` (- ?A)) = Inr (bl_ptrs b ! 5)" "elements v (h |` (- ?A)) = Inr (bl_count b)"
    using b(2) by (simp_all add: member_def elements_def)
  show ?thesis
  proof (cases "bl_ptrs b ! 5")
    case None
    moreover have "free (Some v) (h |` (- ?A)) = Inr (h |` (- insert v ?A))"
      by (rule free_restricted [of h v b, OF b(1)]) (use d(1) in \<open>simp del: targets_simps\<close>)
    moreover have "insert v ?A = set (vertex_owned h v)" using b(1) None by (auto simp: vertex_owned_def simp del: targets_simps)
    ultimately show ?thesis using fm mem by (simp add: dynpm_free_tbon_vertex_def del: targets_simps)
  next
    case (Some r)
    let ?S = "struct_owned [0..<bl_count b] h r"
    have o: "vertex_owned h v = targets b [0, 1, 2, 3, 4] @ ?S @ [v]" using b(1) Some by (simp add: vertex_owned_def del: targets_simps)
    have r: "r \<notin> ?A" using assms(2) o by (auto simp: struct_owned_def simp del: targets_simps)
    then have same: "struct_owned [0..<bl_count b] (h |` (- ?A)) r = ?S" by (intro struct_owned_cong) (simp add: restrict_map_def)
    have "free_struct r [0..<bl_count b] (h |` (- ?A)) = Inr ((h |` (- ?A)) |` (- set (struct_owned [0..<bl_count b] (h |` (- ?A)) r)))"
      by (rule free_struct_ok)
         (use rep Some r assms(2,3) same o in \<open>auto simp: struct_shape_def restrict_map_def simp del: targets_simps\<close>)
    then have "free_struct r [0..<bl_count b] (h |` (- ?A)) = Inr (h |` (- (?A \<union> set ?S)))" unfolding same restrict_twice .
    moreover have "free (Some v) (h |` (- (?A \<union> set ?S))) = Inr (h |` (- insert v (?A \<union> set ?S)))"
      by (rule free_restricted [of h v b, OF b(1)]) (use assms(2) o in \<open>auto simp del: targets_simps\<close>)
    moreover have "insert v (?A \<union> set ?S) = set (vertex_owned h v)" using o by (auto simp del: targets_simps)
    ultimately show ?thesis using fm mem Some by (simp add: dynpm_free_tbon_vertex_def del: targets_simps)
  qed
qed

lemma free_vertex_dead: "h v = None \<Longrightarrow> dynpm_free_tbon_vertex (Some v) h = Inl Wild_Pointer"
  by (simp add: dynpm_free_tbon_vertex_def member_def)

section \<open>The functions meet the contract\<close>

interpretation header_free: releaser dynpm_free_header "struct_owned []" "struct_shape []"
  unfolding dynpm_free_header_def [abs_def] by (rule free_struct_releaser)

interpretation resource_offer_msg_free: releaser dynpm_free_resource_offer_msg "struct_owned []" "struct_shape []"
  unfolding dynpm_free_resource_offer_msg_def [abs_def] by (rule free_struct_releaser)

interpretation allocation_request_msg_free: releaser dynpm_free_allocation_request_msg "struct_owned []" "struct_shape []"
  unfolding dynpm_free_allocation_request_msg_def [abs_def] by (rule free_struct_releaser)

interpretation ready_msg_free: releaser dynpm_free_ready_msg "struct_owned []" "struct_shape []"
  unfolding dynpm_free_ready_msg_def [abs_def] by (rule free_struct_releaser)

interpretation ready_tbon_msg_free: releaser dynpm_free_ready_tbon_msg "struct_owned []" "struct_shape []"
  unfolding dynpm_free_ready_tbon_msg_def dynpm_free_ready_msg_def [abs_def] by (rule free_struct_releaser)

interpretation ready_dynamic_pm_msg_free: releaser dynpm_free_ready_dynamic_pm_msg "struct_owned []" "struct_shape []"
  unfolding dynpm_free_ready_dynamic_pm_msg_def dynpm_free_ready_msg_def [abs_def] by (rule free_struct_releaser)

interpretation processes_done_msg_free: releaser dynpm_free_processes_done_msg "struct_owned []" "struct_shape []"
  unfolding dynpm_free_processes_done_msg_def dynpm_free_ready_msg_def [abs_def] by (rule free_struct_releaser)

interpretation register_connection_msg_free: releaser dynpm_free_register_connection_msg "struct_owned [0]" "struct_shape [0]"
  unfolding dynpm_free_register_connection_msg_def [abs_def] by (rule free_struct_releaser)

interpretation deregister_connection_msg_free: releaser dynpm_free_deregister_connection_msg "struct_owned [0]" "struct_shape [0]"
  unfolding dynpm_free_deregister_connection_msg_def [abs_def] by (rule free_struct_releaser)

interpretation create_tbon_msg_free: releaser dynpm_free_create_tbon_msg "struct_owned [0]" "struct_shape [0]"
  unfolding dynpm_free_create_tbon_msg_def [abs_def] by (rule free_struct_releaser)

interpretation deregister_process_manager_msg_free: releaser dynpm_free_deregister_process_manager_msg "struct_owned [0]" "struct_shape [0]"
  unfolding dynpm_free_deregister_process_manager_msg_def [abs_def] by (rule free_struct_releaser)

interpretation reallocation_complete_msg_free: releaser dynpm_free_reallocation_complete_msg "struct_owned [0]" "struct_shape [0]"
  unfolding dynpm_free_reallocation_complete_msg_def [abs_def] by (rule free_struct_releaser)

interpretation dynamic_pm_launch_msg_free: releaser dynpm_free_dynamic_pm_launch_msg "struct_owned [0]" "struct_shape [0]"
  unfolding dynpm_free_dynamic_pm_launch_msg_def [abs_def] by (rule free_struct_releaser)

interpretation report_process_data_msg_free: releaser dynpm_free_report_process_data_msg "struct_owned [0]" "struct_shape [0]"
  unfolding dynpm_free_report_process_data_msg_def [abs_def] by (rule free_struct_releaser)

interpretation dynamic_io_out_msg_free: releaser dynpm_free_dynamic_io_out_msg "struct_owned [0, 1]" "struct_shape [0, 1]"
  unfolding dynpm_free_dynamic_io_out_msg_def [abs_def] by (rule free_struct_releaser)

interpretation reallocation_start_msg_free: releaser dynpm_free_reallocation_start_msg "struct_owned [0, 1, 2]" "struct_shape [0, 1, 2]"
  unfolding dynpm_free_reallocation_start_msg_def [abs_def] by (rule free_struct_releaser)

interpretation register_process_manager_msg_free: releaser dynpm_free_register_process_manager_msg rp_owned rp_shape
  by unfold_locales
     (simp add: dynpm_free_register_process_manager_msg_def, simp add: free_rp_ok, simp add: rp_owned_def, simp add: free_rp_dead)

interpretation tbon_vertex_free: releaser dynpm_free_tbon_vertex vertex_owned vertex_shape
  by unfold_locales
     (simp add: dynpm_free_tbon_vertex_def, simp add: free_vertex_ok, simp add: vertex_owned_def, simp add: free_vertex_dead)

section \<open>Properties\<close>

text \<open>Memory with a registration of two applications at 10, and with a vertex of two children at 20.\<close>

definition example_memory :: memory where
  "example_memory =
     [10 \<mapsto> \<lparr>bl_ptrs = [Some 11, Some 12], bl_count = 2\<rparr>, 11 \<mapsto> \<lparr>bl_ptrs = [], bl_count = 0\<rparr>,
      12 \<mapsto> \<lparr>bl_ptrs = [Some 13, Some 14], bl_count = 0\<rparr>, 13 \<mapsto> \<lparr>bl_ptrs = [Some 15], bl_count = 0\<rparr>,
      14 \<mapsto> \<lparr>bl_ptrs = [None], bl_count = 0\<rparr>, 15 \<mapsto> \<lparr>bl_ptrs = [], bl_count = 0\<rparr>,
      20 \<mapsto> \<lparr>bl_ptrs = [Some 21, None, None, Some 22, None, Some 23], bl_count = 2\<rparr>,
      21 \<mapsto> \<lparr>bl_ptrs = [], bl_count = 0\<rparr>, 22 \<mapsto> \<lparr>bl_ptrs = [Some 24, Some 25], bl_count = 0\<rparr>,
      23 \<mapsto> \<lparr>bl_ptrs = [None, None], bl_count = 0\<rparr>, 24 \<mapsto> \<lparr>bl_ptrs = [], bl_count = 0\<rparr>,
      25 \<mapsto> \<lparr>bl_ptrs = [], bl_count = 0\<rparr>]"

lemma upt_two: "[0..<2] = [0, 1]"
  by (simp add: upt_rec)

lemma example_registration:
  "rp_shape example_memory 10" "rp_owned example_memory 10 = [11, 15, 13, 14, 12, 10]"
  "set (rp_owned example_memory 10) \<subseteq> dom example_memory"
  by (simp_all add: rp_shape_def rp_owned_def example_memory_def target_def apps_owned_def list_of_def struct_owned_def
      struct_shape_def upt_two)

lemma example_vertex:
  "vertex_shape example_memory 20" "vertex_owned example_memory 20 = [21, 22, 23, 20]"
  "set (vertex_owned example_memory 20) \<subseteq> dom example_memory"
  by (simp_all add: vertex_shape_def vertex_owned_def example_memory_def target_def struct_owned_def struct_shape_def upt_two)

text \<open>C23: Releasing a registration frees its host name, the array of applications, every application with its
  list of nodes, and the message, each once, and nothing else; releasing it again frees a dead block.\<close>

theorem free_registration_exact:
  assumes "rp_shape h m" and "distinct (rp_owned h m)" and "set (rp_owned h m) \<subseteq> dom h"
  shows "(\<exists>h'. dynpm_free_register_process_manager_msg (Some m) h = Inr h' \<and> dom h' = dom h - set (rp_owned h m) \<and>
            (\<forall>a. a \<notin> set (rp_owned h m) \<longrightarrow> h' a = h a)) \<and>
         rbind (dynpm_free_register_process_manager_msg (Some m) h) (dynpm_free_register_process_manager_msg (Some m)) =
           Inl Wild_Pointer"
  using register_process_manager_msg_free.rel_exact [OF assms] register_process_manager_msg_free.rel_twice [OF assms] by blast

theorem free_registration_exact_witness:
  "\<exists>h'. dynpm_free_register_process_manager_msg (Some 10) example_memory = Inr h' \<and>
        dom h' = dom example_memory - {10, 11, 12, 13, 14, 15} \<and> h' 20 = example_memory 20"
proof -
  have "distinct (rp_owned example_memory 10)" using example_registration(2) by simp
  from free_registration_exact [OF example_registration(1) this example_registration(3)]
  obtain h' where "dynpm_free_register_process_manager_msg (Some 10) example_memory = Inr h'"
    "dom h' = dom example_memory - set (rp_owned example_memory 10)"
    "\<forall>a. a \<notin> set (rp_owned example_memory 10) \<longrightarrow> h' a = example_memory a" by blast
  moreover have "set (rp_owned example_memory 10) = {10, 11, 12, 13, 14, 15}" using example_registration(2) by auto
  ultimately show ?thesis by auto
qed

text \<open>Releasing a tree vertex frees the array of its children's host names but not the names
  themselves, which stay allocated.\<close>

theorem free_vertex_leaks_hosts:
  assumes "vertex_shape h v" and "distinct (vertex_owned h v)" and "set (vertex_owned h v) \<subseteq> dom h"
    and "h v = Some b" and "bl_ptrs b ! 3 = Some hosts" and "h hosts = Some bh" and "Some a \<in> set (bl_ptrs bh)"
    and "a \<notin> set (vertex_owned h v)" and "h a = Some s"
  shows "\<exists>h'. dynpm_free_tbon_vertex (Some v) h = Inr h' \<and> h' v = None \<and> h' hosts = None \<and> h' a = Some s"
proof -
  obtain h' where h': "dynpm_free_tbon_vertex (Some v) h = Inr h'" "dom h' = dom h - set (vertex_owned h v)"
    "\<forall>a. a \<notin> set (vertex_owned h v) \<longrightarrow> h' a = h a" using tbon_vertex_free.rel_exact [OF assms(1-3)] by blast
  have "v \<in> set (vertex_owned h v)" "hosts \<in> set (vertex_owned h v)"
    using assms(4,5) by (simp_all add: vertex_owned_def target_def)
  then have "v \<notin> dom h'" "hosts \<notin> dom h'" using h'(2) by auto
  then have "h' v = None" "h' hosts = None" by (auto simp: domIff)
  moreover have "h' a = Some s" using h'(3) assms(8,9) by simp
  ultimately show ?thesis using h'(1) by blast
qed

theorem free_vertex_leaks_hosts_witness:
  "\<exists>h'. dynpm_free_tbon_vertex (Some 20) example_memory = Inr h' \<and> h' 20 = None \<and> h' 22 = None \<and>
        h' 24 = Some \<lparr>bl_ptrs = [], bl_count = 0\<rparr>"
proof -
  have d: "distinct (vertex_owned example_memory 20)" "24 \<notin> set (vertex_owned example_memory 20)"
    using example_vertex(2) by simp_all
  show ?thesis
    by (rule free_vertex_leaks_hosts [OF example_vertex(1) d(1) example_vertex(3) _ _ _ _ d(2),
          where b = "\<lparr>bl_ptrs = [Some 21, None, None, Some 22, None, Some 23], bl_count = 2\<rparr>"
            and bh = "\<lparr>bl_ptrs = [Some 24, Some 25], bl_count = 0\<rparr>"])
       (simp_all add: example_memory_def)
qed

end
