(* ===== verification/Logger.thy ===== *)
theory Logger
  imports Prelude
begin

text \<open>
  The logger, \<open>src/common/logger.c\<close>: two files opened for appending, and two functions that append a
  line each. The text that \<open>vfprintf\<close> makes of a format and its arguments is an argument of the model.
\<close>

record log_state =
  info_file :: "string option"
  error_file :: "string option"
  log_files :: "string \<Rightarrow> string"

definition log_start :: "(string \<Rightarrow> string) \<Rightarrow> log_state" where
  "log_start files = \<lparr>info_file = None, error_file = None, log_files = files\<rparr>"

text \<open>\<open>dynpm_init_logger\<close>: \<open>opens\<close> tells which paths \<open>fopen\<close> can open; a failure leaves a null pointer.\<close>

definition dynpm_init_logger :: "(string \<Rightarrow> bool) \<Rightarrow> string \<Rightarrow> string \<Rightarrow> log_state \<Rightarrow> log_state" where
  "dynpm_init_logger opens info error s =
     s\<lparr>info_file := (if opens info then Some info else None),
       error_file := (if opens error then Some error else None)\<rparr>"

definition append_to :: "string option \<Rightarrow> string \<Rightarrow> log_state \<Rightarrow> log_state res" where
  "append_to file text s =
     (case file of None \<Rightarrow> Inl Null_Deref
      | Some p \<Rightarrow> Inr (s\<lparr>log_files := (log_files s)(p := log_files s p @ text)\<rparr>))"

definition info_logger :: "string \<Rightarrow> log_state \<Rightarrow> log_state res" where
  "info_logger text s = append_to (info_file s) (text @ [CHR 0x0A]) s"

definition error_logger :: "string \<Rightarrow> log_state \<Rightarrow> log_state res" where
  "error_logger text s = append_to (error_file s) (''error: '' @ text @ [CHR 0x0A]) s"

text \<open>A run of the program's log calls: \<open>Inr\<close> for information, \<open>Inl\<close> for errors.\<close>

fun log_run :: "(string + string) list \<Rightarrow> log_state \<Rightarrow> log_state res" where
  "log_run [] s = Inr s"
| "log_run (Inr t # ts) s = rbind (info_logger t s) (log_run ts)"
| "log_run (Inl t # ts) s = rbind (error_logger t s) (log_run ts)"

fun log_line :: "string + string \<Rightarrow> string" where
  "log_line (Inr t) = t @ [CHR 0x0A]"
| "log_line (Inl t) = ''error: '' @ t @ [CHR 0x0A]"

lemma log_run_files:
  "info_file s = Some p \<Longrightarrow> error_file s = Some q \<Longrightarrow>
   \<exists>s'. log_run ts s = Inr s' \<and> info_file s' = Some p \<and> error_file s' = Some q \<and>
     (\<forall>f. log_files s' f = log_files s f @
        concat (map log_line (filter (\<lambda>t. f = (case t of Inr _ \<Rightarrow> p | Inl _ \<Rightarrow> q)) ts)))"
proof (induction ts arbitrary: s)
  case (Cons t ts)
  have "\<exists>s1. log_run (t # ts) s = log_run ts s1 \<and> info_file s1 = Some p \<and> error_file s1 = Some q \<and>
      (\<forall>f. log_files s1 f = log_files s f @ (if f = (case t of Inr _ \<Rightarrow> p | Inl _ \<Rightarrow> q) then log_line t else []))"
    using Cons.prems by (cases t) (auto simp: info_logger_def error_logger_def append_to_def)
  then obtain s1 where s1: "log_run (t # ts) s = log_run ts s1" "info_file s1 = Some p" "error_file s1 = Some q"
    "\<forall>f. log_files s1 f = log_files s f @ (if f = (case t of Inr _ \<Rightarrow> p | Inl _ \<Rightarrow> q) then log_line t else [])" by blast
  from Cons.IH [OF s1(2,3)] s1(1,4) show ?case by auto
qed simp

text \<open>Every log call appends its line to its file, in the order of the calls; when both files are the same, the
  lines of both kinds appear there in one order.\<close>

theorem log_lines_in_order:
  assumes "opens info" and "opens error"
  shows "\<exists>s'. log_run ts (dynpm_init_logger opens info error s) = Inr s' \<and>
     (\<forall>f. log_files s' f = log_files s f @
        concat (map log_line (filter (\<lambda>t. f = (case t of Inr _ \<Rightarrow> info | Inl _ \<Rightarrow> error)) ts)))"
  using log_run_files [of "dynpm_init_logger opens info error s" info error ts] assms
  by (auto simp: dynpm_init_logger_def)

theorem log_lines_in_order_witness:
  "\<exists>s'. log_run [Inr ''a'', Inl ''b'', Inr ''c''] (dynpm_init_logger (\<lambda>_. True) ''i'' ''e'' (log_start (\<lambda>_. []))) = Inr s' \<and>
        log_files s' ''i'' = ''a'' @ [CHR 0x0A] @ ''c'' @ [CHR 0x0A] \<and> log_files s' ''e'' = ''error: b'' @ [CHR 0x0A]"
  using log_lines_in_order [of "\<lambda>_. True" "''i''" "''e''" "[Inr ''a'', Inl ''b'', Inr ''c'']" "log_start (\<lambda>_. [])"]
  by (auto simp: log_start_def)

text \<open>A log call before the logger is initialised, or after a file could not be opened, writes through a null
  pointer.\<close>

theorem log_needs_file:
  "info_logger t (log_start files) = Inl Null_Deref \<and> error_logger t (log_start files) = Inl Null_Deref \<and>
   (\<not> opens info \<longrightarrow> info_logger t (dynpm_init_logger opens info error s) = Inl Null_Deref)"
  by (simp add: info_logger_def error_logger_def append_to_def log_start_def dynpm_init_logger_def)

end
