(* ===== verification/Shm.thy ===== *)
theory Shm
  imports C_Text
begin

text \<open>
  The shared-memory channel of \<open>src/shm/shm.c\<close> between a process manager and the processes of an
  application. Every segment starts with a 64-byte line of ten counters and is followed by a payload
  area; each side keeps a private copy of the lines and copies 64 bytes at a time. Segments are
  objects behind names, so that unlinking a name leaves mappings in place. The private variables of
  one operating-system process are one record; an operation works on that record and on the shared
  objects.
\<close>

section \<open>Lines, objects and private state\<close>

record manager_line =
  ml_read_count :: u32
  ml_write_count :: u32
  ml_manager_pid :: u32
  ml_job_index :: u32
  ml_application_index :: u32
  ml_shm_mapped_bytes :: u32
  ml_process_count :: u32
  ml_node_status :: u32
  ml_payload_max :: u32
  ml_payload_bytes :: u32

record process_line =
  pl_read_count :: u32
  pl_write_count :: u32
  pl_process_pid :: u32
  pl_job_index :: u32
  pl_application_index :: u32
  pl_shm_mapped_bytes :: u32
  pl_malleability_mode :: u32
  pl_process_status :: u32
  pl_payload_max :: u32
  pl_payload_bytes :: u32

text \<open>The first 64 bytes of an object: zero when new, or a line one of the two sides stored.\<close>

datatype shm_line = Zero_Line | Manager_Line manager_line | Process_Line process_line

record shm_object =
  so_line :: shm_line
  so_payload :: "char list"

record shm_fs =
  fs_names :: "string \<rightharpoonup> nat"
  fs_objects :: "nat \<rightharpoonup> shm_object"

text \<open>The private control blocks: the line and the mapped object (\<open>None\<close>: nothing was mapped); and how many
  payload bytes of the manager's object the mapping at \<open>shm_payload\<close> reaches.\<close>

record manager_ctl =
  mc_line :: manager_line
  mc_base :: "nat option"

record process_ctl =
  pc_line :: process_line
  pc_base :: "nat option"

record shm_local =
  manager_control :: "manager_ctl option"
  process_control :: "process_ctl list option"
  mapped_payload :: nat

definition shm_unused :: shm_local where
  "shm_unused = \<lparr>manager_control = None, process_control = None, mapped_payload = 0\<rparr>"

definition zero_manager_line :: manager_line where
  "zero_manager_line = \<lparr>ml_read_count = 0, ml_write_count = 0, ml_manager_pid = 0, ml_job_index = 0,
     ml_application_index = 0, ml_shm_mapped_bytes = 0, ml_process_count = 0, ml_node_status = 0,
     ml_payload_max = 0, ml_payload_bytes = 0\<rparr>"

definition zero_process_line :: process_line where
  "zero_process_line = \<lparr>pl_read_count = 0, pl_write_count = 0, pl_process_pid = 0, pl_job_index = 0,
     pl_application_index = 0, pl_shm_mapped_bytes = 0, pl_malleability_mode = 0, pl_process_status = 0,
     pl_payload_max = 0, pl_payload_bytes = 0\<rparr>"

section \<open>Copies to and from a mapping\<close>

definition object_at :: "nat option \<Rightarrow> shm_fs \<Rightarrow> shm_object res" where
  "object_at base fs =
     (case base of None \<Rightarrow> Inl Wild_Pointer
      | Some b \<Rightarrow> (case fs_objects fs b of None \<Rightarrow> Inl Wild_Pointer | Some ob \<Rightarrow> Inr ob))"

definition put_object :: "nat option \<Rightarrow> shm_object \<Rightarrow> shm_fs \<Rightarrow> shm_fs" where
  "put_object base ob fs = (case base of None \<Rightarrow> fs | Some b \<Rightarrow> fs\<lparr>fs_objects := (fs_objects fs)(b \<mapsto> ob)\<rparr>)"

definition load_manager :: "nat option \<Rightarrow> shm_fs \<Rightarrow> manager_line res" where
  "load_manager base fs =
     rbind (object_at base fs) (\<lambda>ob.
       case so_line ob of Zero_Line \<Rightarrow> Inr zero_manager_line | Manager_Line l \<Rightarrow> Inr l
       | Process_Line _ \<Rightarrow> Inl Type_Confusion)"

definition store_manager :: "nat option \<Rightarrow> manager_line \<Rightarrow> shm_fs \<Rightarrow> shm_fs res" where
  "store_manager base l fs =
     rbind (object_at base fs) (\<lambda>ob. Inr (put_object base (ob\<lparr>so_line := Manager_Line l\<rparr>) fs))"

definition load_process :: "nat option \<Rightarrow> shm_fs \<Rightarrow> process_line res" where
  "load_process base fs =
     rbind (object_at base fs) (\<lambda>ob.
       case so_line ob of Zero_Line \<Rightarrow> Inr zero_process_line | Process_Line l \<Rightarrow> Inr l
       | Manager_Line _ \<Rightarrow> Inl Type_Confusion)"

definition store_process :: "nat option \<Rightarrow> process_line \<Rightarrow> shm_fs \<Rightarrow> shm_fs res" where
  "store_process base l fs =
     rbind (object_at base fs) (\<lambda>ob. Inr (put_object base (ob\<lparr>so_line := Process_Line l\<rparr>) fs))"

definition store_payload :: "nat option \<Rightarrow> char list \<Rightarrow> nat \<Rightarrow> shm_fs \<Rightarrow> shm_fs res" where
  "store_payload base p n fs =
     rbind (object_at base fs) (\<lambda>ob.
     rbind (memcpy_to (so_payload ob) 0 p n) (\<lambda>area. Inr (put_object base (ob\<lparr>so_payload := area\<rparr>) fs)))"

definition load_payload :: "nat option \<Rightarrow> nat \<Rightarrow> shm_fs \<Rightarrow> char list res" where
  "load_payload base n fs = rbind (object_at base fs) (\<lambda>ob. memcpy_from (so_payload ob) 0 n)"

section \<open>Setting up\<close>

definition manager_shm_path :: "int \<Rightarrow> int \<Rightarrow> string" where
  "manager_shm_path job app = ''/dynpm_'' @ show_int job @ ''_'' @ show_int app"

definition process_shm_path :: "int \<Rightarrow> int \<Rightarrow> int \<Rightarrow> string" where
  "process_shm_path job app pid = ''/dynpm_'' @ show_int job @ ''_'' @ show_int app @ ''_'' @ show_int pid"

text \<open>Whether the three system calls succeed, and the object a newly created name gets.\<close>

record shm_env =
  env_open :: bool
  env_truncate :: bool
  env_map :: bool
  env_new :: nat

text \<open>\<open>shm_open\<close> with \<open>O_CREAT\<close>, and \<open>ftruncate\<close> to \<open>n\<close> bytes: the area grows with zero bytes.\<close>

definition shm_create :: "shm_env \<Rightarrow> string \<Rightarrow> shm_fs \<Rightarrow> nat \<times> shm_fs" where
  "shm_create e path fs =
     (case fs_names fs path of Some b \<Rightarrow> (b, fs)
      | None \<Rightarrow> (env_new e, \<lparr>fs_names = (fs_names fs)(path \<mapsto> env_new e),
                           fs_objects = (fs_objects fs)(env_new e \<mapsto> \<lparr>so_line = Zero_Line, so_payload = []\<rparr>)\<rparr>))"

definition resize :: "nat \<Rightarrow> char list \<Rightarrow> char list" where
  "resize n area = take n area @ replicate (n - length area) NUL"

definition shm_truncate :: "nat \<Rightarrow> nat \<Rightarrow> shm_fs \<Rightarrow> shm_fs" where
  "shm_truncate b n fs =
     (case fs_objects fs b of None \<Rightarrow> fs
      | Some ob \<Rightarrow> fs\<lparr>fs_objects := (fs_objects fs)(b \<mapsto> ob\<lparr>so_payload := resize (n - 64) (so_payload ob)\<rparr>)\<rparr>)"

text \<open>
  Opening, sizing and mapping a segment, as \<open>_init_manager_shm\<close> and \<open>_init_process_shm\<close> do it. The
  descriptor is stored in a \<open>uint32_t\<close>, so the test \<open>shm_fd < 0\<close> is never true; a failed open shows up
  as a failed \<open>ftruncate\<close>. \<open>ftruncate\<close> refuses a negative size and \<open>mmap\<close> an empty mapping. The result
  is the error code and the mapping.
\<close>

definition open_segment :: "shm_env \<Rightarrow> string \<Rightarrow> int \<Rightarrow> shm_fs \<Rightarrow> int \<times> nat option \<times> shm_fs" where
  "open_segment e path bytes fs =
     (if \<not> env_open e then (-1, None, fs)
      else let (b, fs1) = shm_create e path fs in
        if \<not> env_truncate e \<or> bytes < 0 then (-1, None, fs1)
        else let fs2 = shm_truncate b (nat bytes) fs1 in
          if \<not> env_map e \<or> bytes = 0 then (-2, None, fs2) else (0, Some b, fs2))"

definition new_manager_line :: "int \<Rightarrow> int \<Rightarrow> int \<Rightarrow> int \<Rightarrow> int \<Rightarrow> manager_line" where
  "new_manager_line pid job app bytes count =
     zero_manager_line\<lparr>ml_manager_pid := word_of_int pid, ml_job_index := word_of_int job,
       ml_application_index := word_of_int app, ml_shm_mapped_bytes := word_of_int bytes,
       ml_process_count := word_of_int count, ml_payload_max := word_of_int (bytes - 64)\<rparr>"

definition new_process_line :: "int \<Rightarrow> int \<Rightarrow> int \<Rightarrow> int \<Rightarrow> process_line" where
  "new_process_line pid job app bytes =
     zero_process_line\<lparr>pl_process_pid := word_of_int pid, pl_job_index := word_of_int job,
       pl_application_index := word_of_int app, pl_shm_mapped_bytes := word_of_int bytes,
       pl_payload_max := word_of_int (bytes - 64)\<rparr>"

text \<open>\<open>_init_manager_shm\<close>: \<open>g\<close> is the content of the blocks allocated for the process copies.\<close>

definition init_manager_shm ::
    "shm_env \<Rightarrow> process_ctl \<Rightarrow> int \<Rightarrow> int \<Rightarrow> int \<Rightarrow> int \<Rightarrow> int \<Rightarrow> shm_fs \<Rightarrow> (int \<times> shm_local \<times> shm_fs) res" where
  "init_manager_shm e g pid job app pages count fs =
     rassert (int32_ok (pages * 4096)) Int_Overflow
       (let l = new_manager_line pid job app (pages * 4096) count;
            (rc, base, fs1) = open_segment e (manager_shm_path job app) (pages * 4096) fs;
            lc = \<lparr>manager_control = Some \<lparr>mc_line = l, mc_base = base\<rparr>,
                  process_control = Some (replicate (nat count) g), mapped_payload = nat (pages * 4096) - 64\<rparr>
        in if rc \<noteq> 0 then Inr (rc, lc, fs1)
           else rbind (store_manager base l fs1) (\<lambda>fs2. Inr (0, lc, fs2)))"

text \<open>\<open>_init_process_shm\<close>, for one entry of the process table.\<close>

definition init_process_shm ::
    "shm_env \<Rightarrow> int \<Rightarrow> int \<Rightarrow> int \<Rightarrow> int \<Rightarrow> shm_fs \<Rightarrow> (int \<times> process_ctl \<times> shm_fs) res" where
  "init_process_shm e job app pages pid fs =
     rassert (int32_ok (pages * 4096)) Int_Overflow
       (let l = new_process_line pid job app (pages * 4096);
            (rc, base, fs1) = open_segment e (process_shm_path job app pid) (pages * 4096) fs;
            pc = \<lparr>pc_line = l, pc_base = base\<rparr>
        in if rc \<noteq> 0 then Inr (rc, pc, fs1)
           else rbind (store_process base l fs1) (\<lambda>fs2. Inr (0, pc, fs2)))"

fun init_processes ::
    "shm_env list \<Rightarrow> int \<Rightarrow> int \<Rightarrow> int \<Rightarrow> int list \<Rightarrow> shm_fs \<Rightarrow> (int \<times> process_ctl list \<times> shm_fs) res" where
  "init_processes es job app pages [] fs = Inr (0, [], fs)"
| "init_processes es job app pages (pid # pids) fs =
     (case es of [] \<Rightarrow> Inl Out_Of_Bounds
      | e # es' \<Rightarrow>
          rbind (init_process_shm e job app pages pid fs) (\<lambda>(rc, pc, fs1).
          rbind (init_processes es' job app pages pids fs1) (\<lambda>(rcs, pcs, fs2).
            Inr (rc + rcs, pc # pcs, fs2))))"

text \<open>\<open>dynpm_shm_manager_init\<close>: the codes of all parts are added up.\<close>

definition dynpm_shm_manager_init ::
    "shm_env \<Rightarrow> shm_env list \<Rightarrow> process_ctl \<Rightarrow> int \<Rightarrow> int \<Rightarrow> int \<Rightarrow> int \<Rightarrow> int \<Rightarrow> int list \<Rightarrow> shm_local \<Rightarrow> shm_fs \<Rightarrow>
     (int \<times> shm_local \<times> shm_fs) res" where
  "dynpm_shm_manager_init e es g pid job app manager_pages process_pages pids lc fs =
     rassert (manager_control lc = None) Assert_Failed
       (rbind (init_manager_shm e g pid job app manager_pages (int (length pids)) fs) (\<lambda>(rc, lc1, fs1).
        rbind (init_processes es job app process_pages pids fs1) (\<lambda>(rcs, pcs, fs2).
          Inr (rc + rcs, lc1\<lparr>process_control := Some pcs\<rparr>, fs2))))"

text \<open>
  \<open>dynpm_shm_process_attach\<close>: both segments must exist. Here, too, a failed \<open>shm_open\<close> is only noticed
  by \<open>mmap\<close>, which also refuses a length that is zero or, converted from a negative number, exceeds the
  address space. \<open>gm\<close> and \<open>gp\<close> are the contents of the two new blocks.
\<close>

definition map_segment :: "bool \<Rightarrow> int \<Rightarrow> string \<Rightarrow> shm_fs \<Rightarrow> nat option" where
  "map_segment ok bytes path fs = (if ok \<and> 0 < bytes then fs_names fs path else None)"

definition dynpm_shm_process_attach ::
    "bool \<Rightarrow> bool \<Rightarrow> manager_line \<Rightarrow> process_line \<Rightarrow> int \<Rightarrow> int \<Rightarrow> int \<Rightarrow> int \<Rightarrow> int \<Rightarrow> shm_local \<Rightarrow> shm_fs \<Rightarrow>
     (int \<times> shm_local) res" where
  "dynpm_shm_process_attach ok_manager ok_process gm gp pid job app manager_pages process_pages lc fs =
     rassert (manager_control lc = None) Assert_Failed
       (rassert (int32_ok (manager_pages * 4096)) Int_Overflow
       (let mbase = map_segment ok_manager (manager_pages * 4096) (manager_shm_path job app) fs in
        if mbase = None then Inr (-5, lc\<lparr>manager_control := Some \<lparr>mc_line = gm, mc_base = None\<rparr>\<rparr>)
        else rbind (load_manager mbase fs) (\<lambda>ml.
          let lc1 = lc\<lparr>manager_control := Some \<lparr>mc_line = ml, mc_base = mbase\<rparr>,
                        mapped_payload := nat (manager_pages * 4096) - 64\<rparr> in
          rassert (process_control lc = None) Assert_Failed
            (rassert (int32_ok (process_pages * 4096)) Int_Overflow
            (let pbase = map_segment ok_process (process_pages * 4096) (process_shm_path job app pid) fs in
             if pbase = None then Inr (-1, lc1\<lparr>process_control := Some [\<lparr>pc_line = gp, pc_base = None\<rparr>]\<rparr>)
             else rbind (load_process pbase fs) (\<lambda>pl.
               Inr (0, lc1\<lparr>process_control := Some [\<lparr>pc_line = pl, pc_base = pbase\<rparr>]\<rparr>)))))))"

text \<open>\<open>dynpm_shm_manager_finalize\<close> and \<open>dynpm_shm_process_detach\<close> have the same body: the manager's
  segment is unmapped and its name removed, the process blocks stay as they are.\<close>

definition dynpm_shm_manager_finalize :: "shm_local \<Rightarrow> shm_fs \<Rightarrow> (int \<times> shm_local \<times> shm_fs) res" where
  "dynpm_shm_manager_finalize lc fs =
     (case manager_control lc of None \<Rightarrow> Inl Null_Deref
      | Some mc \<Rightarrow>
          (let path = manager_shm_path (sint (ml_job_index (mc_line mc))) (sint (ml_application_index (mc_line mc)))
           in Inr (0, lc\<lparr>manager_control := None\<rparr>, fs\<lparr>fs_names := (fs_names fs)(path := None)\<rparr>)))"

definition dynpm_shm_process_detach :: "shm_local \<Rightarrow> shm_fs \<Rightarrow> (int \<times> shm_local \<times> shm_fs) res" where
  "dynpm_shm_process_detach lc fs =
     (case manager_control lc of None \<Rightarrow> Inl Null_Deref
      | Some mc \<Rightarrow>
          (let path = manager_shm_path (sint (ml_job_index (mc_line mc))) (sint (ml_application_index (mc_line mc)))
           in Inr (0, lc\<lparr>manager_control := None\<rparr>, fs\<lparr>fs_names := (fs_names fs)(path := None)\<rparr>)))"

section \<open>Messages from the manager\<close>

text \<open>The loop of \<open>_all_processes_read_ready\<close>: refresh the copies, count those that have read.\<close>

fun read_ready :: "u32 \<Rightarrow> nat \<Rightarrow> process_ctl list \<Rightarrow> shm_fs \<Rightarrow> (nat \<times> process_ctl list) res" where
  "read_ready w 0 pcs fs = Inr (0, pcs)"
| "read_ready w (Suc n) [] fs = Inl Out_Of_Bounds"
| "read_ready w (Suc n) (pc # pcs) fs =
     rbind (load_process (pc_base pc) fs) (\<lambda>l.
     rbind (read_ready w n pcs fs) (\<lambda>(k, pcs').
       Inr (if pl_read_count l = w then Suc k else k, pc\<lparr>pc_line := l\<rparr> # pcs')))"

definition all_processes_read_ready :: "manager_ctl \<Rightarrow> process_ctl list \<Rightarrow> shm_fs \<Rightarrow> (bool \<times> process_ctl list) res" where
  "all_processes_read_ready mc pcs fs =
     (let n = unat (ml_process_count (mc_line mc)) in
      rbind (read_ready (ml_write_count (mc_line mc)) n pcs fs) (\<lambda>(k, pcs'). Inr (k = n, pcs')))"

definition dynpm_shm_manager_write ::
    "char list option \<Rightarrow> int \<Rightarrow> shm_local \<Rightarrow> shm_fs \<Rightarrow> (int \<times> shm_local \<times> shm_fs) res" where
  "dynpm_shm_manager_write payload payload_bytes lc fs =
     (case payload of None \<Rightarrow> Inr (-1, lc, fs)
      | Some p \<Rightarrow>
          (case (manager_control lc, process_control lc) of
             (Some mc, Some pcs) \<Rightarrow>
               if payload_bytes > 0 \<and> payload_bytes < uint (ml_payload_max (mc_line mc)) then
                 rbind (all_processes_read_ready mc pcs fs) (\<lambda>(ready, pcs').
                 let lc1 = lc\<lparr>process_control := Some pcs'\<rparr> in
                 if ready then
                   rbind (store_payload (mc_base mc) p (nat payload_bytes) fs) (\<lambda>fs1.
                   let l = (mc_line mc)\<lparr>ml_payload_bytes := word_of_int payload_bytes,
                                       ml_write_count := ml_write_count (mc_line mc) + 1\<rparr> in
                   rbind (store_manager (mc_base mc) l fs1) (\<lambda>fs2.
                     Inr (0, lc1\<lparr>manager_control := Some (mc\<lparr>mc_line := l\<rparr>)\<rparr>, fs2)))
                 else Inr (-2, lc1, fs))
               else Inr (-3, lc, fs)
           | _ \<Rightarrow> Inl Null_Deref))"

text \<open>
  \<open>dynpm_shm_process_read\<close> into a buffer of \<open>cap\<close> bytes: the data copied (empty when there is nothing
  new), or no data with code -1.
\<close>

definition dynpm_shm_process_read ::
    "nat \<Rightarrow> shm_local \<Rightarrow> shm_fs \<Rightarrow> (int \<times> char list option \<times> shm_local \<times> shm_fs) res" where
  "dynpm_shm_process_read cap lc fs =
     (case (manager_control lc, process_control lc) of
        (Some mc, Some (pc # pcs)) \<Rightarrow>
          rbind (load_manager (mc_base mc) fs) (\<lambda>ml.
          let lc1 = lc\<lparr>manager_control := Some (mc\<lparr>mc_line := ml\<rparr>)\<rparr>; r = pl_read_count (pc_line pc) in
          if r = ml_write_count ml then Inr (0, Some [], lc1, fs)
          else if r = ml_write_count ml - 1 then
            rassert (unat (ml_payload_bytes ml) \<le> mapped_payload lc) Out_Of_Bounds
            (rbind (load_payload (mc_base mc) (unat (ml_payload_bytes ml)) fs) (\<lambda>data.
            rassert (unat (ml_payload_bytes ml) \<le> cap) Buffer_Overflow
              (let l = (pc_line pc)\<lparr>pl_read_count := r + 1\<rparr> in
               rbind (store_process (pc_base pc) l fs) (\<lambda>fs1.
                 Inr (0, Some data, lc1\<lparr>process_control := Some (pc\<lparr>pc_line := l\<rparr> # pcs)\<rparr>, fs1)))))
          else Inr (-1, None, lc1, fs))
      | _ \<Rightarrow> Inl Null_Deref)"

section \<open>Malleability modes from the processes\<close>

definition dynpm_shm_process_set_malleability_mode ::
    "u32 \<Rightarrow> shm_local \<Rightarrow> shm_fs \<Rightarrow> (int \<times> shm_local \<times> shm_fs) res" where
  "dynpm_shm_process_set_malleability_mode mode lc fs =
     (case process_control lc of
        Some (pc # pcs) \<Rightarrow>
          (let l = (pc_line pc)\<lparr>pl_malleability_mode := mode, pl_write_count := pl_write_count (pc_line pc) + 1,
                               pl_payload_bytes := 0\<rparr> in
           rbind (store_process (pc_base pc) l fs) (\<lambda>fs1.
             Inr (0, lc\<lparr>process_control := Some (pc\<lparr>pc_line := l\<rparr> # pcs)\<rparr>, fs1)))
      | _ \<Rightarrow> Inl Null_Deref)"

text \<open>The loop of \<open>_sync_processes_meta\<close>, with the manager's read count \<open>r\<close>.\<close>

fun sync_processes_meta :: "u32 \<Rightarrow> nat \<Rightarrow> process_ctl list \<Rightarrow> shm_fs \<Rightarrow> (nat \<times> process_ctl list) res" where
  "sync_processes_meta r 0 pcs fs = Inr (0, pcs)"
| "sync_processes_meta r (Suc n) [] fs = Inl Out_Of_Bounds"
| "sync_processes_meta r (Suc n) (pc # pcs) fs =
     rbind (load_process (pc_base pc) fs) (\<lambda>l.
     rbind (sync_processes_meta r n pcs fs) (\<lambda>(k, pcs').
       Inr (if pl_write_count l = r - 1 \<and> pl_payload_bytes l = 0 then Suc k else k, pc\<lparr>pc_line := l\<rparr> # pcs')))"

text \<open>The comparison of the reported modes with the first one.\<close>

definition mode_mismatch :: "nat \<Rightarrow> process_ctl list \<Rightarrow> bool" where
  "mode_mismatch n pcs \<longleftrightarrow>
     list_ex (\<lambda>pc. pl_malleability_mode (pc_line (hd pcs)) \<noteq> pl_malleability_mode (pc_line pc)) (tl (take n pcs))"

text \<open>\<open>dynpm_shm_manager_get_malleability_mode\<close>: return code, mode and status.\<close>

definition dynpm_shm_manager_get_malleability_mode ::
    "shm_local \<Rightarrow> shm_fs \<Rightarrow> (int \<times> u32 \<times> u32 \<times> shm_local \<times> shm_fs) res" where
  "dynpm_shm_manager_get_malleability_mode lc fs =
     (case (manager_control lc, process_control lc) of
        (Some mc, Some pcs) \<Rightarrow>
          (let n = unat (ml_process_count (mc_line mc)) in
           rbind (sync_processes_meta (ml_read_count (mc_line mc)) n pcs fs) (\<lambda>(updates, pcs').
           let lc1 = lc\<lparr>process_control := Some pcs'\<rparr> in
           if updates = n \<or> updates = 0 then
             rbind (if updates > 0 then
                      (let l = (mc_line mc)\<lparr>ml_read_count := ml_read_count (mc_line mc) + 1\<rparr> in
                       rbind (store_manager (mc_base mc) l fs) (\<lambda>fs1.
                         Inr (lc1\<lparr>manager_control := Some (mc\<lparr>mc_line := l\<rparr>)\<rparr>, fs1)))
                    else Inr (lc1, fs)) (\<lambda>(lc2, fs2).
             rassert (pcs' \<noteq> []) Out_Of_Bounds
               (if mode_mismatch n pcs' then Inr (-1, 0, -2, lc2, fs2)
                else Inr (0, pl_malleability_mode (pc_line (hd pcs')), 0, lc2, fs2)))
           else Inr (-1, 0, -1, lc1, fs)))
      | _ \<Rightarrow> Inl Null_Deref)"

end
