(* ===== verification/Shm_Session.thy ===== *)
theory Shm_Session
  imports Shm
begin

text \<open>
  A session of one manager and its attached processes over the operations of \<open>Shm\<close>. The state holds
  the shared objects and the private variables of every participant, with a record of what the
  manager wrote and what each process read. The invariant ties the wrapping 32-bit counters to these
  records: every message is read by every process exactly once and in order, and none is overwritten
  before all have read it.
\<close>

section \<open>Sessions\<close>

record session =
  ss_fs :: shm_fs
  ss_manager :: shm_local
  ss_process :: "nat \<Rightarrow> shm_local"
  ss_sent :: "char list list"
  ss_recv :: "nat \<Rightarrow> char list list"

text \<open>The operations at session level: one participant calls, the log records what was transferred.\<close>

definition session_write :: "char list option \<Rightarrow> int \<Rightarrow> session \<Rightarrow> (int \<times> session) res" where
  "session_write p k S =
     rbind (dynpm_shm_manager_write p k (ss_manager S) (ss_fs S)) (\<lambda>(rc, lc, fs).
       Inr (rc, S\<lparr>ss_fs := fs, ss_manager := lc,
                 ss_sent := (if rc = 0 then ss_sent S @ [take (nat k) (the p)] else ss_sent S)\<rparr>))"

definition session_read :: "nat \<Rightarrow> nat \<Rightarrow> session \<Rightarrow> (int \<times> session) res" where
  "session_read i cap S =
     rbind (dynpm_shm_process_read cap (ss_process S i) (ss_fs S)) (\<lambda>(rc, data, lc, fs).
       Inr (rc, S\<lparr>ss_fs := fs, ss_process := (ss_process S)(i := lc),
                 ss_recv := (case data of None \<Rightarrow> ss_recv S | Some d \<Rightarrow>
                   if d = [] then ss_recv S else (ss_recv S)(i := ss_recv S i @ [d]))\<rparr>))"

definition session_set_mode :: "nat \<Rightarrow> u32 \<Rightarrow> session \<Rightarrow> (int \<times> session) res" where
  "session_set_mode i mode S =
     rbind (dynpm_shm_process_set_malleability_mode mode (ss_process S i) (ss_fs S)) (\<lambda>(rc, lc, fs).
       Inr (rc, S\<lparr>ss_fs := fs, ss_process := (ss_process S)(i := lc)\<rparr>))"

definition session_get_mode :: "session \<Rightarrow> (int \<times> u32 \<times> u32 \<times> session) res" where
  "session_get_mode S =
     rbind (dynpm_shm_manager_get_malleability_mode (ss_manager S) (ss_fs S)) (\<lambda>(rc, mode, status, lc, fs).
       Inr (rc, mode, status, S\<lparr>ss_fs := fs, ss_manager := lc\<rparr>))"

inductive session_step :: "nat \<Rightarrow> session \<Rightarrow> session \<Rightarrow> bool" for n where
  do_write: "session_write p k S = Inr (rc, S') \<Longrightarrow> session_step n S S'"
| do_read: "i < n \<Longrightarrow> session_read i cap S = Inr (rc, S') \<Longrightarrow> session_step n S S'"
| do_set_mode: "i < n \<Longrightarrow> session_set_mode i mode S = Inr (rc, S') \<Longrightarrow> session_step n S S'"
| do_get_mode: "session_get_mode S = Inr (rc, mode, status, S') \<Longrightarrow> session_step n S S'"

inductive session_reach :: "nat \<Rightarrow> session \<Rightarrow> session \<Rightarrow> bool" for n S where
  start: "session_reach n S S"
| step: "session_reach n S T \<Longrightarrow> session_step n T U \<Longrightarrow> session_reach n S U"

section \<open>The invariant\<close>

text \<open>The manager: its private line is the one in its object \<open>mo\<close>; its table covers the objects \<open>po i\<close> of the
  processes; the area is large enough and starts with the last message.\<close>

definition manager_ok :: "nat \<Rightarrow> nat \<Rightarrow> (nat \<Rightarrow> nat) \<Rightarrow> manager_line \<Rightarrow> session \<Rightarrow> bool" where
  "manager_ok n mo po ml S \<longleftrightarrow>
     (\<exists>pcs area. manager_control (ss_manager S) = Some \<lparr>mc_line = ml, mc_base = Some mo\<rparr> \<and>
        process_control (ss_manager S) = Some pcs \<and> map pc_base pcs = map (\<lambda>i. Some (po i)) [0..<n] \<and>
        unat (ml_process_count ml) = n \<and>
        fs_objects (ss_fs S) mo = Some \<lparr>so_line = Manager_Line ml, so_payload = area\<rparr> \<and>
        unat (ml_payload_max ml) \<le> length area \<and>
        (ss_sent S \<noteq> [] \<longrightarrow> last (ss_sent S) \<noteq> [] \<and> unat (ml_payload_bytes ml) \<le> unat (ml_payload_max ml) \<and>
           take (unat (ml_payload_bytes ml)) area = last (ss_sent S)))"

text \<open>Process \<open>i\<close>: its private line is the one in its object, its read count says what it has read, and
  its mapping reaches every message.\<close>

definition reads_ok :: "u32 \<Rightarrow> u32 \<Rightarrow> char list list \<Rightarrow> char list list \<Rightarrow> bool" where
  "reads_ok r w recv sent \<longleftrightarrow> (r = w \<and> recv = sent) \<or> (r = w - 1 \<and> sent \<noteq> [] \<and> recv = butlast sent)"

definition process_ok :: "nat \<Rightarrow> (nat \<Rightarrow> nat) \<Rightarrow> manager_line \<Rightarrow> session \<Rightarrow> nat \<Rightarrow> bool" where
  "process_ok mo po ml S i \<longleftrightarrow>
     unat (ml_payload_max ml) \<le> mapped_payload (ss_process S i) \<and>
     (\<exists>mc pl area. manager_control (ss_process S i) = Some mc \<and> mc_base mc = Some mo \<and>
        process_control (ss_process S i) = Some [\<lparr>pc_line = pl, pc_base = Some (po i)\<rparr>] \<and>
        fs_objects (ss_fs S) (po i) = Some \<lparr>so_line = Process_Line pl, so_payload = area\<rparr> \<and>
        reads_ok (pl_read_count pl) (ml_write_count ml) (ss_recv S i) (ss_sent S))"

definition session_ok :: "nat \<Rightarrow> nat \<Rightarrow> (nat \<Rightarrow> nat) \<Rightarrow> session \<Rightarrow> bool" where
  "session_ok n mo po S \<longleftrightarrow>
     inj_on po {..<n} \<and> mo \<notin> po ` {..<n} \<and>
     (\<exists>ml. manager_ok n mo po ml S \<and> (\<forall>i<n. process_ok mo po ml S i))"

section \<open>The loops over the processes\<close>

lemma length_filter_all: "length (filter P xs) = length xs \<longleftrightarrow> (\<forall>x \<in> set xs. P x)"
proof (induction xs)
  case (Cons x xs)
  moreover have "length (filter P xs) \<noteq> Suc (length xs)" using length_filter_le [of P xs] by linarith
  ultimately show ?case by auto
qed simp

lemma read_ready_ok:
  "list_all2 (\<lambda>pc l. load_process (pc_base pc) fs = Inr l) pcs ls \<Longrightarrow>
   read_ready w (length pcs) pcs fs =
     Inr (length (filter (\<lambda>l. pl_read_count l = w) ls), map2 (\<lambda>pc l. pc\<lparr>pc_line := l\<rparr>) pcs ls)"
  by (induction rule: list_all2_induct) auto

lemma sync_processes_meta_ok:
  "list_all2 (\<lambda>pc l. load_process (pc_base pc) fs = Inr l) pcs ls \<Longrightarrow>
   sync_processes_meta r (length pcs) pcs fs =
     Inr (length (filter (\<lambda>l. pl_write_count l = r - 1 \<and> pl_payload_bytes l = 0) ls),
          map2 (\<lambda>pc l. pc\<lparr>pc_line := l\<rparr>) pcs ls)"
  by (induction rule: list_all2_induct) auto

lemma pc_base_map2: "length pcs = length ls \<Longrightarrow> map pc_base (map2 (\<lambda>pc l. pc\<lparr>pc_line := l\<rparr>) pcs ls) = map pc_base pcs"
  by (induction pcs ls rule: list_induct2) auto

lemma pc_line_map2: "length pcs = length ls \<Longrightarrow> map pc_line (map2 (\<lambda>pc l. pc\<lparr>pc_line := l\<rparr>) pcs ls) = ls"
  by (induction pcs ls rule: list_induct2) auto

text \<open>Refreshing the copies never moves a mapping.\<close>

lemma read_ready_base: "read_ready w n pcs fs = Inr (k, pcs') \<Longrightarrow> map pc_base pcs' = map pc_base pcs"
  by (induction w n pcs fs arbitrary: k pcs' rule: read_ready.induct) (auto simp: res_simps)

lemma sync_base: "sync_processes_meta r n pcs fs = Inr (k, pcs') \<Longrightarrow> map pc_base pcs' = map pc_base pcs"
  by (induction r n pcs fs arbitrary: k pcs' rule: sync_processes_meta.induct) (auto simp: res_simps)

text \<open>The line process \<open>i\<close> keeps.\<close>

definition own_line :: "session \<Rightarrow> nat \<Rightarrow> process_line" where
  "own_line S i = pc_line (hd (the (process_control (ss_process S i))))"

lemma manager_sees_lines:
  assumes "\<forall>i<n. process_ok mo po ml S i" and "map pc_base pcs = map (\<lambda>i. Some (po i)) [0..<n]"
  shows "list_all2 (\<lambda>pc l. load_process (pc_base pc) (ss_fs S) = Inr l) pcs (map (own_line S) [0..<n])"
proof -
  have len: "length pcs = n" using assms(2) by (metis length_map length_upt minus_nat.diff_0)
  have "load_process (pc_base (pcs ! i)) (ss_fs S) = Inr (own_line S i)" if "i < n" for i
  proof -
    have "pc_base (pcs ! i) = Some (po i)" using arg_cong [OF assms(2), of "\<lambda>xs. xs ! i"] that len by simp
    with assms(1) that show ?thesis by (auto simp: process_ok_def load_process_def object_at_def own_line_def)
  qed
  then show ?thesis using len by (simp add: list_all2_conv_all_nth)
qed

lemma butlast_neq: "xs \<noteq> [] \<Longrightarrow> butlast xs \<noteq> xs"
  by (metis append_butlast_last_id not_Cons_self2 self_append_conv)

lemma ready_iff:
  assumes "\<forall>i<n. process_ok mo po ml S i"
  shows "(\<forall>i<n. pl_read_count (own_line S i) = ml_write_count ml) \<longrightarrow> (\<forall>i<n. ss_recv S i = ss_sent S)"
    and "(\<forall>i<n. ss_recv S i = ss_sent S) \<longrightarrow> (\<forall>i<n. pl_read_count (own_line S i) = ml_write_count ml)"
proof -
  have r: "reads_ok (pl_read_count (own_line S i)) (ml_write_count ml) (ss_recv S i) (ss_sent S)" if "i < n" for i
    using assms that by (auto simp: process_ok_def own_line_def)
  show "(\<forall>i<n. pl_read_count (own_line S i) = ml_write_count ml) \<longrightarrow> (\<forall>i<n. ss_recv S i = ss_sent S)"
    using r by (auto simp: reads_ok_def)
  show "(\<forall>i<n. ss_recv S i = ss_sent S) \<longrightarrow> (\<forall>i<n. pl_read_count (own_line S i) = ml_write_count ml)"
    using r butlast_neq by (metis reads_ok_def)
qed

section \<open>Writing\<close>

lemma nat_below_unat: "k < uint (w :: u32) \<Longrightarrow> nat k \<le> unat w"
  unfolding unat_eq_nat_uint by (rule nat_mono) simp

lemma unat_of_small_int:
  assumes "0 \<le> k" and "k < uint (w :: u32)"
  shows "unat (word_of_int k :: u32) = nat k"
proof -
  have "k < 2 ^ 32" using assms(2) uint_lt2p [of w] by simp
  then have "uint (word_of_int k :: u32) = k" using assms(1) by (simp add: uint_word_of_int)
  then show ?thesis by (simp only: unat_eq_nat_uint)
qed

text \<open>What a call of the manager's write does, exactly and case by case.\<close>

lemma manager_write_eq:
  assumes ok: "\<forall>i<n. process_ok mo po ml S i"
    and m: "manager_control (ss_manager S) = Some \<lparr>mc_line = ml, mc_base = Some mo\<rparr>"
      "process_control (ss_manager S) = Some pcs" "map pc_base pcs = map (\<lambda>i. Some (po i)) [0..<n]"
      "unat (ml_process_count ml) = n" "fs_objects (ss_fs S) mo = Some \<lparr>so_line = Manager_Line ml, so_payload = area\<rparr>"
      "unat (ml_payload_max ml) \<le> length area"
    and k: "0 < k" "k < uint (ml_payload_max ml)" "nat k \<le> length p"
  defines "pcs' \<equiv> map2 (\<lambda>pc l. pc\<lparr>pc_line := l\<rparr>) pcs (map (own_line S) [0..<n])"
  shows "dynpm_shm_manager_write (Some p) k (ss_manager S) (ss_fs S) =
      (if \<forall>i<n. pl_read_count (own_line S i) = ml_write_count ml then
         (let l = ml\<lparr>ml_payload_bytes := word_of_int k, ml_write_count := ml_write_count ml + 1\<rparr> in
          Inr (0, (ss_manager S)\<lparr>manager_control := Some \<lparr>mc_line = l, mc_base = Some mo\<rparr>, process_control := Some pcs'\<rparr>,
             (ss_fs S)\<lparr>fs_objects := (fs_objects (ss_fs S))(mo \<mapsto>
                \<lparr>so_line = Manager_Line l, so_payload = take (nat k) p @ drop (nat k) area\<rparr>)\<rparr>))
       else Inr (-2, (ss_manager S)\<lparr>process_control := Some pcs'\<rparr>, ss_fs S))"
    and "map pc_base pcs' = map (\<lambda>i. Some (po i)) [0..<n]"
proof -
  let ?ls = "map (own_line S) [0..<n]"
  have len: "length pcs = n" using m(3) by (metis length_map length_upt minus_nat.diff_0)
  note rr = read_ready_ok [OF manager_sees_lines [OF ok m(3)], of "ml_write_count ml", unfolded len]
  have all: "length (filter (\<lambda>l. pl_read_count l = ml_write_count ml) ?ls) = n \<longleftrightarrow>
      (\<forall>i<n. pl_read_count (own_line S i) = ml_write_count ml)"
    using length_filter_all [of "\<lambda>l. pl_read_count l = ml_write_count ml" ?ls] by auto
  have kl: "nat k \<le> length area" using order_trans [OF nat_below_unat [OF k(2)] m(6)] .
  show "map pc_base pcs' = map (\<lambda>i. Some (po i)) [0..<n]"
    using pc_base_map2 [of pcs ?ls] len m(3) by (simp add: pcs'_def)
  show "dynpm_shm_manager_write (Some p) k (ss_manager S) (ss_fs S) =
      (if \<forall>i<n. pl_read_count (own_line S i) = ml_write_count ml then
         (let l = ml\<lparr>ml_payload_bytes := word_of_int k, ml_write_count := ml_write_count ml + 1\<rparr> in
          Inr (0, (ss_manager S)\<lparr>manager_control := Some \<lparr>mc_line = l, mc_base = Some mo\<rparr>, process_control := Some pcs'\<rparr>,
             (ss_fs S)\<lparr>fs_objects := (fs_objects (ss_fs S))(mo \<mapsto>
                \<lparr>so_line = Manager_Line l, so_payload = take (nat k) p @ drop (nat k) area\<rparr>)\<rparr>))
       else Inr (-2, (ss_manager S)\<lparr>process_control := Some pcs'\<rparr>, ss_fs S))"
    using k m rr kl all
    by (simp add: dynpm_shm_manager_write_def all_processes_read_ready_def Let_def store_payload_def store_manager_def
        object_at_def put_object_def memcpy_to_def pcs'_def)
qed

lemma manager_write_cases:
  assumes ok: "manager_ok n mo po ml S" "\<forall>i<n. process_ok mo po ml S i"
    and k: "0 < k" "k < uint (ml_payload_max ml)" "nat k \<le> length p"
  obtains pcs area where
    "map pc_base pcs = map (\<lambda>i. Some (po i)) [0..<n]"
    "fs_objects (ss_fs S) mo = Some \<lparr>so_line = Manager_Line ml, so_payload = area\<rparr>"
    "(\<forall>i<n. pl_read_count (own_line S i) = ml_write_count ml) \<Longrightarrow>
     dynpm_shm_manager_write (Some p) k (ss_manager S) (ss_fs S) =
       (let l = ml\<lparr>ml_payload_bytes := word_of_int k, ml_write_count := ml_write_count ml + 1\<rparr> in
        Inr (0, (ss_manager S)\<lparr>manager_control := Some \<lparr>mc_line = l, mc_base = Some mo\<rparr>, process_control := Some pcs\<rparr>,
             (ss_fs S)\<lparr>fs_objects := (fs_objects (ss_fs S))(mo \<mapsto>
                \<lparr>so_line = Manager_Line l, so_payload = take (nat k) p @ drop (nat k) area\<rparr>)\<rparr>))"
    "\<not> (\<forall>i<n. pl_read_count (own_line S i) = ml_write_count ml) \<Longrightarrow>
     dynpm_shm_manager_write (Some p) k (ss_manager S) (ss_fs S) =
       Inr (-2, (ss_manager S)\<lparr>process_control := Some pcs\<rparr>, ss_fs S)"
proof -
  from ok(1) obtain pcs area where m: "manager_control (ss_manager S) = Some \<lparr>mc_line = ml, mc_base = Some mo\<rparr>"
    "process_control (ss_manager S) = Some pcs" "map pc_base pcs = map (\<lambda>i. Some (po i)) [0..<n]"
    "unat (ml_process_count ml) = n" "fs_objects (ss_fs S) mo = Some \<lparr>so_line = Manager_Line ml, so_payload = area\<rparr>"
    "unat (ml_payload_max ml) \<le> length area"
    by (auto simp: manager_ok_def)
  note wr = manager_write_eq [OF ok(2) m k]
  show thesis by (rule that [OF wr(2) m(5)]) (unfold wr(1), auto)
qed

lemma process_ok_cong:
  assumes "process_ok mo po ml S i" and "ss_process S' i = ss_process S i" and "ss_recv S' i = ss_recv S i"
    and "fs_objects (ss_fs S') (po i) = fs_objects (ss_fs S) (po i)" and "ss_sent S' = ss_sent S"
  shows "process_ok mo po ml S' i"
  using assms by (simp add: process_ok_def)

lemma write_published:
  assumes inj: "mo \<notin> po ` {..<n}" and ok: "manager_ok n mo po ml S" "\<forall>i<n. process_ok mo po ml S i"
    and k: "0 < k" "k < uint (ml_payload_max ml)" "nat k \<le> length p"
    and ready: "\<forall>i<n. ss_recv S i = ss_sent S"
  shows "\<exists>S'. session_write (Some p) k S = Inr (0, S') \<and> ss_sent S' = ss_sent S @ [take (nat k) p] \<and>
     ss_recv S' = ss_recv S \<and>
     (\<exists>l. manager_ok n mo po l S' \<and> (\<forall>i<n. process_ok mo po l S' i))"
proof -
  have rd: "\<forall>i<n. pl_read_count (own_line S i) = ml_write_count ml" using ready_iff(2) [OF ok(2)] ready by blast
  let ?l = "ml\<lparr>ml_payload_bytes := word_of_int k, ml_write_count := ml_write_count ml + 1\<rparr>"
  obtain pcs area where c: "map pc_base pcs = map (\<lambda>i. Some (po i)) [0..<n]"
    "fs_objects (ss_fs S) mo = Some \<lparr>so_line = Manager_Line ml, so_payload = area\<rparr>"
    "dynpm_shm_manager_write (Some p) k (ss_manager S) (ss_fs S) =
       (let l = ?l in
        Inr (0, (ss_manager S)\<lparr>manager_control := Some \<lparr>mc_line = l, mc_base = Some mo\<rparr>, process_control := Some pcs\<rparr>,
             (ss_fs S)\<lparr>fs_objects := (fs_objects (ss_fs S))(mo \<mapsto>
                \<lparr>so_line = Manager_Line l, so_payload = take (nat k) p @ drop (nat k) area\<rparr>)\<rparr>))"
    using manager_write_cases [OF ok k] rd by metis
  let ?S = "S\<lparr>ss_fs := (ss_fs S)\<lparr>fs_objects := (fs_objects (ss_fs S))(mo \<mapsto>
                \<lparr>so_line = Manager_Line ?l, so_payload = take (nat k) p @ drop (nat k) area\<rparr>)\<rparr>,
             ss_manager := (ss_manager S)\<lparr>manager_control := Some \<lparr>mc_line = ?l, mc_base = Some mo\<rparr>, process_control := Some pcs\<rparr>,
             ss_sent := ss_sent S @ [take (nat k) p]\<rparr>"
  have w: "session_write (Some p) k S = Inr (0, ?S)" using c(3) by (simp add: session_write_def Let_def)
  have max: "unat (ml_payload_max ml) \<le> length area" "unat (ml_process_count ml) = n"
    using ok(1) c(2) by (auto simp: manager_ok_def)
  have kl: "nat k \<le> length area" using order_trans [OF nat_below_unat [OF k(2)] max(1)] .
  have ku: "unat (word_of_int k :: u32) = nat k" using unat_of_small_int [of k] k(1,2) by simp
  have pn: "take (nat k) p \<noteq> []" using k(1,3) by auto
  have m: "manager_ok n mo po ?l ?S" unfolding manager_ok_def using c(1) max kl ku k(3) pn nat_below_unat [OF k(2)] by simp
  have pr: "process_ok mo po ?l ?S i" if i: "i < n" for i
  proof -
    have "po i \<noteq> mo" using inj i by auto
    moreover have "pl_read_count (own_line S i) = ml_write_count ml" "ss_recv S i = ss_sent S" using i rd ready by auto
    moreover have "process_ok mo po ml S i" using ok(2) i by blast
    ultimately show ?thesis by (auto simp: process_ok_def reads_ok_def own_line_def)
  qed
  show ?thesis using w m pr by (intro exI [of _ ?S] conjI exI [of _ ?l]) auto
qed

text \<open>A write that does not publish leaves the objects alone.\<close>

lemma write_refused:
  assumes "manager_control lc = Some mc" and "process_control lc = Some pcs"
    and "dynpm_shm_manager_write p k lc fs = Inr (rc, lc', fs')" and "rc \<noteq> 0"
  shows "fs' = fs \<and> (\<exists>pcs'. lc' = lc\<lparr>process_control := Some pcs'\<rparr> \<and> map pc_base pcs' = map pc_base pcs)"
proof -
  have "lc = lc\<lparr>process_control := Some pcs\<rparr>" using assms(2) by (cases lc) simp
  then have "\<exists>pcs'. lc = lc\<lparr>process_control := Some pcs'\<rparr> \<and> map pc_base pcs' = map pc_base pcs" by blast
  then show ?thesis using assms
    by (auto simp: dynpm_shm_manager_write_def all_processes_read_ready_def Let_def res_simps
        split: option.splits if_splits dest!: read_ready_base)
qed

lemma manager_ok_refresh:
  assumes "manager_ok n mo po ml S" and "process_control (ss_manager S) = Some pcs" and "map pc_base pcs' = map pc_base pcs"
  shows "manager_ok n mo po ml (S\<lparr>ss_manager := (ss_manager S)\<lparr>process_control := Some pcs'\<rparr>\<rparr>)"
  using assms by (auto simp: manager_ok_def)

lemma session_write_step:
  assumes ok: "session_ok n mo po S" and w: "session_write p k S = Inr (rc, S')"
  shows "session_ok n mo po S'"
proof -
  from ok obtain ml where inj: "inj_on po {..<n}" "mo \<notin> po ` {..<n}" and m: "manager_ok n mo po ml S"
    and pr: "\<forall>i<n. process_ok mo po ml S i" by (auto simp: session_ok_def)
  from w obtain lc fs where r: "dynpm_shm_manager_write p k (ss_manager S) (ss_fs S) = Inr (rc, lc, fs)"
    and S': "S' = S\<lparr>ss_fs := fs, ss_manager := lc,
                   ss_sent := (if rc = 0 then ss_sent S @ [take (nat k) (the p)] else ss_sent S)\<rparr>"
    by (auto simp: session_write_def res_simps)
  from m obtain pcs area where mc: "manager_control (ss_manager S) = Some \<lparr>mc_line = ml, mc_base = Some mo\<rparr>"
    "process_control (ss_manager S) = Some pcs" "map pc_base pcs = map (\<lambda>i. Some (po i)) [0..<n]"
    "fs_objects (ss_fs S) mo = Some \<lparr>so_line = Manager_Line ml, so_payload = area\<rparr>" by (auto simp: manager_ok_def)
  show ?thesis
  proof (cases "rc = 0")
    case True
    from r True mc obtain q where p: "p = Some q" and k: "0 < k" "k < uint (ml_payload_max ml)" "nat k \<le> length q"
      by (auto simp: dynpm_shm_manager_write_def Let_def res_simps store_payload_def memcpy_to_def object_at_def
          split: option.splits if_splits)
    have "\<forall>i<n. pl_read_count (own_line S i) = ml_write_count ml"
    proof (rule ccontr)
      assume no: "\<not> ?thesis"
      have "\<exists>x. dynpm_shm_manager_write (Some q) k (ss_manager S) (ss_fs S) = Inr (-2, x)"
        by (rule manager_write_cases [OF m pr k]) (use no in blast)
      then show False using r True p by auto
    qed
    then have "\<forall>i<n. ss_recv S i = ss_sent S" using ready_iff(1) [OF pr] by blast
    from write_published [OF inj(2) m pr k this] w p show ?thesis using inj by (auto simp: session_ok_def)
  next
    case False
    with write_refused [OF mc(1,2) r] obtain pcs' where l: "fs = ss_fs S" "lc = (ss_manager S)\<lparr>process_control := Some pcs'\<rparr>"
      "map pc_base pcs' = map pc_base pcs" by auto
    then have e: "S' = S\<lparr>ss_manager := (ss_manager S)\<lparr>process_control := Some pcs'\<rparr>\<rparr>" using S' False by simp
    have "\<forall>i<n. process_ok mo po ml S' i" using pr unfolding e by (simp add: process_ok_def)
    then show ?thesis using manager_ok_refresh [OF m mc(2) l(3)] inj unfolding session_ok_def e by blast
  qed
qed

section \<open>Reading and modes\<close>

text \<open>A process that stores its own line, leaving its read state consistent, disturbs nobody.\<close>

lemma process_update:
  assumes ok: "session_ok n mo po S" and i: "i < n" and m: "manager_ok n mo po ml S"
    and pr: "\<forall>j<n. process_ok mo po ml S j"
    and S': "ss_manager S' = ss_manager S" "ss_sent S' = ss_sent S" "\<And>j. j \<noteq> i \<Longrightarrow> ss_process S' j = ss_process S j"
      "\<And>j. j \<noteq> i \<Longrightarrow> ss_recv S' j = ss_recv S j" "\<And>b. b \<noteq> po i \<Longrightarrow> fs_objects (ss_fs S') b = fs_objects (ss_fs S) b"
    and own: "process_ok mo po ml S' i"
  shows "session_ok n mo po S'"
proof -
  have inj: "inj_on po {..<n}" "mo \<notin> po ` {..<n}" using ok by (auto simp: session_ok_def)
  have "mo \<noteq> po i" using inj(2) i by auto
  then have "manager_ok n mo po ml S'" using m S'(1,2,5) by (simp add: manager_ok_def)
  moreover have "process_ok mo po ml S' j" if j: "j < n" for j
  proof (cases "j = i")
    case False
    then have "po j \<noteq> po i" using inj(1) i j by (auto simp: inj_on_def)
    with False pr j S' show ?thesis by (intro process_ok_cong [of mo po ml S j S']) auto
  qed (use own in simp)
  ultimately show ?thesis using inj by (auto simp: session_ok_def)
qed

lemma minus_one_neq [simp]: "(w :: u32) - 1 \<noteq> w" "w \<noteq> w - 1"
  by (metis diff_add_cancel add_cancel_left_right zero_neq_one diff_eq_eq)+

text \<open>A read by process \<open>i\<close> with room for the message: it succeeds, and afterwards the process has read everything.\<close>

lemma session_read_ok:
  assumes ok: "session_ok n mo po S" and i: "i < n"
    and cap: "ss_recv S i \<noteq> ss_sent S \<longrightarrow> length (last (ss_sent S)) \<le> cap"
  shows "\<exists>S'. session_read i cap S = Inr (0, S') \<and> session_ok n mo po S' \<and> ss_recv S' i = ss_sent S \<and>
              ss_sent S' = ss_sent S"
proof -
  from ok obtain ml where m: "manager_ok n mo po ml S" and pr: "\<forall>j<n. process_ok mo po ml S j"
    by (auto simp: session_ok_def)
  from m obtain area where ob: "fs_objects (ss_fs S) mo = Some \<lparr>so_line = Manager_Line ml, so_payload = area\<rparr>"
    "ss_sent S \<noteq> [] \<longrightarrow> last (ss_sent S) \<noteq> [] \<and> unat (ml_payload_bytes ml) \<le> length area \<and>
       take (unat (ml_payload_bytes ml)) area = last (ss_sent S)"
    and mx: "ss_sent S \<noteq> [] \<longrightarrow> unat (ml_payload_bytes ml) \<le> unat (ml_payload_max ml)" by (auto simp: manager_ok_def)
  from pr i obtain mc pl parea where p: "manager_control (ss_process S i) = Some mc" "mc_base mc = Some mo"
    "process_control (ss_process S i) = Some [\<lparr>pc_line = pl, pc_base = Some (po i)\<rparr>]"
    "fs_objects (ss_fs S) (po i) = Some \<lparr>so_line = Process_Line pl, so_payload = parea\<rparr>"
    "reads_ok (pl_read_count pl) (ml_write_count ml) (ss_recv S i) (ss_sent S)" by (auto simp: process_ok_def)
  have load: "load_manager (Some mo) (ss_fs S) = Inr ml" using ob(1) by (simp add: load_manager_def object_at_def)
  let ?lc = "(ss_process S i)\<lparr>manager_control := Some (mc\<lparr>mc_line := ml\<rparr>)\<rparr>"
  show ?thesis
  proof (cases "pl_read_count pl = ml_write_count ml")
    case True
    let ?S = "S\<lparr>ss_fs := ss_fs S, ss_process := (ss_process S)(i := ?lc), ss_recv := ss_recv S\<rparr>"
    have "session_read i cap S = Inr (0, ?S)" using p load True by (simp add: session_read_def dynpm_shm_process_read_def Let_def)
    moreover have "session_ok n mo po ?S"
      using p by (intro process_update [OF ok i m pr]) (use pr i in \<open>auto simp: process_ok_def\<close>)
    ultimately show ?thesis using p(5) True by (auto simp: reads_ok_def)
  next
    case False
    then have r: "pl_read_count pl = ml_write_count ml - 1" "ss_sent S \<noteq> []" "ss_recv S i = butlast (ss_sent S)"
      using p(5) by (auto simp: reads_ok_def)
    let ?l = "pl\<lparr>pl_read_count := pl_read_count pl + 1\<rparr>"
    let ?fs = "(ss_fs S)\<lparr>fs_objects := (fs_objects (ss_fs S))(po i \<mapsto> \<lparr>so_line = Process_Line ?l, so_payload = parea\<rparr>)\<rparr>"
    let ?S = "S\<lparr>ss_fs := ?fs, ss_process := (ss_process S)(i := ?lc\<lparr>process_control := Some [\<lparr>pc_line = ?l, pc_base = Some (po i)\<rparr>]\<rparr>),
               ss_recv := (ss_recv S)(i := ss_recv S i @ [last (ss_sent S)])\<rparr>"
    have data: "load_payload (Some mo) (unat (ml_payload_bytes ml)) (ss_fs S) = Inr (last (ss_sent S))"
      using ob r(2) by (simp add: load_payload_def object_at_def memcpy_from_def)
    have "length (last (ss_sent S)) = unat (ml_payload_bytes ml)" using ob(2) r(2) by (metis length_take min.absorb2)
    then have c: "unat (ml_payload_bytes ml) \<le> cap" using cap r(2,3) butlast_neq by metis
    have mp: "unat (ml_payload_bytes ml) \<le> mapped_payload (ss_process S i)"
      using mx r(2) pr i by (auto simp: process_ok_def)
    have "session_read i cap S = Inr (0, ?S)"
      using p load data c mp r ob(2) False
      by (simp add: session_read_def dynpm_shm_process_read_def Let_def store_process_def object_at_def put_object_def)
    moreover have "session_ok n mo po ?S"
      using p r by (intro process_update [OF ok i m pr]) (use pr i in \<open>auto simp: process_ok_def reads_ok_def\<close>)
    ultimately show ?thesis using r by auto
  qed
qed

text \<open>The reader's buffer is not measured: a message longer than it overruns it.\<close>

lemma session_read_overflow:
  assumes ok: "session_ok n mo po S" and i: "i < n" and "ss_recv S i \<noteq> ss_sent S" and "cap < length (last (ss_sent S))"
  shows "session_read i cap S = Inl Buffer_Overflow"
proof -
  from ok obtain ml where m: "manager_ok n mo po ml S" and pr: "\<forall>j<n. process_ok mo po ml S j"
    by (auto simp: session_ok_def)
  from m obtain area where ob: "fs_objects (ss_fs S) mo = Some \<lparr>so_line = Manager_Line ml, so_payload = area\<rparr>"
    "ss_sent S \<noteq> [] \<longrightarrow> unat (ml_payload_bytes ml) \<le> length area \<and>
       take (unat (ml_payload_bytes ml)) area = last (ss_sent S)"
    and mx: "ss_sent S \<noteq> [] \<longrightarrow> unat (ml_payload_bytes ml) \<le> unat (ml_payload_max ml)" by (auto simp: manager_ok_def)
  from pr i obtain mc pl where p: "manager_control (ss_process S i) = Some mc" "mc_base mc = Some mo"
    "process_control (ss_process S i) = Some [\<lparr>pc_line = pl, pc_base = Some (po i)\<rparr>]"
    "reads_ok (pl_read_count pl) (ml_write_count ml) (ss_recv S i) (ss_sent S)" by (auto simp: process_ok_def)
  then have r: "pl_read_count pl = ml_write_count ml - 1" "ss_sent S \<noteq> []" using assms(3) by (auto simp: reads_ok_def)
  then have "length (last (ss_sent S)) = unat (ml_payload_bytes ml)" using ob(2) by (metis length_take min.absorb2)
  moreover have "unat (ml_payload_bytes ml) \<le> mapped_payload (ss_process S i)"
    using mx r(2) pr i by (auto simp: process_ok_def)
  ultimately show ?thesis using p r ob assms(4)
    by (simp add: session_read_def dynpm_shm_process_read_def Let_def load_manager_def object_at_def load_payload_def
        memcpy_from_def)
qed

lemma session_read_step:
  assumes ok: "session_ok n mo po S" and i: "i < n" and r: "session_read i cap S = Inr (rc, S')"
  shows "session_ok n mo po S' \<and> rc = 0 \<and> ss_recv S' i = ss_sent S \<and> ss_sent S' = ss_sent S"
proof -
  have "ss_recv S i \<noteq> ss_sent S \<longrightarrow> length (last (ss_sent S)) \<le> cap"
    using session_read_overflow [OF ok i, of cap] r by (metis Inl_Inr_False not_le)
  from session_read_ok [OF ok i this] r show ?thesis by auto
qed

lemma session_set_mode_step:
  assumes ok: "session_ok n mo po S" and i: "i < n" and r: "session_set_mode i mode S = Inr (rc, S')"
  shows "session_ok n mo po S'"
proof -
  from ok obtain ml where m: "manager_ok n mo po ml S" and pr: "\<forall>j<n. process_ok mo po ml S j"
    by (auto simp: session_ok_def)
  from pr i obtain mc pl parea where p: "manager_control (ss_process S i) = Some mc" "mc_base mc = Some mo"
    "process_control (ss_process S i) = Some [\<lparr>pc_line = pl, pc_base = Some (po i)\<rparr>]"
    "fs_objects (ss_fs S) (po i) = Some \<lparr>so_line = Process_Line pl, so_payload = parea\<rparr>"
    "reads_ok (pl_read_count pl) (ml_write_count ml) (ss_recv S i) (ss_sent S)" by (auto simp: process_ok_def)
  let ?l = "pl\<lparr>pl_malleability_mode := mode, pl_write_count := pl_write_count pl + 1, pl_payload_bytes := 0\<rparr>"
  have S': "S' = S\<lparr>ss_fs := (ss_fs S)\<lparr>fs_objects := (fs_objects (ss_fs S))(po i \<mapsto> \<lparr>so_line = Process_Line ?l, so_payload = parea\<rparr>)\<rparr>,
      ss_process := (ss_process S)(i := (ss_process S i)\<lparr>process_control := Some [\<lparr>pc_line = ?l, pc_base = Some (po i)\<rparr>]\<rparr>)\<rparr>"
    using r p by (simp add: session_set_mode_def dynpm_shm_process_set_malleability_mode_def Let_def store_process_def
        object_at_def put_object_def)
  show ?thesis using p unfolding S' by (intro process_update [OF ok i m pr]) (use pr i in \<open>auto simp: process_ok_def\<close>)
qed

lemma session_get_mode_step:
  assumes ok: "session_ok n mo po S" and r: "session_get_mode S = Inr (rc, mode, status, S')"
  shows "session_ok n mo po S'"
proof -
  from ok obtain ml where inj: "inj_on po {..<n}" "mo \<notin> po ` {..<n}" and m: "manager_ok n mo po ml S"
    and pr: "\<forall>j<n. process_ok mo po ml S j" by (auto simp: session_ok_def)
  from m obtain pcs area where mc: "manager_control (ss_manager S) = Some \<lparr>mc_line = ml, mc_base = Some mo\<rparr>"
    "process_control (ss_manager S) = Some pcs" "map pc_base pcs = map (\<lambda>i. Some (po i)) [0..<n]"
    "fs_objects (ss_fs S) mo = Some \<lparr>so_line = Manager_Line ml, so_payload = area\<rparr>" by (auto simp: manager_ok_def)
  let ?l = "ml\<lparr>ml_read_count := ml_read_count ml + 1\<rparr>"
  from r mc obtain k pcs' where sy: "sync_processes_meta (ml_read_count ml) (unat (ml_process_count ml)) pcs (ss_fs S) = Inr (k, pcs')"
    and S': "S' = S\<lparr>ss_manager := (ss_manager S)\<lparr>process_control := Some pcs'\<rparr>\<rparr> \<or>
      S' = S\<lparr>ss_fs := (ss_fs S)\<lparr>fs_objects := (fs_objects (ss_fs S))(mo \<mapsto> \<lparr>so_line = Manager_Line ?l, so_payload = area\<rparr>)\<rparr>,
        ss_manager := (ss_manager S)\<lparr>manager_control := Some \<lparr>mc_line = ?l, mc_base = Some mo\<rparr>, process_control := Some pcs'\<rparr>\<rparr>"
    by (auto simp: session_get_mode_def dynpm_shm_manager_get_malleability_mode_def Let_def res_simps store_manager_def
        object_at_def put_object_def split: if_splits)
  note base = sync_base [OF sy]
  from S' show ?thesis
  proof
    assume e: "S' = S\<lparr>ss_manager := (ss_manager S)\<lparr>process_control := Some pcs'\<rparr>\<rparr>"
    have "\<forall>i<n. process_ok mo po ml S' i" using pr unfolding e by (simp add: process_ok_def)
    then show ?thesis using manager_ok_refresh [OF m mc(2) base] inj unfolding session_ok_def e by blast
  next
    assume e: "S' = S\<lparr>ss_fs := (ss_fs S)\<lparr>fs_objects := (fs_objects (ss_fs S))(mo \<mapsto> \<lparr>so_line = Manager_Line ?l, so_payload = area\<rparr>)\<rparr>,
        ss_manager := (ss_manager S)\<lparr>manager_control := Some \<lparr>mc_line = ?l, mc_base = Some mo\<rparr>, process_control := Some pcs'\<rparr>\<rparr>"
    have "manager_ok n mo po ?l S'" unfolding e using m mc base by (auto simp: manager_ok_def)
    moreover have "process_ok mo po ?l S' i" if "i < n" for i
    proof -
      have "po i \<noteq> mo" using inj(2) that by auto
      then show ?thesis unfolding e using pr that by (auto simp: process_ok_def)
    qed
    ultimately show ?thesis using inj unfolding session_ok_def by blast
  qed
qed

lemma session_step_ok: "session_step n S S' \<Longrightarrow> session_ok n mo po S \<Longrightarrow> session_ok n mo po S'"
  by (induction rule: session_step.induct)
     (auto dest: session_write_step session_read_step session_set_mode_step session_get_mode_step)

lemma session_reach_ok: "session_reach n S T \<Longrightarrow> session_ok n mo po S \<Longrightarrow> session_ok n mo po T"
  by (induction rule: session_reach.induct) (auto intro: session_step_ok)

end
