(* ===== verification/Shm_Properties.thy ===== *)
theory Shm_Properties
  imports Shm_Session
begin

text \<open>
  What the shared-memory channel guarantees: setting up and attaching gives a consistent session; in
  it every message reaches every process once and in order, a message is not overwritten before all
  have read it, and the reported mode is the processes' common one. The counters may wrap around.
  Further results show paths on which the channel fails its users.
\<close>

section \<open>Names\<close>

lemma show_int_inject [simp]: "show_int a = show_int b \<longleftrightarrow> a = b"
proof
  assume "show_int a = show_int b"
  then have "scan_int (show_int a @ []) = scan_int (show_int b @ [])" by (simp only:)
  moreover have "scan_int (show_int a @ []) = Some (a, [])" "scan_int (show_int b @ []) = Some (b, [])"
    by (rule scan_int_show_int, simp)+
  ultimately show "a = b" by (simp only: option.inject prod.inject)
qed (simp only:)

lemma process_shm_path_inject [simp]: "process_shm_path job app p = process_shm_path job app q \<longleftrightarrow> p = q"
  unfolding process_shm_path_def by simp

lemma manager_process_path [simp]:
  "manager_shm_path job app \<noteq> process_shm_path job app p" "process_shm_path job app p \<noteq> manager_shm_path job app"
  unfolding manager_shm_path_def process_shm_path_def by simp_all

section \<open>Setting up\<close>

definition env_ok :: "shm_env \<Rightarrow> bool" where
  "env_ok e \<longleftrightarrow> env_open e \<and> env_truncate e \<and> env_map e"

text \<open>The shared objects after a segment was created with a line and a zeroed area.\<close>

definition with_segment :: "string \<Rightarrow> nat \<Rightarrow> shm_line \<Rightarrow> int \<Rightarrow> shm_fs \<Rightarrow> shm_fs" where
  "with_segment path b l bytes fs =
     \<lparr>fs_names = (fs_names fs)(path \<mapsto> b),
      fs_objects = (fs_objects fs)(b \<mapsto> \<lparr>so_line = l, so_payload = replicate (nat bytes - 64) NUL\<rparr>)\<rparr>"

lemma with_segment_simps [simp]:
  "fs_names (with_segment path b l bytes fs) = (fs_names fs)(path \<mapsto> b)"
  "fs_objects (with_segment path b l bytes fs) =
     (fs_objects fs)(b \<mapsto> \<lparr>so_line = l, so_payload = replicate (nat bytes - 64) NUL\<rparr>)"
  by (simp_all add: with_segment_def)

lemma open_segment_fresh:
  "env_ok e \<Longrightarrow> fs_names fs path = None \<Longrightarrow> 0 < bytes \<Longrightarrow>
   open_segment e path bytes fs = (0, Some (env_new e), with_segment path (env_new e) Zero_Line bytes fs)"
  by (simp add: open_segment_def env_ok_def shm_create_def shm_truncate_def resize_def with_segment_def Let_def)

lemma init_process_fresh:
  assumes "env_ok e" and "fs_names fs (process_shm_path job app pid) = None" and "int32_ok (pages * 4096)" and "0 < pages"
  shows "init_process_shm e job app pages pid fs =
    (let l = new_process_line pid job app (pages * 4096) in
     Inr (0, \<lparr>pc_line = l, pc_base = Some (env_new e)\<rparr>,
          with_segment (process_shm_path job app pid) (env_new e) (Process_Line l) (pages * 4096) fs))"
  using assms
  by (simp add: init_process_shm_def open_segment_fresh Let_def store_process_def object_at_def put_object_def with_segment_def)

text \<open>All process segments: each name leads to its object, each object holds the initial line; other names
  and objects are as before.\<close>

lemma init_processes_fresh:
  "list_all env_ok es \<Longrightarrow> length es = length pids \<Longrightarrow> distinct pids \<Longrightarrow> distinct (map env_new es) \<Longrightarrow>
   \<forall>pid \<in> set pids. fs_names fs (process_shm_path job app pid) = None \<Longrightarrow> int32_ok (pages * 4096) \<Longrightarrow> 0 < pages \<Longrightarrow>
   \<exists>fs'. init_processes es job app pages pids fs =
       Inr (0, map2 (\<lambda>pid e. \<lparr>pc_line = new_process_line pid job app (pages * 4096), pc_base = Some (env_new e)\<rparr>) pids es, fs') \<and>
     (\<forall>i < length pids. fs_names fs' (process_shm_path job app (pids ! i)) = Some (env_new (es ! i)) \<and>
        fs_objects fs' (env_new (es ! i)) = Some \<lparr>so_line = Process_Line (new_process_line (pids ! i) job app (pages * 4096)),
          so_payload = replicate (nat (pages * 4096) - 64) NUL\<rparr>) \<and>
     (\<forall>path. path \<notin> process_shm_path job app ` set pids \<longrightarrow> fs_names fs' path = fs_names fs path) \<and>
     (\<forall>b. b \<notin> env_new ` set es \<longrightarrow> fs_objects fs' b = fs_objects fs b)"
proof (induction pids arbitrary: es fs)
  case Nil
  then show ?case by simp
next
  case (Cons pid pids)
  from Cons.prems(2) obtain e es' where es: "es = e # es'" by (cases es) auto
  let ?l = "new_process_line pid job app (pages * 4096)"
  let ?fs = "with_segment (process_shm_path job app pid) (env_new e) (Process_Line ?l) (pages * 4096) fs"
  have step: "init_process_shm e job app pages pid fs = Inr (0, \<lparr>pc_line = ?l, pc_base = Some (env_new e)\<rparr>, ?fs)"
    using init_process_fresh [of e fs job app pid pages] Cons.prems es by (simp add: Let_def)
  have "\<exists>fs'. init_processes es' job app pages pids ?fs =
       Inr (0, map2 (\<lambda>pid e. \<lparr>pc_line = new_process_line pid job app (pages * 4096), pc_base = Some (env_new e)\<rparr>) pids es', fs') \<and>
     (\<forall>i < length pids. fs_names fs' (process_shm_path job app (pids ! i)) = Some (env_new (es' ! i)) \<and>
        fs_objects fs' (env_new (es' ! i)) = Some \<lparr>so_line = Process_Line (new_process_line (pids ! i) job app (pages * 4096)),
          so_payload = replicate (nat (pages * 4096) - 64) NUL\<rparr>) \<and>
     (\<forall>path. path \<notin> process_shm_path job app ` set pids \<longrightarrow> fs_names fs' path = fs_names ?fs path) \<and>
     (\<forall>b. b \<notin> env_new ` set es' \<longrightarrow> fs_objects fs' b = fs_objects ?fs b)"
    using Cons.prems es by (intro Cons.IH) auto
  then obtain fs' where fs': "init_processes es' job app pages pids ?fs =
       Inr (0, map2 (\<lambda>pid e. \<lparr>pc_line = new_process_line pid job app (pages * 4096), pc_base = Some (env_new e)\<rparr>) pids es', fs')"
     "\<forall>i < length pids. fs_names fs' (process_shm_path job app (pids ! i)) = Some (env_new (es' ! i)) \<and>
        fs_objects fs' (env_new (es' ! i)) = Some \<lparr>so_line = Process_Line (new_process_line (pids ! i) job app (pages * 4096)),
          so_payload = replicate (nat (pages * 4096) - 64) NUL\<rparr>"
     "\<forall>path. path \<notin> process_shm_path job app ` set pids \<longrightarrow> fs_names fs' path = fs_names ?fs path"
     "\<forall>b. b \<notin> env_new ` set es' \<longrightarrow> fs_objects fs' b = fs_objects ?fs b" by blast
  have new: "process_shm_path job app pid \<notin> process_shm_path job app ` set pids" "env_new e \<notin> env_new ` set es'"
    using Cons.prems(3,4) es by auto
  have own: "fs_names fs' (process_shm_path job app pid) = Some (env_new e)"
    "fs_objects fs' (env_new e) = Some \<lparr>so_line = Process_Line ?l, so_payload = replicate (nat (pages * 4096) - 64) NUL\<rparr>"
    using fs'(3,4) new by simp_all
  have all: "fs_names fs' (process_shm_path job app ((pid # pids) ! i)) = Some (env_new (es ! i)) \<and>
      fs_objects fs' (env_new (es ! i)) = Some \<lparr>so_line = Process_Line (new_process_line ((pid # pids) ! i) job app (pages * 4096)),
        so_payload = replicate (nat (pages * 4096) - 64) NUL\<rparr>" if "i < length (pid # pids)" for i
    using own fs'(2) that es by (cases i) auto
  show ?case using step fs'(1) all fs'(3,4) es by (intro exI [of _ fs'] conjI) auto
qed

text \<open>The session right after set-up, with what each process gets from attaching.\<close>

definition attach_all :: "manager_line \<Rightarrow> process_line \<Rightarrow> int \<Rightarrow> int \<Rightarrow> int \<Rightarrow> int \<Rightarrow> int list \<Rightarrow> shm_local \<Rightarrow> shm_fs \<Rightarrow> session" where
  "attach_all gm gp job app mp pp pids lc fs =
     \<lparr>ss_fs = fs, ss_manager = lc,
      ss_process = (\<lambda>i. snd (projr (dynpm_shm_process_attach True True gm gp (pids ! i) job app mp pp shm_unused fs))),
      ss_sent = [], ss_recv = (\<lambda>_. [])\<rparr>"

definition setup_ok :: "shm_env \<Rightarrow> shm_env list \<Rightarrow> int \<Rightarrow> int \<Rightarrow> int \<Rightarrow> int \<Rightarrow> int list \<Rightarrow> shm_fs \<Rightarrow> bool" where
  "setup_ok e es job app manager_pages process_pages pids fs \<longleftrightarrow>
     env_ok e \<and> list_all env_ok es \<and> length es = length pids \<and> distinct pids \<and>
     distinct (env_new e # map env_new es) \<and> length pids < 2 ^ 31 \<and>
     1 \<le> manager_pages \<and> 1 \<le> process_pages \<and> int32_ok (manager_pages * 4096) \<and> int32_ok (process_pages * 4096) \<and>
     fs_names fs (manager_shm_path job app) = None \<and>
     (\<forall>pid \<in> set pids. fs_names fs (process_shm_path job app pid) = None)"

lemma unat_word_of_int: "0 \<le> k \<Longrightarrow> k < 2 ^ 32 \<Longrightarrow> unat (word_of_int k :: u32) = nat k"
  unfolding unat_eq_nat_uint by (simp add: uint_word_of_int)

lemma setup_manager:
  assumes "setup_ok e es job app mp pp pids fs"
  shows "\<exists>fs'. dynpm_shm_manager_init e es g pid job app mp pp pids shm_unused fs =
      Inr (0, \<lparr>manager_control = Some \<lparr>mc_line = new_manager_line pid job app (mp * 4096) (int (length pids)), mc_base = Some (env_new e)\<rparr>,
             process_control = Some (map2 (\<lambda>pid e. \<lparr>pc_line = new_process_line pid job app (pp * 4096), pc_base = Some (env_new e)\<rparr>) pids es),
             mapped_payload = nat (mp * 4096) - 64\<rparr>, fs') \<and>
    fs_names fs' (manager_shm_path job app) = Some (env_new e) \<and>
    fs_objects fs' (env_new e) = Some \<lparr>so_line = Manager_Line (new_manager_line pid job app (mp * 4096) (int (length pids))),
      so_payload = replicate (nat (mp * 4096) - 64) NUL\<rparr> \<and>
    (\<forall>i < length pids. fs_names fs' (process_shm_path job app (pids ! i)) = Some (env_new (es ! i)) \<and>
        fs_objects fs' (env_new (es ! i)) = Some \<lparr>so_line = Process_Line (new_process_line (pids ! i) job app (pp * 4096)),
          so_payload = replicate (nat (pp * 4096) - 64) NUL\<rparr>)"
proof -
  let ?l = "new_manager_line pid job app (mp * 4096) (int (length pids))"
  let ?fs = "with_segment (manager_shm_path job app) (env_new e) (Manager_Line ?l) (mp * 4096) fs"
  note s = assms [unfolded setup_ok_def]
  have m: "init_manager_shm e g pid job app mp (int (length pids)) fs =
      Inr (0, \<lparr>manager_control = Some \<lparr>mc_line = ?l, mc_base = Some (env_new e)\<rparr>,
              process_control = Some (replicate (length pids) g), mapped_payload = nat (mp * 4096) - 64\<rparr>, ?fs)"
    using s by (simp add: init_manager_shm_def open_segment_fresh Let_def store_manager_def object_at_def put_object_def
        with_segment_def)
  have fresh: "\<forall>p \<in> set pids. fs_names ?fs (process_shm_path job app p) = None" using s by simp
  obtain fs' where fs': "init_processes es job app pp pids ?fs =
       Inr (0, map2 (\<lambda>pid e. \<lparr>pc_line = new_process_line pid job app (pp * 4096), pc_base = Some (env_new e)\<rparr>) pids es, fs')"
     "\<forall>i < length pids. fs_names fs' (process_shm_path job app (pids ! i)) = Some (env_new (es ! i)) \<and>
        fs_objects fs' (env_new (es ! i)) = Some \<lparr>so_line = Process_Line (new_process_line (pids ! i) job app (pp * 4096)),
          so_payload = replicate (nat (pp * 4096) - 64) NUL\<rparr>"
     "\<forall>path. path \<notin> process_shm_path job app ` set pids \<longrightarrow> fs_names fs' path = fs_names ?fs path"
     "\<forall>b. b \<notin> env_new ` set es \<longrightarrow> fs_objects fs' b = fs_objects ?fs b"
    using init_processes_fresh [OF _ _ _ _ fresh, of es pp] s by auto
  have "fs_names fs' (manager_shm_path job app) = Some (env_new e)"
    using fs'(3) [rule_format, of "manager_shm_path job app"] by (auto simp: image_iff)
  moreover have "fs_objects fs' (env_new e) = Some \<lparr>so_line = Manager_Line ?l, so_payload = replicate (nat (mp * 4096) - 64) NUL\<rparr>"
    using fs'(4) [rule_format, of "env_new e"] s by auto
  ultimately show ?thesis using m fs'(1,2)
    by (intro exI [of _ fs'] conjI) (auto simp: dynpm_shm_manager_init_def shm_unused_def)
qed

lemma attach_process:
  assumes "fs_names fs (manager_shm_path job app) = Some mo"
    and "fs_objects fs mo = Some \<lparr>so_line = Manager_Line ml, so_payload = ma\<rparr>"
    and "fs_names fs (process_shm_path job app pid) = Some b"
    and "fs_objects fs b = Some \<lparr>so_line = Process_Line pl, so_payload = pa\<rparr>"
    and "0 < mp" and "int32_ok (mp * 4096)" and "0 < pp" and "int32_ok (pp * 4096)"
  shows "dynpm_shm_process_attach True True gm gp pid job app mp pp shm_unused fs =
    Inr (0, \<lparr>manager_control = Some \<lparr>mc_line = ml, mc_base = Some mo\<rparr>,
            process_control = Some [\<lparr>pc_line = pl, pc_base = Some b\<rparr>], mapped_payload = nat (mp * 4096) - 64\<rparr>)"
  using assms by (simp add: dynpm_shm_process_attach_def shm_unused_def map_segment_def Let_def load_manager_def
      load_process_def object_at_def)

lemma session_established:
  assumes ok: "setup_ok e es job app mp pp pids fs"
  shows "\<exists>lc fs'. dynpm_shm_manager_init e es g pid job app mp pp pids shm_unused fs = Inr (0, lc, fs') \<and>
    (\<forall>i < length pids. \<exists>lci. dynpm_shm_process_attach True True gm gp (pids ! i) job app mp pp shm_unused fs' = Inr (0, lci)) \<and>
    session_ok (length pids) (env_new e) (\<lambda>i. env_new (es ! i)) (attach_all gm gp job app mp pp pids lc fs')"
proof -
  let ?ml = "new_manager_line pid job app (mp * 4096) (int (length pids))"
  let ?pcs = "map2 (\<lambda>pid e. \<lparr>pc_line = new_process_line pid job app (pp * 4096), pc_base = Some (env_new e)\<rparr>) pids es"
  let ?lc = "\<lparr>manager_control = Some \<lparr>mc_line = ?ml, mc_base = Some (env_new e)\<rparr>, process_control = Some ?pcs, mapped_payload = nat (mp * 4096) - 64\<rparr>"
  note s = ok [unfolded setup_ok_def]
  obtain fs' where i: "dynpm_shm_manager_init e es g pid job app mp pp pids shm_unused fs = Inr (0, ?lc, fs')"
    and mn: "fs_names fs' (manager_shm_path job app) = Some (env_new e)"
    and mo: "fs_objects fs' (env_new e) = Some \<lparr>so_line = Manager_Line ?ml, so_payload = replicate (nat (mp * 4096) - 64) NUL\<rparr>"
    and pn: "\<And>i. i < length pids \<Longrightarrow> fs_names fs' (process_shm_path job app (pids ! i)) = Some (env_new (es ! i))"
    and po: "\<And>i. i < length pids \<Longrightarrow> fs_objects fs' (env_new (es ! i)) =
        Some \<lparr>so_line = Process_Line (new_process_line (pids ! i) job app (pp * 4096)), so_payload = replicate (nat (pp * 4096) - 64) NUL\<rparr>"
    using setup_manager [OF ok, of g pid] by blast
  let ?S = "attach_all gm gp job app mp pp pids ?lc fs'"
  have at: "dynpm_shm_process_attach True True gm gp (pids ! i) job app mp pp shm_unused fs' =
      Inr (0, \<lparr>manager_control = Some \<lparr>mc_line = ?ml, mc_base = Some (env_new e)\<rparr>,
              process_control = Some [\<lparr>pc_line = new_process_line (pids ! i) job app (pp * 4096), pc_base = Some (env_new (es ! i))\<rparr>], mapped_payload = nat (mp * 4096) - 64\<rparr>)"
    if "i < length pids" for i
    using s by (intro attach_process [OF mn mo pn [OF that] po [OF that]]) auto
  have max: "unat (ml_payload_max ?ml) \<le> nat (mp * 4096) - 64"
    using s unat_word_of_int [of "mp * 4096 - 64"] by (simp add: new_manager_line_def int32_ok_def nat_diff_distrib)
  have pc: "process_ok (env_new e) (\<lambda>i. env_new (es ! i)) ?ml ?S i" if "i < length pids" for i
    using at [OF that] po [OF that] max
    by (simp add: process_ok_def attach_all_def reads_ok_def new_process_line_def new_manager_line_def
        zero_process_line_def zero_manager_line_def)
  have base: "map pc_base ?pcs = map (\<lambda>i. Some (env_new (es ! i))) [0..<length pids]"
    using s by (intro nth_equalityI) auto
  have cnt: "unat (ml_process_count ?ml) = length pids"
    using s unat_word_of_int [of "int (length pids)"] by (simp add: new_manager_line_def)
  have m: "manager_ok (length pids) (env_new e) (\<lambda>i. env_new (es ! i)) ?ml ?S"
    unfolding manager_ok_def using base cnt mo max by (simp add: attach_all_def del: map_map)
  have "distinct (map env_new es)" "length es = length pids" using s by simp_all
  then have "inj_on (\<lambda>i. env_new (es ! i)) {..<length pids}"
    unfolding inj_on_def by (metis length_map lessThan_iff nth_eq_iff_index_eq nth_map)
  moreover have "env_new e \<notin> (\<lambda>i. env_new (es ! i)) ` {..<length pids}" using s by (auto simp: image_iff)
  ultimately have "session_ok (length pids) (env_new e) (\<lambda>i. env_new (es ! i)) ?S"
    using m pc unfolding session_ok_def by blast
  then show ?thesis using i at by blast
qed

section \<open>The common mode\<close>

definition manager_own :: "session \<Rightarrow> manager_line" where
  "manager_own S = mc_line (the (manager_control (ss_manager S)))"

lemma mode_mismatch_iff:
  assumes "map pc_line pcs = map f [0..<n]" and "0 < n"
  shows "mode_mismatch n pcs \<longleftrightarrow> (\<exists>i<n. pl_malleability_mode (f i) \<noteq> pl_malleability_mode (f 0))"
    and "pcs \<noteq> [] \<and> pc_line (hd pcs) = f 0"
proof -
  have len: "length pcs = n" using assms(1) by (metis length_map length_upt minus_nat.diff_0)
  then obtain x xs where x: "pcs = x # xs" using assms(2) by (cases pcs) auto
  have "map pc_line pcs ! 0 = f 0" using assms by simp
  then have h: "pc_line x = f 0" using x by simp
  then show "pcs \<noteq> [] \<and> pc_line (hd pcs) = f 0" using x by simp
  have "mode_mismatch n pcs \<longleftrightarrow> (\<exists>pc \<in> set pcs. pl_malleability_mode (pc_line pc) \<noteq> pl_malleability_mode (f 0))"
    using h len x by (auto simp: mode_mismatch_def list_ex_iff) metis+
  also have "\<dots> \<longleftrightarrow> (\<exists>l \<in> set (map pc_line pcs). pl_malleability_mode l \<noteq> pl_malleability_mode (f 0))" by auto
  also have "\<dots> \<longleftrightarrow> (\<exists>i<n. pl_malleability_mode (f i) \<noteq> pl_malleability_mode (f 0))" unfolding assms(1) by auto
  finally show "mode_mismatch n pcs \<longleftrightarrow> (\<exists>i<n. pl_malleability_mode (f i) \<noteq> pl_malleability_mode (f 0))" .
qed

lemma get_mode_result:
  assumes ok: "session_ok n mo po S" and n: "0 < n"
    and none: "\<forall>i<n. pl_write_count (own_line S i) \<noteq> ml_read_count (manager_own S) - 1"
  shows "\<exists>S'. session_get_mode S =
      Inr (if \<forall>i<n. pl_malleability_mode (own_line S i) = pl_malleability_mode (own_line S 0)
           then (0, pl_malleability_mode (own_line S 0), 0, S') else (-1, 0, -2, S')) \<and> manager_own S' = manager_own S"
proof -
  from ok obtain ml where m: "manager_ok n mo po ml S" and pr: "\<forall>j<n. process_ok mo po ml S j"
    by (auto simp: session_ok_def)
  from m obtain pcs where mc: "manager_control (ss_manager S) = Some \<lparr>mc_line = ml, mc_base = Some mo\<rparr>"
    "process_control (ss_manager S) = Some pcs" "map pc_base pcs = map (\<lambda>i. Some (po i)) [0..<n]"
    "unat (ml_process_count ml) = n" by (auto simp: manager_ok_def)
  have own: "manager_own S = ml" using mc by (simp add: manager_own_def)
  let ?ls = "map (own_line S) [0..<n]"
  let ?pcs = "map2 (\<lambda>pc l. pc\<lparr>pc_line := l\<rparr>) pcs ?ls"
  have len: "length pcs = n" using mc(3) by (metis length_map length_upt minus_nat.diff_0)
  have "filter (\<lambda>l. pl_write_count l = ml_read_count ml - 1 \<and> pl_payload_bytes l = 0) ?ls = []"
    using none own by (auto simp: filter_empty_conv)
  then obtain pcs' where sy: "sync_processes_meta (ml_read_count ml) n pcs (ss_fs S) = Inr (0, pcs')"
    and pcs': "pcs' = ?pcs"
    using sync_processes_meta_ok [OF manager_sees_lines [OF pr mc(3)], of "ml_read_count ml"] len by simp
  have "map pc_line pcs' = map (own_line S) [0..<n]" using pc_line_map2 [of pcs ?ls] len pcs' by simp
  note mm = mode_mismatch_iff [OF this n]
  let ?S = "S\<lparr>ss_manager := (ss_manager S)\<lparr>process_control := Some pcs'\<rparr>\<rparr>"
  have g: "session_get_mode S = Inr (if \<not> mode_mismatch n pcs' then (0, pl_malleability_mode (own_line S 0), 0, ?S)
      else (-1, 0, -2, ?S))"
    using mc(1,2,4) sy mm(2) by (simp add: session_get_mode_def dynpm_shm_manager_get_malleability_mode_def Let_def)
  have same: "manager_own ?S = manager_own S" by (simp add: manager_own_def)
  have q: "\<not> mode_mismatch n pcs' \<longleftrightarrow>
      (\<forall>i<n. pl_malleability_mode (own_line S i) = pl_malleability_mode (own_line S 0))" using mm(1) by blast
  from g [unfolded q] same show ?thesis by blast
qed

section \<open>Examples\<close>

definition example_fs :: shm_fs where
  "example_fs = \<lparr>fs_names = Map.empty, fs_objects = Map.empty\<rparr>"

definition example_shm_env :: "nat \<Rightarrow> shm_env" where
  "example_shm_env b = \<lparr>env_open = True, env_truncate = True, env_map = True, env_new = b\<rparr>"

lemma example_setup: "setup_ok (example_shm_env 0) [example_shm_env 1, example_shm_env 2] 3 4 1 1 [100, 101] example_fs"
  by (simp add: setup_ok_def example_shm_env_def env_ok_def int32_ok_def example_fs_def)

definition example_session :: session where
  "example_session =
     (case dynpm_shm_manager_init (example_shm_env 0) [example_shm_env 1, example_shm_env 2]
        \<lparr>pc_line = zero_process_line, pc_base = None\<rparr> 99 3 4 1 1 [100, 101] shm_unused example_fs of
        Inr (rc, lc, fs) \<Rightarrow> attach_all zero_manager_line zero_process_line 3 4 1 1 [100, 101] lc fs)"

lemma example_session_ok:
  "session_ok 2 0 (\<lambda>i. env_new ([example_shm_env 1, example_shm_env 2] ! i)) example_session"
  using session_established [OF example_setup, of "\<lparr>pc_line = zero_process_line, pc_base = None\<rparr>" 99
      zero_manager_line zero_process_line]
  by (auto simp: example_session_def example_shm_env_def numeral_2_eq_2)

lemma example_session_log: "ss_sent example_session = []" "ss_recv example_session i = []"
  using setup_manager [OF example_setup, of "\<lparr>pc_line = zero_process_line, pc_base = None\<rparr>" 99]
  by (auto simp: example_session_def attach_all_def)

lemma example_lines:
  "i < 2 \<Longrightarrow> own_line example_session i = new_process_line ([100, 101] ! i) 3 4 4096"
proof -
  assume i: "i < (2 :: nat)"
  obtain lc fs' where f: "dynpm_shm_manager_init (example_shm_env 0) [example_shm_env 1, example_shm_env 2]
        \<lparr>pc_line = zero_process_line, pc_base = None\<rparr> 99 3 4 1 1 [100, 101] shm_unused example_fs = Inr (0, lc, fs')"
    and mn: "fs_names fs' (manager_shm_path 3 4) = Some (env_new (example_shm_env 0))"
    and mo: "fs_objects fs' (env_new (example_shm_env 0)) = Some \<lparr>so_line = Manager_Line (new_manager_line 99 3 4 (1 * 4096) (int (length [100 :: int, 101]))),
      so_payload = replicate (nat (1 * 4096) - 64) NUL\<rparr>"
    and pn: "\<And>i. i < length [100 :: int, 101] \<Longrightarrow> fs_names fs' (process_shm_path 3 4 ([100, 101] ! i)) =
        Some (env_new ([example_shm_env 1, example_shm_env 2] ! i))"
    and po: "\<And>i. i < length [100 :: int, 101] \<Longrightarrow> fs_objects fs' (env_new ([example_shm_env 1, example_shm_env 2] ! i)) =
        Some \<lparr>so_line = Process_Line (new_process_line ([100, 101] ! i) 3 4 (1 * 4096)), so_payload = replicate (nat (1 * 4096) - 64) NUL\<rparr>"
    using setup_manager [OF example_setup, of "\<lparr>pc_line = zero_process_line, pc_base = None\<rparr>" 99] by blast
  have l: "i < length [100 :: int, 101]" using i by simp
  have "own_line (attach_all zero_manager_line zero_process_line 3 4 1 1 [100, 101] lc fs') i = new_process_line ([100, 101] ! i) 3 4 4096"
    using attach_process [OF mn mo pn [OF l] po [OF l], of 1 1 zero_manager_line zero_process_line]
    by (simp add: own_line_def attach_all_def int32_ok_def)
  then show ?thesis using f by (simp add: example_session_def)
qed

section \<open>Properties\<close>

text \<open>C34: A manager that sets up its segments, and processes that attach afterwards, form a consistent session:
  all calls succeed, every private copy equals the shared line, and nothing has been sent or read.\<close>

theorem shm_setup_consistent:
  assumes "setup_ok e es job app mp pp pids fs"
  shows "\<exists>lc fs'. dynpm_shm_manager_init e es g pid job app mp pp pids shm_unused fs = Inr (0, lc, fs') \<and>
    (\<forall>i < length pids. \<exists>lci. dynpm_shm_process_attach True True gm gp (pids ! i) job app mp pp shm_unused fs' = Inr (0, lci)) \<and>
    session_ok (length pids) (env_new e) (\<lambda>i. env_new (es ! i)) (attach_all gm gp job app mp pp pids lc fs')"
  using assms by (rule session_established)

theorem shm_setup_consistent_witness:
  "\<exists>lc fs'. dynpm_shm_manager_init (example_shm_env 0) [example_shm_env 1, example_shm_env 2]
      \<lparr>pc_line = zero_process_line, pc_base = None\<rparr> 99 3 4 1 1 [100, 101] shm_unused example_fs = Inr (0, lc, fs') \<and>
    session_ok (length [100 :: int, 101]) 0 (\<lambda>i. env_new ([example_shm_env 1, example_shm_env 2] ! i))
      (attach_all zero_manager_line zero_process_line 3 4 1 1 [100, 101] lc fs')"
proof -
  have "env_new (example_shm_env 0) = 0" by (simp add: example_shm_env_def)
  then show ?thesis
    using shm_setup_consistent [OF example_setup, of "\<lparr>pc_line = zero_process_line, pc_base = None\<rparr>" 99
        zero_manager_line zero_process_line] by auto
qed

text \<open>In every run of a session, each process has read exactly the messages the manager sent, in order and
  each once, except perhaps the last one, which it has yet to read; this holds however often the
  32-bit counters wrap around.\<close>

theorem shm_delivery:
  assumes "session_ok n mo po S" and "session_reach n S T" and "i < n"
  shows "ss_recv T i = ss_sent T \<or> (ss_sent T \<noteq> [] \<and> ss_recv T i = butlast (ss_sent T))"
  using session_reach_ok [OF assms(2,1)] assms(3) by (auto simp: session_ok_def process_ok_def reads_ok_def)

theorem shm_delivery_witness:
  "ss_recv example_session 1 = ss_sent example_session \<or>
   (ss_sent example_session \<noteq> [] \<and> ss_recv example_session 1 = butlast (ss_sent example_session))"
  using shm_delivery [OF example_session_ok session_reach.start, of 1] by simp

text \<open>C14: A valid write succeeds exactly when every process has read all earlier messages; it then adds its
  message and keeps the session consistent. Otherwise it is refused with code -2 and no message is
  lost or overwritten.\<close>

theorem shm_write_when_all_read:
  assumes "session_ok n mo po S" and "0 < k" and "k < uint (ml_payload_max (manager_own S))" and "nat k \<le> length p"
  shows "\<exists>rc S'. session_write (Some p) k S = Inr (rc, S') \<and> session_ok n mo po S' \<and>
      (if \<forall>i<n. ss_recv S i = ss_sent S then rc = 0 \<and> ss_sent S' = ss_sent S @ [take (nat k) p]
       else rc = -2 \<and> ss_sent S' = ss_sent S \<and> ss_fs S' = ss_fs S)"
proof -
  from assms(1) obtain ml where inj: "mo \<notin> po ` {..<n}" and m: "manager_ok n mo po ml S"
    and pr: "\<forall>j<n. process_ok mo po ml S j" by (auto simp: session_ok_def)
  have own: "manager_own S = ml" using m by (auto simp: manager_ok_def manager_own_def)
  have k: "0 < k" "k < uint (ml_payload_max ml)" "nat k \<le> length p" using assms(2-4) own by simp_all
  show ?thesis
  proof (cases "\<forall>i<n. ss_recv S i = ss_sent S")
    case True
    obtain S' where S': "session_write (Some p) k S = Inr (0, S')" "ss_sent S' = ss_sent S @ [take (nat k) p]"
      using write_published [OF inj m pr k True] by blast
    then show ?thesis using session_write_step [OF assms(1) S'(1)] True by auto
  next
    case False
    then have no: "\<not> (\<forall>i<n. pl_read_count (own_line S i) = ml_write_count ml)" using ready_iff(1) [OF pr] by blast
    have "\<exists>lc. dynpm_shm_manager_write (Some p) k (ss_manager S) (ss_fs S) = Inr (-2, lc, ss_fs S)"
      by (rule manager_write_cases [OF m pr k]) (use no in blast)
    then obtain lc where w: "dynpm_shm_manager_write (Some p) k (ss_manager S) (ss_fs S) = Inr (-2, lc, ss_fs S)" by blast
    let ?S = "S\<lparr>ss_fs := ss_fs S, ss_manager := lc, ss_sent := ss_sent S\<rparr>"
    have "session_write (Some p) k S = Inr (-2, ?S)" using w by (simp add: session_write_def)
    then show ?thesis using session_write_step [OF assms(1)] False by auto
  qed
qed

theorem shm_write_when_all_read_witness:
  "\<exists>S'. session_write (Some ''hello'') 5 example_session = Inr (0, S') \<and> ss_sent S' = [''hello'']"
proof -
  have "uint (ml_payload_max (manager_own example_session)) = 4032"
    using setup_manager [OF example_setup, of "\<lparr>pc_line = zero_process_line, pc_base = None\<rparr>" 99]
    by (auto simp: manager_own_def example_session_def attach_all_def new_manager_line_def)
  then show ?thesis using shm_write_when_all_read [OF example_session_ok, of 5 "''hello''"] example_session_log by auto
qed

text \<open>A process whose buffer is large enough reads without error, and afterwards has read everything; the
  code for a missed message is never returned.\<close>

theorem shm_read_catches_up:
  assumes "session_ok n mo po S" and "i < n" and "ss_sent S \<noteq> [] \<longrightarrow> length (last (ss_sent S)) \<le> cap"
  shows "\<exists>S'. session_read i cap S = Inr (0, S') \<and> session_ok n mo po S' \<and> ss_recv S' i = ss_sent S \<and>
              ss_sent S' = ss_sent S"
proof -
  have "ss_recv S i \<noteq> ss_sent S \<longrightarrow> ss_sent S \<noteq> []"
    using assms(1,2) by (auto simp: session_ok_def process_ok_def reads_ok_def)
  then show ?thesis using session_read_ok [OF assms(1,2), of cap] assms(3) by blast
qed

theorem shm_read_catches_up_witness:
  "\<exists>S'. session_read 1 0 example_session = Inr (0, S') \<and> ss_recv S' 1 = []"
  using shm_read_catches_up [OF example_session_ok, of 1 0] example_session_log by auto

text \<open>C33: The manager's query returns the mode all processes agree on, and a disagreement otherwise. It is never told
  that some process has yet to report: the comparison of the counters that should notice new reports
  is off by two, so as long as no process has reported 4294967295 times the status "out of sync" does
  not occur and the manager's count of reports does not move.\<close>

theorem shm_mode_query:
  assumes "session_ok n mo po S" and "0 < n" and "ml_read_count (manager_own S) = 0"
    and "\<forall>i<n. pl_write_count (own_line S i) \<noteq> -1"
  shows "\<exists>S'. session_get_mode S =
      Inr (if \<forall>i<n. pl_malleability_mode (own_line S i) = pl_malleability_mode (own_line S 0)
           then (0, pl_malleability_mode (own_line S 0), 0, S') else (-1, 0, -2, S')) \<and>
      ml_read_count (manager_own S') = 0"
proof -
  have none: "\<forall>i<n. pl_write_count (own_line S i) \<noteq> ml_read_count (manager_own S) - 1"
    using assms(3,4) by simp
  from get_mode_result [OF assms(1,2) none] obtain S' where g: "session_get_mode S =
      Inr (if \<forall>i<n. pl_malleability_mode (own_line S i) = pl_malleability_mode (own_line S 0)
           then (0, pl_malleability_mode (own_line S 0), 0, S') else (-1, 0, -2, S'))"
    and m: "manager_own S' = manager_own S" by (elim exE conjE)
  show ?thesis by (intro exI [of _ S'] conjI g) (simp add: m assms(3))
qed

theorem shm_mode_query_witness:
  "\<exists>S'. session_get_mode example_session = Inr (0, 0, 0, S') \<and> ml_read_count (manager_own S') = 0"
proof -
  have m: "ml_read_count (manager_own example_session) = 0"
    using setup_manager [OF example_setup, of "\<lparr>pc_line = zero_process_line, pc_base = None\<rparr>" 99]
    by (auto simp: manager_own_def example_session_def attach_all_def new_manager_line_def zero_manager_line_def)
  have l: "\<forall>i<2. pl_write_count (own_line example_session i) = 0 \<and> pl_malleability_mode (own_line example_session i) = 0"
    using example_lines by (simp add: new_process_line_def zero_process_line_def)
  then have w: "\<forall>i<2. pl_write_count (own_line example_session i) \<noteq> -1" by auto
  from l have "\<forall>i<2. pl_malleability_mode (own_line example_session i) = pl_malleability_mode (own_line example_session 0)"
    "pl_malleability_mode (own_line example_session 0) = 0" by auto
  then show ?thesis using shm_mode_query [OF example_session_ok _ m w] by auto
qed

text \<open>After detaching, a process cannot attach again: the second attempt aborts.\<close>

theorem shm_reattach_aborts:
  assumes "dynpm_shm_process_attach a b gm gp pid job app mp pp shm_unused fs = Inr (0, lc)"
    and "dynpm_shm_process_detach lc fs = Inr (rc, lc', fs')"
    and "load_manager (map_segment a' (mp' * 4096) (manager_shm_path job' app') fs'') fs'' = Inr ml"
    and "int32_ok (mp' * 4096)"
  shows "dynpm_shm_process_attach a' b' gm' gp' pid' job' app' mp' pp' lc' fs'' = Inl Assert_Failed"
proof -
  obtain pc where "process_control lc = Some [pc]"
    using assms(1) by (auto simp: dynpm_shm_process_attach_def Let_def res_simps split: if_splits)
  then have "process_control lc' \<noteq> None" "manager_control lc' = None"
    using assms(2) by (auto simp: dynpm_shm_process_detach_def Let_def split: option.splits)
  moreover have "map_segment a' (mp' * 4096) (manager_shm_path job' app') fs'' \<noteq> None"
    using assms(3) by (auto simp: load_manager_def object_at_def res_simps split: option.splits)
  ultimately show ?thesis using assms(3,4) by (auto simp: dynpm_shm_process_attach_def Let_def)
qed

theorem shm_reattach_aborts_witness:
  "\<exists>fs lc lc' fs'. dynpm_shm_process_attach True True zero_manager_line zero_process_line 100 3 4 1 1 shm_unused fs = Inr (0, lc) \<and>
     dynpm_shm_process_detach lc fs = Inr (0, lc', fs') \<and>
     dynpm_shm_process_attach True True zero_manager_line zero_process_line 100 3 4 1 1 lc' fs = Inl Assert_Failed"
proof -
  obtain fs lc where a: "dynpm_shm_process_attach True True zero_manager_line zero_process_line 100 3 4 1 1 shm_unused fs = Inr (0, lc)"
    using session_established [OF example_setup, of "\<lparr>pc_line = zero_process_line, pc_base = None\<rparr>" 99
        zero_manager_line zero_process_line] by fastforce
  then obtain mc where "manager_control lc = Some mc"
    by (auto simp: dynpm_shm_process_attach_def Let_def res_simps split: if_splits)
  then obtain lc' fs' where d: "dynpm_shm_process_detach lc fs = Inr (0, lc', fs')"
    by (simp add: dynpm_shm_process_detach_def Let_def)
  obtain ml where "load_manager (map_segment True (1 * 4096) (manager_shm_path 3 4) fs) fs = Inr ml"
    using a by (auto simp: dynpm_shm_process_attach_def Let_def res_simps split: if_splits)
  moreover have "int32_ok (1 * 4096)" by (simp add: int32_ok_def)
  ultimately show ?thesis using a d shm_reattach_aborts [OF a d] by blast
qed

end
