(* ===== verification/Shm_Steps.thy ===== *)
theory Shm_Steps
  imports Shm_Properties
begin

text \<open>
  The shared-memory channel without the assumption that a call is one step. A write of the manager
  looks at the lines of the processes one by one, copies its payload byte by byte and stores its line;
  a read of a process copies the manager's line, copies the payload byte by byte and stores its own
  line. The calls of the manager and of all processes interleave in any order; the copy of a 64-byte
  line is one step. The last section drops that assumption too, and shows what a reader can see while
  a line is being stored word by word.
\<close>

section \<open>Calls in steps\<close>

text \<open>Where the manager is in \<open>dynpm_shm_manager_write\<close>: in the loop of \<open>_all_processes_read_ready\<close> with the
  next process and the count so far, or in the copy with the number of bytes copied. Where a process is
  in \<open>dynpm_shm_process_read\<close>: in the copy, with the bytes it has.\<close>

datatype manager_at = M_Idle | M_Check "char list" int nat nat | M_Copy "char list" int nat

datatype process_at = P_Idle | P_Copy "char list"

record shm_run =
  cn_session :: session
  cn_manager :: manager_at
  cn_process :: "nat \<Rightarrow> process_at"

abbreviation cn_fs :: "shm_run \<Rightarrow> shm_fs" where "cn_fs C \<equiv> ss_fs (cn_session C)"

text \<open>The stores of the two sides to their private variables.\<close>

definition refresh_copy :: "nat \<Rightarrow> process_line \<Rightarrow> process_ctl list \<Rightarrow> session \<Rightarrow> session" where
  "refresh_copy i l pcs S =
     S\<lparr>ss_manager := (ss_manager S)\<lparr>process_control := Some (pcs[i := (pcs ! i)\<lparr>pc_line := l\<rparr>])\<rparr>\<rparr>"

definition copy_byte :: "nat \<Rightarrow> char \<Rightarrow> nat option \<Rightarrow> shm_object \<Rightarrow> session \<Rightarrow> session" where
  "copy_byte j ch base ob S = S\<lparr>ss_fs := put_object base (ob\<lparr>so_payload := (so_payload ob)[j := ch]\<rparr>) (ss_fs S)\<rparr>"

definition publish :: "char list \<Rightarrow> manager_ctl \<Rightarrow> manager_line \<Rightarrow> shm_fs \<Rightarrow> session \<Rightarrow> session" where
  "publish message mc l fs S =
     S\<lparr>ss_fs := fs, ss_manager := (ss_manager S)\<lparr>manager_control := Some (mc\<lparr>mc_line := l\<rparr>)\<rparr>,
       ss_sent := ss_sent S @ [message]\<rparr>"

definition keep_line :: "nat \<Rightarrow> manager_ctl \<Rightarrow> manager_line \<Rightarrow> session \<Rightarrow> session" where
  "keep_line i mc l S =
     S\<lparr>ss_process := (ss_process S)(i := (ss_process S i)\<lparr>manager_control := Some (mc\<lparr>mc_line := l\<rparr>)\<rparr>)\<rparr>"

definition acknowledge :: "nat \<Rightarrow> char list \<Rightarrow> process_ctl \<Rightarrow> process_ctl list \<Rightarrow> process_line \<Rightarrow> shm_fs \<Rightarrow> session \<Rightarrow> session" where
  "acknowledge i data pc pcs l fs S =
     S\<lparr>ss_fs := fs, ss_process := (ss_process S)(i := (ss_process S i)\<lparr>process_control := Some (pc\<lparr>pc_line := l\<rparr> # pcs)\<rparr>),
       ss_recv := (ss_recv S)(i := ss_recv S i @ [data])\<rparr>"

text \<open>The steps of \<open>n\<close> processes and their manager; \<open>cap\<close> is the size of the buffers the processes read into.\<close>

inductive run_step :: "nat \<Rightarrow> nat \<Rightarrow> shm_run \<Rightarrow> shm_run \<Rightarrow> bool" for n cap where
  w_call: "cn_manager C = M_Idle \<Longrightarrow> manager_control (ss_manager (cn_session C)) = Some mc \<Longrightarrow> 0 < k \<Longrightarrow>
    k < uint (ml_payload_max (mc_line mc)) \<Longrightarrow> nat k \<le> length p \<Longrightarrow> run_step n cap C (C\<lparr>cn_manager := M_Check p k 0 0\<rparr>)"
| w_check: "cn_manager C = M_Check p k i r \<Longrightarrow> manager_control (ss_manager (cn_session C)) = Some mc \<Longrightarrow>
    process_control (ss_manager (cn_session C)) = Some pcs \<Longrightarrow> i < unat (ml_process_count (mc_line mc)) \<Longrightarrow> i < length pcs \<Longrightarrow>
    load_process (pc_base (pcs ! i)) (cn_fs C) = Inr l \<Longrightarrow>
    run_step n cap C (C\<lparr>cn_session := refresh_copy i l pcs (cn_session C),
      cn_manager := M_Check p k (Suc i) (if pl_read_count l = ml_write_count (mc_line mc) then Suc r else r)\<rparr>)"
| w_refuse: "cn_manager C = M_Check p k i r \<Longrightarrow> manager_control (ss_manager (cn_session C)) = Some mc \<Longrightarrow>
    i = unat (ml_process_count (mc_line mc)) \<Longrightarrow> r \<noteq> i \<Longrightarrow> run_step n cap C (C\<lparr>cn_manager := M_Idle\<rparr>)"
| w_ready: "cn_manager C = M_Check p k i r \<Longrightarrow> manager_control (ss_manager (cn_session C)) = Some mc \<Longrightarrow>
    i = unat (ml_process_count (mc_line mc)) \<Longrightarrow> r = i \<Longrightarrow> run_step n cap C (C\<lparr>cn_manager := M_Copy p k 0\<rparr>)"
| w_copy: "cn_manager C = M_Copy p k j \<Longrightarrow> manager_control (ss_manager (cn_session C)) = Some mc \<Longrightarrow> j < nat k \<Longrightarrow>
    object_at (mc_base mc) (cn_fs C) = Inr ob \<Longrightarrow> j < length (so_payload ob) \<Longrightarrow>
    run_step n cap C (C\<lparr>cn_session := copy_byte j (p ! j) (mc_base mc) ob (cn_session C), cn_manager := M_Copy p k (Suc j)\<rparr>)"
| w_publish: "cn_manager C = M_Copy p k j \<Longrightarrow> manager_control (ss_manager (cn_session C)) = Some mc \<Longrightarrow> j = nat k \<Longrightarrow>
    l = (mc_line mc)\<lparr>ml_payload_bytes := word_of_int k, ml_write_count := ml_write_count (mc_line mc) + 1\<rparr> \<Longrightarrow>
    store_manager (mc_base mc) l (cn_fs C) = Inr fs \<Longrightarrow>
    run_step n cap C (C\<lparr>cn_session := publish (take (nat k) p) mc l fs (cn_session C), cn_manager := M_Idle\<rparr>)"
| r_sync: "i < n \<Longrightarrow> cn_process C i = P_Idle \<Longrightarrow> manager_control (ss_process (cn_session C) i) = Some mc \<Longrightarrow>
    process_control (ss_process (cn_session C) i) = Some (pc # pcs) \<Longrightarrow> load_manager (mc_base mc) (cn_fs C) = Inr l \<Longrightarrow>
    pl_read_count (pc_line pc) = ml_write_count l \<or> pl_read_count (pc_line pc) \<noteq> ml_write_count l - 1 \<Longrightarrow>
    run_step n cap C (C\<lparr>cn_session := keep_line i mc l (cn_session C)\<rparr>)"
| r_available: "i < n \<Longrightarrow> cn_process C i = P_Idle \<Longrightarrow> manager_control (ss_process (cn_session C) i) = Some mc \<Longrightarrow>
    process_control (ss_process (cn_session C) i) = Some (pc # pcs) \<Longrightarrow> load_manager (mc_base mc) (cn_fs C) = Inr l \<Longrightarrow>
    pl_read_count (pc_line pc) \<noteq> ml_write_count l \<Longrightarrow> pl_read_count (pc_line pc) = ml_write_count l - 1 \<Longrightarrow>
    run_step n cap C (C\<lparr>cn_session := keep_line i mc l (cn_session C), cn_process := (cn_process C)(i := P_Copy [])\<rparr>)"
| r_copy: "i < n \<Longrightarrow> cn_process C i = P_Copy d \<Longrightarrow> manager_control (ss_process (cn_session C) i) = Some mc \<Longrightarrow>
    length d < unat (ml_payload_bytes (mc_line mc)) \<Longrightarrow> length d < mapped_payload (ss_process (cn_session C) i) \<Longrightarrow>
    length d < cap \<Longrightarrow> object_at (mc_base mc) (cn_fs C) = Inr ob \<Longrightarrow> length d < length (so_payload ob) \<Longrightarrow>
    run_step n cap C (C\<lparr>cn_process := (cn_process C)(i := P_Copy (d @ [so_payload ob ! length d]))\<rparr>)"
| r_done: "i < n \<Longrightarrow> cn_process C i = P_Copy d \<Longrightarrow> manager_control (ss_process (cn_session C) i) = Some mc \<Longrightarrow>
    process_control (ss_process (cn_session C) i) = Some (pc # pcs) \<Longrightarrow> length d = unat (ml_payload_bytes (mc_line mc)) \<Longrightarrow>
    l = (pc_line pc)\<lparr>pl_read_count := pl_read_count (pc_line pc) + 1\<rparr> \<Longrightarrow>
    store_process (pc_base pc) l (cn_fs C) = Inr fs \<Longrightarrow>
    run_step n cap C (C\<lparr>cn_session := acknowledge i d pc pcs l fs (cn_session C), cn_process := (cn_process C)(i := P_Idle)\<rparr>)"
| r_mode: "i < n \<Longrightarrow> cn_process C i = P_Idle \<Longrightarrow> session_set_mode i mode (cn_session C) = Inr (rc, S) \<Longrightarrow>
    run_step n cap C (C\<lparr>cn_session := S\<rparr>)"

inductive_cases run_stepE: "run_step n cap C D"

definition at_rest :: "session \<Rightarrow> shm_run" where
  "at_rest S = \<lparr>cn_session = S, cn_manager = M_Idle, cn_process = (\<lambda>i. P_Idle)\<rparr>"

inductive run_reach :: "nat \<Rightarrow> nat \<Rightarrow> session \<Rightarrow> shm_run \<Rightarrow> bool" for n cap S where
  start: "run_reach n cap S (at_rest S)"
| step: "run_reach n cap S C \<Longrightarrow> run_step n cap C D \<Longrightarrow> run_reach n cap S D"

section \<open>The invariant\<close>

text \<open>The manager's side between calls and inside a call. While it copies, every process has read everything.\<close>

definition manager_mid :: "nat \<Rightarrow> nat \<Rightarrow> (nat \<Rightarrow> nat) \<Rightarrow> manager_line \<Rightarrow> char list \<Rightarrow> session \<Rightarrow> bool" where
  "manager_mid n mo po ml area S \<longleftrightarrow>
     (\<exists>pcs. manager_control (ss_manager S) = Some \<lparr>mc_line = ml, mc_base = Some mo\<rparr> \<and>
        process_control (ss_manager S) = Some pcs \<and> map pc_base pcs = map (\<lambda>i. Some (po i)) [0..<n]) \<and>
     unat (ml_process_count ml) = n \<and>
     fs_objects (ss_fs S) mo = Some \<lparr>so_line = Manager_Line ml, so_payload = area\<rparr> \<and>
     unat (ml_payload_max ml) \<le> length area"

definition area_ok :: "manager_line \<Rightarrow> char list \<Rightarrow> char list list \<Rightarrow> bool" where
  "area_ok ml area sent \<longleftrightarrow>
     (sent \<noteq> [] \<longrightarrow> last sent \<noteq> [] \<and> unat (ml_payload_bytes ml) \<le> unat (ml_payload_max ml) \<and>
        take (unat (ml_payload_bytes ml)) area = last sent)"

lemma manager_ok_mid: "manager_ok n mo po ml S \<longleftrightarrow> (\<exists>area. manager_mid n mo po ml area S \<and> area_ok ml area (ss_sent S))"
  by (auto simp: manager_ok_def manager_mid_def area_ok_def)

definition call_ok :: "char list \<Rightarrow> int \<Rightarrow> manager_line \<Rightarrow> bool" where
  "call_ok p k ml \<longleftrightarrow> 0 < k \<and> k < uint (ml_payload_max ml) \<and> nat k \<le> length p"

fun manager_call_ok :: "nat \<Rightarrow> manager_line \<Rightarrow> char list \<Rightarrow> session \<Rightarrow> manager_at \<Rightarrow> bool" where
  "manager_call_ok n ml area S M_Idle \<longleftrightarrow> area_ok ml area (ss_sent S)"
| "manager_call_ok n ml area S (M_Check p k i r) \<longleftrightarrow> area_ok ml area (ss_sent S) \<and> call_ok p k ml \<and> i \<le> n \<and> r \<le> i \<and>
     (r = i \<longrightarrow> (\<forall>x<i. ss_recv S x = ss_sent S))"
| "manager_call_ok n ml area S (M_Copy p k j) \<longleftrightarrow> call_ok p k ml \<and> j \<le> nat k \<and> take j area = take j p \<and>
     (\<forall>x<n. ss_recv S x = ss_sent S)"

fun process_call_ok :: "manager_line \<Rightarrow> session \<Rightarrow> nat \<Rightarrow> process_at \<Rightarrow> bool" where
  "process_call_ok ml S i P_Idle \<longleftrightarrow> True"
| "process_call_ok ml S i (P_Copy d) \<longleftrightarrow> ss_recv S i \<noteq> ss_sent S \<and>
     (\<exists>mc. manager_control (ss_process S i) = Some mc \<and> mc_line mc = ml) \<and>
     length d \<le> unat (ml_payload_bytes ml) \<and> d = take (length d) (last (ss_sent S))"

definition run_ok :: "nat \<Rightarrow> nat \<Rightarrow> (nat \<Rightarrow> nat) \<Rightarrow> shm_run \<Rightarrow> bool" where
  "run_ok n mo po C \<longleftrightarrow>
     inj_on po {..<n} \<and> mo \<notin> po ` {..<n} \<and>
     (\<exists>ml area. manager_mid n mo po ml area (cn_session C) \<and>
        manager_call_ok n ml area (cn_session C) (cn_manager C) \<and>
        (\<forall>i<n. process_ok mo po ml (cn_session C) i \<and> process_call_ok ml (cn_session C) i (cn_process C i)))"

lemma run_ok_rest: "session_ok n mo po S \<longleftrightarrow> run_ok n mo po (at_rest S)"
  by (auto simp: session_ok_def run_ok_def at_rest_def manager_ok_mid)

section \<open>Steps of the manager\<close>

lemmas run_updates = refresh_copy_def copy_byte_def publish_def keep_line_def acknowledge_def

lemma recv_count:
  assumes "process_ok mo po ml S i"
  shows "ss_recv S i = ss_sent S \<longleftrightarrow> pl_read_count (own_line S i) = ml_write_count ml"
  using assms butlast_neq [of "ss_sent S", THEN not_sym] by (auto simp: process_ok_def own_line_def reads_ok_def)

lemma refreshed_bases [simp]: "map pc_base (pcs[i := (pcs ! i)\<lparr>pc_line := l\<rparr>]) = map pc_base pcs"
  by (cases "i < length pcs") (auto intro!: nth_equalityI simp: nth_list_update)

text \<open>The line the manager loads for process \<open>i\<close> is the one that process keeps.\<close>

lemma loaded_line:
  assumes "manager_mid n mo po ml area S" and "process_control (ss_manager S) = Some pcs" and "i < n"
    and "process_ok mo po ml S i" and "load_process (pc_base (pcs ! i)) (ss_fs S) = Inr l"
  shows "l = own_line S i"
proof -
  have "map pc_base pcs ! i = map (\<lambda>i. Some (po i)) [0..<n] ! i" and len: "length (map pc_base pcs) = n"
    using assms(1,2) by (auto simp: manager_mid_def)
  then have "pc_base (pcs ! i) = Some (po i)" using assms(3) by simp
  then show ?thesis using assms(4,5) by (auto simp: process_ok_def own_line_def load_process_def object_at_def)
qed

lemma w_check_ok:
  assumes ok: "run_ok n mo po C" and at: "cn_manager C = M_Check p k i r"
    and mc: "manager_control (ss_manager (cn_session C)) = Some mc" "process_control (ss_manager (cn_session C)) = Some pcs"
    and i: "i < unat (ml_process_count (mc_line mc))" and l: "load_process (pc_base (pcs ! i)) (cn_fs C) = Inr l"
  shows "run_ok n mo po (C\<lparr>cn_session := refresh_copy i l pcs (cn_session C),
      cn_manager := M_Check p k (Suc i) (if pl_read_count l = ml_write_count (mc_line mc) then Suc r else r)\<rparr>)"
proof -
  let ?S = "cn_session C" and ?T = "refresh_copy i l pcs (cn_session C)"
  from ok obtain ml area where m: "manager_mid n mo po ml area ?S" "manager_call_ok n ml area ?S (M_Check p k i r)"
    and pr: "\<And>j. j < n \<Longrightarrow> process_ok mo po ml ?S j \<and> process_call_ok ml ?S j (cn_process C j)"
    and inj: "inj_on po {..<n}" "mo \<notin> po ` {..<n}" using at by (auto simp: run_ok_def)
  have eq: "mc_line mc = ml" "i < n" using m(1) mc(1) i by (auto simp: manager_mid_def)
  have "ss_recv ?S i = ss_sent ?S \<longleftrightarrow> pl_read_count l = ml_write_count ml"
    using recv_count [of mo po ml ?S i] loaded_line [OF m(1) mc(2) eq(2) _ l] pr eq(2) by simp
  then have "manager_call_ok n ml area ?T (M_Check p k (Suc i) (if pl_read_count l = ml_write_count ml then Suc r else r))"
    using m(2) eq(2) by (auto simp: run_updates less_Suc_eq)
  moreover have "manager_mid n mo po ml area ?T"
    using m(1) mc(2) by (auto simp: manager_mid_def run_updates)
  moreover have "process_ok mo po ml ?T j \<and> process_call_ok ml ?T j (cn_process C j)" if "j < n" for j
    using pr [OF that] by (cases "cn_process C j") (simp_all add: process_ok_def run_updates)
  ultimately show ?thesis using inj eq(1) by (auto simp: run_ok_def)
qed

lemma copied_bytes: "j < length xs \<Longrightarrow> j < length p \<Longrightarrow> take j xs = take j p \<Longrightarrow> take (Suc j) (xs[j := p ! j]) = take (Suc j) p"
  by (simp add: take_Suc_conv_app_nth)

lemma w_copy_ok:
  assumes ok: "run_ok n mo po C" and at: "cn_manager C = M_Copy p k j"
    and mc: "manager_control (ss_manager (cn_session C)) = Some mc" and j: "j < nat k"
    and ob: "object_at (mc_base mc) (cn_fs C) = Inr ob" "j < length (so_payload ob)"
  shows "run_ok n mo po (C\<lparr>cn_session := copy_byte j (p ! j) (mc_base mc) ob (cn_session C), cn_manager := M_Copy p k (Suc j)\<rparr>)"
proof -
  let ?S = "cn_session C" and ?T = "copy_byte j (p ! j) (mc_base mc) ob (cn_session C)"
  from ok obtain ml area where m: "manager_mid n mo po ml area ?S" "manager_call_ok n ml area ?S (M_Copy p k j)"
    and pr: "\<And>i. i < n \<Longrightarrow> process_ok mo po ml ?S i \<and> process_call_ok ml ?S i (cn_process C i)"
    and inj: "inj_on po {..<n}" "mo \<notin> po ` {..<n}" using at by (auto simp: run_ok_def)
  have eq: "mc_base mc = Some mo" "ob = \<lparr>so_line = Manager_Line ml, so_payload = area\<rparr>"
    using m(1) mc ob(1) by (auto simp: manager_mid_def object_at_def)
  have "manager_mid n mo po ml (area[j := p ! j]) ?T" using m(1) eq by (auto simp: manager_mid_def run_updates put_object_def)
  moreover have "take (Suc j) (area[j := p ! j]) = take (Suc j) p"
    using m(2) j ob(2) eq(2) by (intro copied_bytes) (auto simp: call_ok_def)
  then have "manager_call_ok n ml (area[j := p ! j]) ?T (M_Copy p k (Suc j))" using m(2) j by (auto simp: run_updates)
  moreover have "process_ok mo po ml ?T i \<and> process_call_ok ml ?T i (cn_process C i)" if "i < n" for i
  proof -
    have "po i \<noteq> mo" using inj(2) that by auto
    then have "fs_objects (ss_fs ?T) (po i) = fs_objects (ss_fs ?S) (po i)" using eq(1) by (simp add: run_updates put_object_def)
    then show ?thesis using pr [OF that] process_ok_cong [of mo po ml ?S i ?T]
      by (cases "cn_process C i") (simp_all add: run_updates)
  qed
  ultimately show ?thesis using inj by (auto simp: run_ok_def)
qed

lemma w_publish_ok:
  assumes ok: "run_ok n mo po C" and at: "cn_manager C = M_Copy p k (nat k)"
    and mc: "manager_control (ss_manager (cn_session C)) = Some mc"
    and l: "l = (mc_line mc)\<lparr>ml_payload_bytes := word_of_int k, ml_write_count := ml_write_count (mc_line mc) + 1\<rparr>"
    and fs: "store_manager (mc_base mc) l (cn_fs C) = Inr fs"
  shows "run_ok n mo po (C\<lparr>cn_session := publish (take (nat k) p) mc l fs (cn_session C), cn_manager := M_Idle\<rparr>)"
proof -
  let ?S = "cn_session C" and ?T = "publish (take (nat k) p) mc l fs (cn_session C)"
  from ok obtain ml area where m: "manager_mid n mo po ml area ?S" "manager_call_ok n ml area ?S (M_Copy p k (nat k))"
    and pr: "\<And>i. i < n \<Longrightarrow> process_ok mo po ml ?S i \<and> process_call_ok ml ?S i (cn_process C i)"
    and inj: "inj_on po {..<n}" "mo \<notin> po ` {..<n}" using at by (auto simp: run_ok_def)
  have eq: "mc = \<lparr>mc_line = ml, mc_base = Some mo\<rparr>" using m(1) mc by (auto simp: manager_mid_def)
  have f: "fs = (ss_fs ?S)\<lparr>fs_objects := (fs_objects (ss_fs ?S))(mo \<mapsto> \<lparr>so_line = Manager_Line l, so_payload = area\<rparr>)\<rparr>"
    using fs m(1) eq by (auto simp: store_manager_def object_at_def put_object_def manager_mid_def)
  have k: "0 < k" "k < uint (ml_payload_max ml)" "nat k \<le> length p" "take (nat k) area = take (nat k) p"
    "\<forall>i<n. ss_recv ?S i = ss_sent ?S" using m(2) by (auto simp: call_ok_def)
  have ku: "unat (word_of_int k :: u32) = nat k" using unat_of_small_int [of k] k(1,2) by simp
  have "manager_mid n mo po l area ?T" using m(1) f eq l by (auto simp: manager_mid_def run_updates)
  moreover have "manager_call_ok n l area ?T M_Idle"
    using k ku l eq nat_below_unat [OF k(2)] by (auto simp: area_ok_def run_updates)
  moreover have "process_ok mo po l ?T i \<and> process_call_ok l ?T i (cn_process C i)" if i: "i < n" for i
  proof -
    have "po i \<noteq> mo" using inj(2) i by auto
    moreover have "pl_read_count (own_line ?S i) = ml_write_count ml" using recv_count pr [OF i] k(5) i by blast
    ultimately have "process_ok mo po l ?T i"
      using pr [OF i] k(5) i f l eq by (auto simp: process_ok_def reads_ok_def own_line_def run_updates)
    then show ?thesis using pr [OF i] k(5) i by (cases "cn_process C i") simp_all
  qed
  ultimately show ?thesis using inj by (auto simp: run_ok_def)
qed

section \<open>Steps of a process\<close>

text \<open>A process that changes its own variables and its own object only, and stays consistent.\<close>

lemma r_update_ok:
  assumes m: "manager_mid n mo po ml area (cn_session C)" "manager_call_ok n ml area (cn_session C) (cn_manager C)"
    and pr: "\<And>j. j < n \<Longrightarrow> process_ok mo po ml (cn_session C) j \<and> process_call_ok ml (cn_session C) j (cn_process C j)"
    and inj: "inj_on po {..<n}" "mo \<notin> po ` {..<n}" and i: "i < n"
    and T: "ss_manager T = ss_manager (cn_session C)" "ss_sent T = ss_sent (cn_session C)"
      "\<And>j. j \<noteq> i \<Longrightarrow> ss_process T j = ss_process (cn_session C) j" "\<And>j. j \<noteq> i \<Longrightarrow> ss_recv T j = ss_recv (cn_session C) j"
      "\<And>b. b \<noteq> po i \<Longrightarrow> fs_objects (ss_fs T) b = fs_objects (cn_fs C) b"
    and own: "process_ok mo po ml T i" "process_call_ok ml T i at" "ss_recv T i = ss_recv (cn_session C) i \<or> ss_recv T i = ss_sent T"
  shows "run_ok n mo po (C\<lparr>cn_session := T, cn_process := (cn_process C)(i := at)\<rparr>)"
proof -
  have recv: "ss_recv T j = ss_sent T" if "ss_recv (cn_session C) j = ss_sent (cn_session C)" for j
    using that T(2,4) own(3) by (cases "j = i") auto
  have "mo \<noteq> po i" using inj(2) i by auto
  then have "manager_mid n mo po ml area T" using m(1) T by (simp add: manager_mid_def)
  moreover have "manager_call_ok n ml area T (cn_manager C)" using m(2) T(2) recv by (cases "cn_manager C") auto
  moreover have "process_ok mo po ml T j \<and> process_call_ok ml T j (((cn_process C)(i := at)) j)" if j: "j < n" for j
  proof (cases "j = i")
    case False
    then have "po j \<noteq> po i" using inj(1) i j by (auto simp: inj_on_def)
    then have "process_ok mo po ml T j" using False pr [OF j] T by (intro process_ok_cong [of mo po ml "cn_session C" j T]) auto
    then show ?thesis using False pr [OF j] T by (cases "cn_process C j") auto
  qed (use own in simp)
  ultimately show ?thesis using inj unfolding run_ok_def by (simp del: fun_upd_apply) blast
qed

text \<open>What an idle process finds, and what it stores.\<close>

lemma process_view:
  assumes "process_ok mo po ml S i" and "manager_control (ss_process S i) = Some mc"
    and "process_control (ss_process S i) = Some (pc # pcs)"
  obtains area where "mc_base mc = Some mo" "pcs = []" "pc = \<lparr>pc_line = own_line S i, pc_base = Some (po i)\<rparr>"
    "fs_objects (ss_fs S) (po i) = Some \<lparr>so_line = Process_Line (own_line S i), so_payload = area\<rparr>"
    "reads_ok (pl_read_count (own_line S i)) (ml_write_count ml) (ss_recv S i) (ss_sent S)"
  using assms by (auto simp: process_ok_def own_line_def)

lemma keep_line_ok:
  assumes "process_ok mo po ml S i" and "manager_control (ss_process S i) = Some mc"
  shows "process_ok mo po ml (keep_line i mc l S) i"
  using assms by (auto simp: process_ok_def run_updates)

lemma r_load_ok:
  assumes ok: "run_ok n mo po C" and i: "i < n"
    and mc: "manager_control (ss_process (cn_session C) i) = Some mc" "process_control (ss_process (cn_session C) i) = Some (pc # pcs)"
    and l: "load_manager (mc_base mc) (cn_fs C) = Inr l"
    and at: "at = P_Idle \<or> (at = P_Copy [] \<and> pl_read_count (pc_line pc) \<noteq> ml_write_count l)"
  shows "run_ok n mo po (C\<lparr>cn_session := keep_line i mc l (cn_session C), cn_process := (cn_process C)(i := at)\<rparr>)"
proof -
  let ?S = "cn_session C"
  from ok obtain ml area where m: "manager_mid n mo po ml area ?S" "manager_call_ok n ml area ?S (cn_manager C)"
    and pr: "\<And>j. j < n \<Longrightarrow> process_ok mo po ml ?S j \<and> process_call_ok ml ?S j (cn_process C j)"
    and inj: "inj_on po {..<n}" "mo \<notin> po ` {..<n}" by (auto simp: run_ok_def)
  have own: "process_ok mo po ml ?S i" using pr i by blast
  have "l = ml" using l m(1) mc(1) own by (auto simp: process_ok_def load_manager_def object_at_def manager_mid_def)
  moreover have "pc_line pc = own_line ?S i" using mc(2) by (simp add: own_line_def)
  ultimately have "process_call_ok ml (keep_line i mc l ?S) i at"
    using at recv_count [OF own] by (auto simp: run_updates)
  then show ?thesis using keep_line_ok [OF own mc(1), of l]
    by (intro r_update_ok [OF m pr inj i]) (auto simp: run_updates)
qed

lemma r_copy_ok:
  assumes ok: "run_ok n mo po C" and i: "i < n" and at: "cn_process C i = P_Copy d"
    and mc: "manager_control (ss_process (cn_session C) i) = Some mc" and d: "length d < unat (ml_payload_bytes (mc_line mc))"
    and ob: "object_at (mc_base mc) (cn_fs C) = Inr ob" "length d < length (so_payload ob)"
  shows "run_ok n mo po (C\<lparr>cn_process := (cn_process C)(i := P_Copy (d @ [so_payload ob ! length d]))\<rparr>)"
proof -
  let ?S = "cn_session C"
  from ok obtain ml area where m: "manager_mid n mo po ml area ?S" "manager_call_ok n ml area ?S (cn_manager C)"
    and pr: "\<And>j. j < n \<Longrightarrow> process_ok mo po ml ?S j \<and> process_call_ok ml ?S j (cn_process C j)"
    and inj: "inj_on po {..<n}" "mo \<notin> po ` {..<n}" by (auto simp: run_ok_def)
  have own: "process_ok mo po ml ?S i" "process_call_ok ml ?S i (P_Copy d)" using pr [OF i] at by simp_all
  then have c: "ss_recv ?S i \<noteq> ss_sent ?S" "mc_line mc = ml" "d = take (length d) (last (ss_sent ?S))" using mc by auto
  then have "ss_sent ?S \<noteq> []" using own(1) by (auto simp: process_ok_def reads_ok_def)
  moreover have "area_ok ml area (ss_sent ?S)" using m(2) c(1) i by (cases "cn_manager C") auto
  ultimately have a: "take (unat (ml_payload_bytes ml)) area = last (ss_sent ?S)" by (simp add: area_ok_def)
  have "so_payload ob = area" using ob(1) mc own(1) m(1) by (auto simp: process_ok_def object_at_def manager_mid_def)
  then have e: "last (ss_sent ?S) ! length d = so_payload ob ! length d" "length d < length (last (ss_sent ?S))"
    using a d c(2) ob(2) by (metis nth_take, metis length_take min_less_iff_conj)
  then have "d @ [so_payload ob ! length d] = take (Suc (length d)) (last (ss_sent ?S))"
    using c(3) e by (metis take_Suc_conv_app_nth)
  then have copied: "process_call_ok ml ?S i (P_Copy (d @ [so_payload ob ! length d]))" using own(2) mc d c(2) e(2)
    by (auto simp: min_def)
  have "run_ok n mo po (C\<lparr>cn_session := ?S, cn_process := (cn_process C)(i := P_Copy (d @ [so_payload ob ! length d]))\<rparr>)"
    by (intro r_update_ok [OF m pr inj i]) (use own(1) copied in \<open>simp_all del: process_call_ok.simps\<close>)
  then show ?thesis by simp
qed

lemma r_done_ok:
  assumes ok: "run_ok n mo po C" and i: "i < n" and at: "cn_process C i = P_Copy d"
    and mc: "manager_control (ss_process (cn_session C) i) = Some mc" "process_control (ss_process (cn_session C) i) = Some (pc # pcs)"
    and d: "length d = unat (ml_payload_bytes (mc_line mc))"
    and l: "l = (pc_line pc)\<lparr>pl_read_count := pl_read_count (pc_line pc) + 1\<rparr>"
    and fs: "store_process (pc_base pc) l (cn_fs C) = Inr fs"
  shows "run_ok n mo po (C\<lparr>cn_session := acknowledge i d pc pcs l fs (cn_session C), cn_process := (cn_process C)(i := P_Idle)\<rparr>)"
proof -
  let ?S = "cn_session C" and ?T = "acknowledge i d pc pcs l fs (cn_session C)"
  from ok obtain ml area where m: "manager_mid n mo po ml area ?S" "manager_call_ok n ml area ?S (cn_manager C)"
    and pr: "\<And>j. j < n \<Longrightarrow> process_ok mo po ml ?S j \<and> process_call_ok ml ?S j (cn_process C j)"
    and inj: "inj_on po {..<n}" "mo \<notin> po ` {..<n}" by (auto simp: run_ok_def)
  have own: "process_ok mo po ml ?S i" "process_call_ok ml ?S i (P_Copy d)" using pr [OF i] at by simp_all
  then have c: "ss_recv ?S i \<noteq> ss_sent ?S" "mc_line mc = ml" "d = take (length d) (last (ss_sent ?S))" using mc(1) by auto
  then have r: "ss_sent ?S \<noteq> []" "ss_recv ?S i = butlast (ss_sent ?S)" "pl_read_count (own_line ?S i) = ml_write_count ml - 1"
    using own(1) by (auto simp: process_ok_def reads_ok_def own_line_def)
  have "area_ok ml area (ss_sent ?S)" using m(2) c(1) i by (cases "cn_manager C") auto
  then have "length (last (ss_sent ?S)) \<le> length d" using r(1) d c(2) by (metis area_ok_def length_take min.cobounded2)
  then have whole: "d = last (ss_sent ?S)" using c(3) by simp
  obtain parea where v: "mc_base mc = Some mo" "pcs = []" "pc = \<lparr>pc_line = own_line ?S i, pc_base = Some (po i)\<rparr>"
    "fs_objects (ss_fs ?S) (po i) = Some \<lparr>so_line = Process_Line (own_line ?S i), so_payload = parea\<rparr>"
    using process_view [OF own(1) mc] by blast
  have f: "fs = (cn_fs C)\<lparr>fs_objects := (fs_objects (cn_fs C))(po i \<mapsto> \<lparr>so_line = Process_Line l, so_payload = parea\<rparr>)\<rparr>"
    using fs v by (auto simp: store_process_def object_at_def put_object_def)
  have all: "ss_recv ?T i = ss_sent ?T" using whole r(1,2) by (simp add: run_updates)
  have "process_ok mo po ml ?T i"
    using own(1) mc(1) v f l r all by (auto simp: process_ok_def reads_ok_def run_updates)
  with all show ?thesis by (intro r_update_ok [OF m pr inj i]) (auto simp: run_updates f)
qed

lemma r_mode_ok:
  assumes ok: "run_ok n mo po C" and i: "i < n" and at: "cn_process C i = P_Idle"
    and s: "session_set_mode i mode (cn_session C) = Inr (rc, S)"
  shows "run_ok n mo po (C\<lparr>cn_session := S\<rparr>)"
proof -
  let ?S = "cn_session C"
  from ok obtain ml area where m: "manager_mid n mo po ml area ?S" "manager_call_ok n ml area ?S (cn_manager C)"
    and pr: "\<And>j. j < n \<Longrightarrow> process_ok mo po ml ?S j \<and> process_call_ok ml ?S j (cn_process C j)"
    and inj: "inj_on po {..<n}" "mo \<notin> po ` {..<n}" by (auto simp: run_ok_def)
  from pr [OF i] obtain mc pl parea where p: "manager_control (ss_process ?S i) = Some mc" "mc_base mc = Some mo"
    "process_control (ss_process ?S i) = Some [\<lparr>pc_line = pl, pc_base = Some (po i)\<rparr>]"
    "fs_objects (cn_fs C) (po i) = Some \<lparr>so_line = Process_Line pl, so_payload = parea\<rparr>" by (auto simp: process_ok_def)
  let ?l = "pl\<lparr>pl_malleability_mode := mode, pl_write_count := pl_write_count pl + 1, pl_payload_bytes := 0\<rparr>"
  have S: "S = ?S\<lparr>ss_fs := (cn_fs C)\<lparr>fs_objects := (fs_objects (cn_fs C))(po i \<mapsto> \<lparr>so_line = Process_Line ?l, so_payload = parea\<rparr>)\<rparr>,
      ss_process := (ss_process ?S)(i := (ss_process ?S i)\<lparr>process_control := Some [\<lparr>pc_line = ?l, pc_base = Some (po i)\<rparr>]\<rparr>)\<rparr>"
    using s p by (simp add: session_set_mode_def dynpm_shm_process_set_malleability_mode_def Let_def store_process_def
        object_at_def put_object_def)
  have "process_ok mo po ml S i" using pr [OF i] p by (auto simp: process_ok_def S)
  then have "run_ok n mo po (C\<lparr>cn_session := S, cn_process := (cn_process C)(i := P_Idle)\<rparr>)"
    by (intro r_update_ok [OF m pr inj i]) (auto simp: S)
  moreover have "(cn_process C)(i := P_Idle) = cn_process C" using at by auto
  ultimately show ?thesis by simp
qed

lemma run_step_ok:
  assumes "run_step n cap C D" and ok: "run_ok n mo po C"
  shows "run_ok n mo po D"
  using assms(1)
proof cases
  case (w_call mc k p)
  then show ?thesis using ok by (auto simp: run_ok_def manager_mid_def call_ok_def)
next
  case (w_check p k i r mc pcs l)
  then show ?thesis using w_check_ok [OF ok, of p k i r mc pcs l] by simp
next
  case (w_refuse p k i r mc)
  then show ?thesis using ok by (auto simp: run_ok_def)
next
  case (w_ready p k i r mc)
  then show ?thesis using ok by (auto simp: run_ok_def manager_mid_def)
next
  case (w_copy p k j mc ob)
  then show ?thesis using w_copy_ok [OF ok] by simp
next
  case (w_publish p k j mc l fs)
  then show ?thesis using w_publish_ok [OF ok] by simp
next
  case (r_sync i mc pc pcs l)
  then have "(cn_process C)(i := P_Idle) = cn_process C" by auto
  then show ?thesis using r_sync r_load_ok [OF ok, of i mc pc pcs l P_Idle] by simp
next
  case (r_available i mc pc pcs l)
  then show ?thesis using r_load_ok [OF ok, of i mc pc pcs l "P_Copy []"] by simp
next
  case (r_copy i d mc ob)
  then show ?thesis using r_copy_ok [OF ok] by simp
next
  case (r_done i d mc pc pcs l fs)
  then show ?thesis using r_done_ok [OF ok] by simp
next
  case (r_mode i mode rc S)
  then show ?thesis using r_mode_ok [OF ok] by simp
qed

lemma run_reach_ok: "run_reach n cap S C \<Longrightarrow> session_ok n mo po S \<Longrightarrow> run_ok n mo po C"
  by (induction rule: run_reach.induct) (simp_all add: run_ok_rest run_step_ok)

section \<open>Calls always go on\<close>







section \<open>The calls as runs of steps\<close>

text \<open>The table of the manager after it has looked at the first \<open>m\<close> processes, and how many of them it counted.\<close>

definition looked_at :: "session \<Rightarrow> nat \<Rightarrow> process_ctl list \<Rightarrow> process_ctl list" where
  "looked_at S m pcs = map (\<lambda>j. if j < m then (pcs ! j)\<lparr>pc_line := own_line S j\<rparr> else pcs ! j) [0..<length pcs]"

definition counted :: "session \<Rightarrow> manager_line \<Rightarrow> nat \<Rightarrow> nat" where
  "counted S ml m = length (filter (\<lambda>j. pl_read_count (own_line S j) = ml_write_count ml) [0..<m])"

lemma counted_Suc:
  "counted S ml (Suc m) = (if pl_read_count (own_line S m) = ml_write_count ml then Suc (counted S ml m) else counted S ml m)"
  by (simp add: counted_def)

lemma looked_at_0: "looked_at S 0 pcs = pcs"
  by (rule nth_equalityI) (simp_all add: looked_at_def)

lemma looked_at_all: "looked_at S (length pcs) pcs = map2 (\<lambda>pc l. pc\<lparr>pc_line := l\<rparr>) pcs (map (own_line S) [0..<length pcs])"
  by (rule nth_equalityI) (simp_all add: looked_at_def)

lemma looked_at_Suc:
  "m < length pcs \<Longrightarrow> (looked_at S m pcs)[m := (looked_at S m pcs ! m)\<lparr>pc_line := own_line S m\<rparr>] = looked_at S (Suc m) pcs"
  by (rule nth_equalityI) (auto simp: looked_at_def nth_list_update)

lemma looked_at_nth: "j < length pcs \<Longrightarrow> pc_base (looked_at S m pcs ! j) = pc_base (pcs ! j)" "length (looked_at S m pcs) = length pcs"
  by (simp_all add: looked_at_def)

lemma check_loop:
  assumes m: "manager_mid n mo po ml area S" "process_control (ss_manager S) = Some pcs"
    and pr: "\<forall>i<n. process_ok mo po ml S i" and "i \<le> n"
  shows "(run_step n cap)\<^sup>*\<^sup>* \<lparr>cn_session = S, cn_manager = M_Check p k 0 0, cn_process = f\<rparr>
    \<lparr>cn_session = S\<lparr>ss_manager := (ss_manager S)\<lparr>process_control := Some (looked_at S i pcs)\<rparr>\<rparr>,
     cn_manager = M_Check p k i (counted S ml i), cn_process = f\<rparr>"
  using assms(4)
proof (induction i)
  case 0
  have "S\<lparr>ss_manager := (ss_manager S)\<lparr>process_control := Some pcs\<rparr>\<rparr> = S" using m(2) by (cases "ss_manager S", cases S) simp
  then show ?case by (simp add: looked_at_0 counted_def)
next
  case (Suc i)
  have mc: "manager_control (ss_manager S) = Some \<lparr>mc_line = ml, mc_base = Some mo\<rparr>" "unat (ml_process_count ml) = n"
    and base: "map pc_base pcs = map (\<lambda>i. Some (po i)) [0..<n]" using m by (auto simp: manager_mid_def)
  have len: "length pcs = n" using base by (metis length_map length_upt minus_nat.diff_0)
  have l: "load_process (pc_base (looked_at S i pcs ! i)) (ss_fs S) = Inr (own_line S i)"
    using list_all2_nthD [OF manager_sees_lines [OF pr base], of i] Suc.prems len by (simp add: looked_at_nth)
  let ?C = "\<lambda>i. \<lparr>cn_session = S\<lparr>ss_manager := (ss_manager S)\<lparr>process_control := Some (looked_at S i pcs)\<rparr>\<rparr>,
     cn_manager = M_Check p k i (counted S ml i), cn_process = f\<rparr>"
  have "run_step n cap (?C i) (?C (Suc i))"
    using w_check [of "?C i" p k i "counted S ml i" "\<lparr>mc_line = ml, mc_base = Some mo\<rparr>" "looked_at S i pcs" "own_line S i" n cap]
      mc l Suc.prems len
    by (simp add: refresh_copy_def looked_at_Suc looked_at_nth counted_Suc)
  with Suc show ?case by (meson Suc_leD rtranclp.rtrancl_into_rtrancl)
qed

lemma overwritten_Suc: "j < length p \<Longrightarrow> j < length xs \<Longrightarrow> (take j p @ drop j xs)[j := p ! j] = take (Suc j) p @ drop (Suc j) xs"
  by (simp add: list_update_append take_Suc_conv_app_nth flip: Cons_nth_drop_Suc)

lemma copy_loop:
  assumes mc: "manager_control (ss_manager S) = Some \<lparr>mc_line = ml, mc_base = Some mo\<rparr>"
    and ob: "fs_objects (ss_fs S) mo = Some \<lparr>so_line = Manager_Line ml, so_payload = area\<rparr>"
    and "j \<le> nat k" "nat k \<le> length p" "nat k \<le> length area"
  shows "(run_step n cap)\<^sup>*\<^sup>* \<lparr>cn_session = S, cn_manager = M_Copy p k 0, cn_process = f\<rparr>
    \<lparr>cn_session = S\<lparr>ss_fs := put_object (Some mo) \<lparr>so_line = Manager_Line ml, so_payload = take j p @ drop j area\<rparr> (ss_fs S)\<rparr>,
     cn_manager = M_Copy p k j, cn_process = f\<rparr>"
  using assms(3)
proof (induction j)
  case 0
  have "(ss_fs S)\<lparr>fs_objects := (fs_objects (ss_fs S))(mo \<mapsto> \<lparr>so_line = Manager_Line ml, so_payload = area\<rparr>)\<rparr> = ss_fs S"
    using ob by (cases "ss_fs S") (simp add: fun_upd_idem)
  then show ?case by (cases S) (simp add: put_object_def)
next
  case (Suc j)
  let ?ob = "\<lambda>j. \<lparr>so_line = Manager_Line ml, so_payload = take j p @ drop j area\<rparr>"
  let ?C = "\<lambda>j. \<lparr>cn_session = S\<lparr>ss_fs := put_object (Some mo) (?ob j) (ss_fs S)\<rparr>, cn_manager = M_Copy p k j, cn_process = f\<rparr>"
  have j: "j < length p" "j < length area" "j < nat k" using Suc.prems assms(4,5) by simp_all
  have "run_step n cap (?C j) (?C (Suc j))"
    using w_copy [of "?C j" p k j "\<lparr>mc_line = ml, mc_base = Some mo\<rparr>" "?ob j" n cap] mc j
    by (simp add: copy_byte_def put_object_def object_at_def overwritten_Suc)
  with Suc show ?case by (meson Suc_leD rtranclp.rtrancl_into_rtrancl)
qed

lemma counted_all: "counted S ml n = n \<longleftrightarrow> (\<forall>i<n. pl_read_count (own_line S i) = ml_write_count ml)"
  using length_filter_all [of "\<lambda>j. pl_read_count (own_line S j) = ml_write_count ml" "[0..<n]"] by (auto simp: counted_def)

lemma write_in_steps:
  assumes ok: "session_ok n mo po S" and k: "0 < k" "k < uint (ml_payload_max (manager_own S))" "nat k \<le> length p"
    and w: "session_write (Some p) k S = Inr (rc, S')"
  shows "(run_step n cap)\<^sup>*\<^sup>* (at_rest S) (at_rest S')"
proof -
  from ok obtain ml area where pr: "\<forall>i<n. process_ok mo po ml S i" and mid: "manager_mid n mo po ml area S"
    by (auto simp: session_ok_def manager_ok_mid)
  then obtain pcs where m: "manager_control (ss_manager S) = Some \<lparr>mc_line = ml, mc_base = Some mo\<rparr>"
    "process_control (ss_manager S) = Some pcs" "map pc_base pcs = map (\<lambda>i. Some (po i)) [0..<n]"
    "unat (ml_process_count ml) = n" "fs_objects (ss_fs S) mo = Some \<lparr>so_line = Manager_Line ml, so_payload = area\<rparr>"
    "unat (ml_payload_max ml) \<le> length area" by (auto simp: manager_mid_def)
  have k': "k < uint (ml_payload_max ml)" using k(2) m(1) by (simp add: manager_own_def)
  have kl: "nat k \<le> length area" using order_trans [OF nat_below_unat [OF k'] m(6)] .
  have len: "length pcs = n" using m(3) by (metis length_map length_upt minus_nat.diff_0)
  let ?S = "S\<lparr>ss_manager := (ss_manager S)\<lparr>process_control := Some (looked_at S n pcs)\<rparr>\<rparr>"
  let ?C = "\<lambda>a. \<lparr>cn_session = ?S, cn_manager = a, cn_process = \<lambda>i. P_Idle\<rparr>"
  have "run_step n cap (at_rest S) \<lparr>cn_session = S, cn_manager = M_Check p k 0 0, cn_process = \<lambda>i. P_Idle\<rparr>"
    using w_call [of "at_rest S" _ k p n cap] m(1) k(1,3) k' by (simp add: at_rest_def)
  from this check_loop [OF mid m(2) pr order_refl, of cap p k "\<lambda>i. P_Idle"]
  have checked: "(run_step n cap)\<^sup>*\<^sup>* (at_rest S) (?C (M_Check p k n (counted S ml n)))" by (rule converse_rtranclp_into_rtranclp)
  note wr = manager_write_eq [OF pr m k(1) k' k(3), unfolded len [symmetric], folded looked_at_all, unfolded len]
  show ?thesis
  proof (cases "\<forall>i<n. pl_read_count (own_line S i) = ml_write_count ml")
    case True
    let ?l = "ml\<lparr>ml_payload_bytes := word_of_int k, ml_write_count := ml_write_count ml + 1\<rparr>"
    let ?T = "?S\<lparr>ss_fs := put_object (Some mo) \<lparr>so_line = Manager_Line ml, so_payload = take (nat k) p @ drop (nat k) area\<rparr> (ss_fs S)\<rparr>"
    let ?mc = "\<lparr>mc_line = ml, mc_base = Some mo\<rparr>"
    let ?fs = "(ss_fs S)\<lparr>fs_objects := (fs_objects (ss_fs S))(mo \<mapsto>
        \<lparr>so_line = Manager_Line ?l, so_payload = take (nat k) p @ drop (nat k) area\<rparr>)\<rparr>"
    have S': "S' = publish (take (nat k) p) ?mc ?l ?fs ?T"
      using w wr(1) True by (cases "ss_manager S") (auto simp: session_write_def Let_def publish_def)
    have cn: "counted S ml n = n" using True counted_all by blast
    have "run_step n cap (?C (M_Check p k n n)) (?C (M_Copy p k 0))"
      by (rule w_ready [where C = "?C (M_Check p k n n)" and mc = "\<lparr>mc_line = ml, mc_base = Some mo\<rparr>", simplified shm_run.simps])
         (simp_all add: m(1,4))
    moreover have "(run_step n cap)\<^sup>*\<^sup>* (?C (M_Copy p k 0)) \<lparr>cn_session = ?T, cn_manager = M_Copy p k (nat k), cn_process = \<lambda>i. P_Idle\<rparr>"
      using copy_loop [of ?S ml mo area "nat k" k p n cap "\<lambda>i. P_Idle"] m(1,5) k(3) kl by simp
    moreover have "run_step n cap \<lparr>cn_session = ?T, cn_manager = M_Copy p k (nat k), cn_process = \<lambda>i. P_Idle\<rparr> (at_rest S')"
      using w_publish [of "\<lparr>cn_session = ?T, cn_manager = M_Copy p k (nat k), cn_process = \<lambda>i. P_Idle\<rparr>" p k "nat k" ?mc ?l ?fs n cap] m(1)
      by (simp add: S' at_rest_def store_manager_def object_at_def put_object_def)
    ultimately show ?thesis using checked [unfolded cn] by (meson rtranclp.rtrancl_into_rtrancl rtranclp_trans)
  next
    case False
    then have "S' = ?S" using w wr(1) [unfolded if_not_P [OF False]] by (cases S) (auto simp: session_write_def)
    moreover have "counted S ml n \<noteq> n" using False counted_all by blast
    then have "run_step n cap (?C (M_Check p k n (counted S ml n))) (?C M_Idle)"
      by (intro w_refuse [where C = "?C (M_Check p k n (counted S ml n))" and mc = "\<lparr>mc_line = ml, mc_base = Some mo\<rparr>", simplified shm_run.simps])
         (simp_all add: m(1,4))
    ultimately show ?thesis using checked by (simp add: at_rest_def)
  qed
qed

lemma read_copy_loop:
  assumes i: "i < n" and mc: "manager_control (ss_process S i) = Some \<lparr>mc_line = ml, mc_base = Some mo\<rparr>"
    and ob: "fs_objects (ss_fs S) mo = Some \<lparr>so_line = Manager_Line ml, so_payload = area\<rparr>"
    and "j \<le> unat (ml_payload_bytes ml)" "unat (ml_payload_bytes ml) \<le> length area"
      "unat (ml_payload_bytes ml) \<le> mapped_payload (ss_process S i)" "unat (ml_payload_bytes ml) \<le> cap"
  shows "(run_step n cap)\<^sup>*\<^sup>* \<lparr>cn_session = S, cn_manager = a, cn_process = f(i := P_Copy [])\<rparr>
    \<lparr>cn_session = S, cn_manager = a, cn_process = f(i := P_Copy (take j area))\<rparr>"
  using assms(4)
proof (induction j)
  case (Suc j)
  let ?C = "\<lambda>j. \<lparr>cn_session = S, cn_manager = a, cn_process = f(i := P_Copy (take j area))\<rparr>"
  have j: "length (take j area) = j" using Suc.prems assms(5) by simp
  have "run_step n cap (?C j) (?C (Suc j))"
    using r_copy [OF i, of "?C j" "take j area" "\<lparr>mc_line = ml, mc_base = Some mo\<rparr>" cap] mc ob j Suc.prems assms(5-)
    by (simp add: object_at_def take_Suc_conv_app_nth)
  with Suc show ?case by (meson Suc_leD rtranclp.rtrancl_into_rtrancl)
qed simp

lemma read_in_steps:
  assumes ok: "session_ok n mo po S" and i: "i < n" and r: "session_read i cap S = Inr (rc, S')"
  shows "(run_step n cap)\<^sup>*\<^sup>* (at_rest S) (at_rest S')"
proof -
  from ok obtain ml area where own: "process_ok mo po ml S i" and mid: "manager_mid n mo po ml area S"
    and a: "area_ok ml area (ss_sent S)" using i by (auto simp: session_ok_def manager_ok_mid)
  from own obtain mc pl parea where p: "manager_control (ss_process S i) = Some mc" "mc_base mc = Some mo"
    "process_control (ss_process S i) = Some [\<lparr>pc_line = pl, pc_base = Some (po i)\<rparr>]"
    "fs_objects (ss_fs S) (po i) = Some \<lparr>so_line = Process_Line pl, so_payload = parea\<rparr>"
    "reads_ok (pl_read_count pl) (ml_write_count ml) (ss_recv S i) (ss_sent S)" by (auto simp: process_ok_def)
  have ob: "fs_objects (ss_fs S) mo = Some \<lparr>so_line = Manager_Line ml, so_payload = area\<rparr>" using mid by (simp add: manager_mid_def)
  then have ld: "load_manager (mc_base mc) (ss_fs S) = Inr ml" using p(2) by (simp add: load_manager_def object_at_def)
  let ?S = "keep_line i mc ml S"
  let ?C = "\<lambda>a. \<lparr>cn_session = ?S, cn_manager = M_Idle, cn_process = (\<lambda>j. P_Idle)(i := a)\<rparr>"
  show ?thesis
  proof (cases "pl_read_count pl = ml_write_count ml")
    case True
    then have "S' = ?S" using r p(1,3) ld by (simp add: session_read_def dynpm_shm_process_read_def Let_def keep_line_def)
    then have "run_step n cap (at_rest S) (at_rest S')"
      using r_sync [OF i, of "at_rest S" mc _ _ ml cap] p(1,3) ld True by (simp add: at_rest_def)
    then show ?thesis by blast
  next
    case False
    let ?k = "unat (ml_payload_bytes ml)" and ?l = "pl\<lparr>pl_read_count := pl_read_count pl + 1\<rparr>"
    have c: "pl_read_count pl = ml_write_count ml - 1" using False p(5) by (auto simp: reads_ok_def)
    have len: "?k \<le> mapped_payload (ss_process S i)" "?k \<le> length area" "?k \<le> cap"
      and S': "S' = acknowledge i (take ?k area) \<lparr>pc_line = pl, pc_base = Some (po i)\<rparr> [] ?l
        ((ss_fs S)\<lparr>fs_objects := (fs_objects (ss_fs S))(po i \<mapsto> \<lparr>so_line = Process_Line ?l, so_payload = parea\<rparr>)\<rparr>) ?S"
      using r p ld False c ob a
      by (auto simp: session_read_def dynpm_shm_process_read_def Let_def res_simps load_payload_def memcpy_from_def object_at_def
          store_process_def put_object_def acknowledge_def keep_line_def area_ok_def reads_ok_def split: if_splits)
    have idle: "(\<lambda>j. P_Idle)(i := P_Idle) = (\<lambda>j. P_Idle)" by auto
    have "run_step n cap (at_rest S) (?C (P_Copy []))"
      using r_available [OF i, of "at_rest S" mc _ _ ml cap] p(1,3) ld False c by (simp add: at_rest_def)
    moreover have "(run_step n cap)\<^sup>*\<^sup>* (?C (P_Copy [])) (?C (P_Copy (take ?k area)))"
      using read_copy_loop [OF i, of ?S ml mo area ?k cap M_Idle "\<lambda>j. P_Idle"] p(1,2) ob len
      by (cases mc) (simp add: keep_line_def)
    moreover have "run_step n cap (?C (P_Copy (take ?k area))) (at_rest S')"
      using r_done [OF i, of "?C (P_Copy (take ?k area))" "take ?k area" "mc\<lparr>mc_line := ml\<rparr>"
          "\<lparr>pc_line = pl, pc_base = Some (po i)\<rparr>" "[]" ?l _ cap] p(3,4) len idle
      by (simp add: keep_line_def at_rest_def store_process_def object_at_def put_object_def S')
    ultimately show ?thesis by (meson converse_rtranclp_into_rtranclp rtranclp.rtrancl_into_rtrancl)
  qed
qed

section \<open>A line stored word by word\<close>

text \<open>The ten words of the manager's line in memory order, and the line found in memory when a copy of the new line
  in ascending order has stored its first \<open>m\<close> words over the old one.\<close>

definition line_words :: "manager_line \<Rightarrow> u32 list" where
  "line_words l = [ml_read_count l, ml_write_count l, ml_manager_pid l, ml_job_index l, ml_application_index l,
     ml_shm_mapped_bytes l, ml_process_count l, ml_node_status l, ml_payload_max l, ml_payload_bytes l]"

definition words_line :: "u32 list \<Rightarrow> manager_line" where
  "words_line ws = \<lparr>ml_read_count = ws ! 0, ml_write_count = ws ! 1, ml_manager_pid = ws ! 2, ml_job_index = ws ! 3,
     ml_application_index = ws ! 4, ml_shm_mapped_bytes = ws ! 5, ml_process_count = ws ! 6, ml_node_status = ws ! 7,
     ml_payload_max = ws ! 8, ml_payload_bytes = ws ! 9\<rparr>"

definition half_stored :: "nat \<Rightarrow> manager_line \<Rightarrow> manager_line \<Rightarrow> manager_line" where
  "half_stored m new old = words_line (take m (line_words new) @ drop m (line_words old))"

text \<open>The shared objects at that moment of a write that leads from \<open>fs\<close> to \<open>fs'\<close>: the payload is there already.\<close>

definition mid_store :: "nat \<Rightarrow> nat \<Rightarrow> shm_fs \<Rightarrow> shm_fs \<Rightarrow> shm_fs" where
  "mid_store m mo fs fs' =
     (case (fs_objects fs mo, fs_objects fs' mo) of
        (Some ob, Some ob') \<Rightarrow>
          (case (so_line ob, so_line ob') of
             (Manager_Line old, Manager_Line new) \<Rightarrow>
               fs'\<lparr>fs_objects := (fs_objects fs')(mo \<mapsto> ob'\<lparr>so_line := Manager_Line (half_stored m new old)\<rparr>)\<rparr>
           | _ \<Rightarrow> fs')
      | _ \<Rightarrow> fs')"

lemma half_stored_publish:
  assumes "m \<le> 10"
  shows "half_stored m (ml\<lparr>ml_payload_bytes := b, ml_write_count := w\<rparr>) ml =
    (if m < 2 then ml else if m < 10 then ml\<lparr>ml_write_count := w\<rparr> else ml\<lparr>ml_payload_bytes := b, ml_write_count := w\<rparr>)"
proof -
  have "m \<in> set [0..<11]" using assms by auto
  then show ?thesis by (cases ml) (auto simp: half_stored_def line_words_def words_line_def upt_rec)
qed

lemma example_max: "uint (ml_payload_max (manager_own example_session)) = 4032" "ml_payload_bytes (manager_own example_session) = 0"
  using setup_manager [OF example_setup, of "\<lparr>pc_line = zero_process_line, pc_base = None\<rparr>" 99]
  by (auto simp: manager_own_def example_session_def attach_all_def new_manager_line_def zero_manager_line_def)

section \<open>Properties\<close>

text \<open>C5: However the steps of the manager and of the processes interleave, and however often the counters wrap
  around, each process has read the messages sent, in order and each once, except perhaps the last; and
  what it has copied of that one so far is the beginning of it, so that no message is overwritten while
  somebody reads it.\<close>

theorem shm_concurrent_delivery:
  assumes "session_ok n mo po S" and "run_reach n cap S C" and "i < n"
  shows "(ss_recv (cn_session C) i = ss_sent (cn_session C) \<or>
      (ss_sent (cn_session C) \<noteq> [] \<and> ss_recv (cn_session C) i = butlast (ss_sent (cn_session C)))) \<and>
    (\<forall>d. cn_process C i = P_Copy d \<longrightarrow> ss_recv (cn_session C) i \<noteq> ss_sent (cn_session C) \<and>
      d = take (length d) (last (ss_sent (cn_session C))))"
  using run_reach_ok [OF assms(2,1)] assms(3) by (auto simp: run_ok_def process_ok_def reads_ok_def)

theorem shm_concurrent_delivery_witness:
  "ss_recv (cn_session (at_rest example_session)) 1 = ss_sent (cn_session (at_rest example_session)) \<or>
   ss_recv (cn_session (at_rest example_session)) 1 = butlast (ss_sent (cn_session (at_rest example_session)))"
  using shm_concurrent_delivery [OF example_session_ok run_reach.start, of 1] by auto



text \<open>C6: A call of the interface is a run of these steps: whatever a valid write or a read does as a whole, the steps
  can do one after the other.\<close>

theorem shm_calls_in_steps:
  assumes "session_ok n mo po S" and "0 < k" and "k < uint (ml_payload_max (manager_own S))" and "nat k \<le> length p" and "i < n"
  shows "(\<forall>rc S'. session_write (Some p) k S = Inr (rc, S') \<longrightarrow> (run_step n cap)\<^sup>*\<^sup>* (at_rest S) (at_rest S')) \<and>
    (\<forall>rc S'. session_read i cap S = Inr (rc, S') \<longrightarrow> (run_step n cap)\<^sup>*\<^sup>* (at_rest S) (at_rest S'))"
  using write_in_steps [OF assms(1-4)] read_in_steps [OF assms(1,5)] by blast

theorem shm_calls_in_steps_witness:
  "\<exists>S'. session_write (Some ''hello'') 5 example_session = Inr (0, S') \<and> ss_sent S' = [''hello''] \<and>
    (run_step 2 9)\<^sup>*\<^sup>* (at_rest example_session) (at_rest S')"
proof -
  obtain ml where m: "manager_ok 2 0 (\<lambda>i. env_new ([example_shm_env 1, example_shm_env 2] ! i)) ml example_session"
    and pr: "\<forall>i<2. process_ok 0 (\<lambda>i. env_new ([example_shm_env 1, example_shm_env 2] ! i)) ml example_session i"
    and inj: "0 \<notin> (\<lambda>i. env_new ([example_shm_env 1, example_shm_env 2] ! i)) ` {..<2}"
    using example_session_ok by (auto simp: session_ok_def)
  have "ml = manager_own example_session" using m by (auto simp: manager_ok_def manager_own_def)
  then obtain S' where "session_write (Some ''hello'') 5 example_session = Inr (0, S')" "ss_sent S' = [''hello'']"
    using write_published [OF inj m pr, of 5 "''hello''"] example_max example_session_log by auto
  then show ?thesis
    using shm_calls_in_steps [OF example_session_ok, of 5 "''hello''" 1 9] example_max by auto
qed

text \<open>C20: The copy of a line need not be one step. When the manager's \<open>memcpy\<close> stores the words of its new line one after
  the other, a process that reads after the second and before the last word takes the new message with
  the length of the previous one, and reports it as read.\<close>

theorem shm_torn_line:
  assumes "session_ok n mo po S" and "i < n" and "\<forall>j<n. ss_recv S j = ss_sent S"
    and "0 < k" "k < uint (ml_payload_max (manager_own S))" "nat k \<le> length p"
    and "ss_sent S = [] \<longrightarrow> ml_payload_bytes (manager_own S) = 0"
    and "unat (ml_payload_bytes (manager_own S)) \<le> cap" "nat k \<le> cap" "m \<le> 10"
  shows "\<exists>S' rest lc fs. session_write (Some p) k S = Inr (0, S') \<and>
    dynpm_shm_process_read cap (ss_process S' i) (mid_store m mo (ss_fs S) (ss_fs S')) =
      Inr (0, Some (if m < 2 then []
                    else take (if m < 10 then unat (ml_payload_bytes (manager_own S)) else nat k) (take (nat k) p @ rest)), lc, fs) \<and>
    (2 \<le> m \<longrightarrow> pl_read_count (pc_line (hd (the (process_control lc)))) = ml_write_count (manager_own S'))"
proof -
  from assms(1) obtain ml area where pr: "\<forall>i<n. process_ok mo po ml S i" and mid: "manager_mid n mo po ml area S"
    and inj: "mo \<notin> po ` {..<n}" and a: "area_ok ml area (ss_sent S)" by (auto simp: session_ok_def manager_ok_mid)
  then obtain pcs where mc: "manager_control (ss_manager S) = Some \<lparr>mc_line = ml, mc_base = Some mo\<rparr>"
    "process_control (ss_manager S) = Some pcs" "map pc_base pcs = map (\<lambda>i. Some (po i)) [0..<n]"
    "unat (ml_process_count ml) = n" "fs_objects (ss_fs S) mo = Some \<lparr>so_line = Manager_Line ml, so_payload = area\<rparr>"
    "unat (ml_payload_max ml) \<le> length area" by (auto simp: manager_mid_def)
  have own: "manager_own S = ml" using mc(1) by (simp add: manager_own_def)
  have k: "0 < k" "k < uint (ml_payload_max ml)" "nat k \<le> length p" using assms(4-6) own by simp_all
  let ?l = "ml\<lparr>ml_payload_bytes := word_of_int k, ml_write_count := ml_write_count ml + 1\<rparr>"
  let ?area = "take (nat k) p @ drop (nat k) area"
  have all: "\<forall>j<n. pl_read_count (own_line S j) = ml_write_count ml" using assms(3) pr recv_count by blast
  obtain S' where w: "session_write (Some p) k S = Inr (0, S')" "ss_process S' = ss_process S" "manager_own S' = ?l"
    "ss_fs S' = (ss_fs S)\<lparr>fs_objects := (fs_objects (ss_fs S))(mo \<mapsto> \<lparr>so_line = Manager_Line ?l, so_payload = ?area\<rparr>)\<rparr>"
    using manager_write_eq(1) [OF pr mc k] all by (simp add: session_write_def manager_own_def Let_def)
  let ?h = "half_stored m ?l ml"
  have fs: "mid_store m mo (ss_fs S) (ss_fs S') =
      (ss_fs S)\<lparr>fs_objects := (fs_objects (ss_fs S))(mo \<mapsto> \<lparr>so_line = Manager_Line ?h, so_payload = ?area\<rparr>)\<rparr>"
    using w(4) mc(5) by (simp add: mid_store_def)
  from pr assms(2) obtain c pl parea where p: "manager_control (ss_process S i) = Some c" "mc_base c = Some mo"
    "process_control (ss_process S i) = Some [\<lparr>pc_line = pl, pc_base = Some (po i)\<rparr>]"
    "fs_objects (ss_fs S) (po i) = Some \<lparr>so_line = Process_Line pl, so_payload = parea\<rparr>"
    "unat (ml_payload_max ml) \<le> mapped_payload (ss_process S i)" by (auto simp: process_ok_def)
  have r: "pl_read_count pl = ml_write_count ml" using all assms(2) p(3) by (auto simp: own_line_def)
  have ne: "po i \<noteq> mo" using inj assms(2) by auto
  have old: "unat (ml_payload_bytes ml) \<le> unat (ml_payload_max ml)" using a assms(7) own by (auto simp: area_ok_def)
  have new: "unat (word_of_int k :: u32) = nat k" "nat k \<le> unat (ml_payload_max ml)"
    using unat_of_small_int [of k] k(1,2) nat_below_unat [OF k(2)] by simp_all
  have len: "length ?area = length area" using k(3) new(2) mc(6) by simp
  show ?thesis
    using w(1-3) fs p r ne old new len mc(6) assms(8-9) own half_stored_publish [OF assms(10), where ml = ml and b = "word_of_int k" and w = "ml_write_count ml + 1"]
    by (intro exI [of _ S'] exI [of _ "drop (nat k) area"])
       (auto simp: dynpm_shm_process_read_def load_manager_def object_at_def load_payload_def memcpy_from_def
          store_process_def put_object_def Let_def)
qed

theorem shm_torn_line_witness:
  "\<exists>S' lc fs. session_write (Some ''hello'') 5 example_session = Inr (0, S') \<and>
    dynpm_shm_process_read 9 (ss_process S' 1) (mid_store 2 0 (ss_fs example_session) (ss_fs S')) = Inr (0, Some [], lc, fs) \<and>
    pl_read_count (pc_line (hd (the (process_control lc)))) = ml_write_count (manager_own S')"
  using shm_torn_line [OF example_session_ok, of 1 5 "''hello''" 9 2] example_max example_session_log by auto

end
