(* ===== verification/Config.thy ===== *)
theory Config
  imports C_Text
begin

text \<open>
  The configuration: the scanner (\<open>flex.l\<close>), the grammar and its actions (\<open>bison.y\<close>), allocation,
  lookup and release (\<open>config.c\<close>), and the constructor and destructor of the library (\<open>load.c\<close>).
\<close>

section \<open>Data\<close>

definition CONFIG_MAX_STR_LEN :: nat where
  "CONFIG_MAX_STR_LEN = 16"

record dynpm_process_conf_entry =
  pe_name :: buffer
  pe_port :: int
  pe_threads :: int
  pe_host :: buffer

record dynpm_plugin_conf_entry =
  plugin_type :: buffer
  plugin_name :: buffer

record dynpm_conf =
  processes :: int
  process_entries :: "dynpm_process_conf_entry list"
  plugins :: int
  plugin_entries :: "dynpm_plugin_conf_entry list"

text \<open>The global pointer, and the two counters that are static in the actions of the grammar.\<close>

datatype conf_ptr = No_Conf | Conf dynpm_conf | Freed_Conf

record conf_state =
  dynpm_configuration :: conf_ptr
  process_entry :: nat
  wrapping_entry :: nat

definition conf_start :: conf_state where
  "conf_start = \<lparr>dynpm_configuration = No_Conf, process_entry = 0, wrapping_entry = 0\<rparr>"

definition the_conf :: "conf_state \<Rightarrow> dynpm_conf res" where
  "the_conf st = (case dynpm_configuration st of No_Conf \<Rightarrow> Inl Null_Deref | Freed_Conf \<Rightarrow> Inl Wild_Pointer | Conf c \<Rightarrow> Inr c)"

section \<open>The scanner\<close>

datatype token = Number int | String_Val string | Equals | Left | Right | Comma | Colon

definition is_blank :: "char \<Rightarrow> bool" where
  "is_blank c \<longleftrightarrow> c = CHR '' '' \<or> c = CHR 0x09 \<or> c = CHR 0x0A"

definition word_char :: "char \<Rightarrow> bool" where
  "word_char c \<longleftrightarrow> isdigit c \<or> (65 \<le> (of_char c :: nat) \<and> (of_char c :: nat) \<le> 90) \<or>
     (97 \<le> (of_char c :: nat) \<and> (of_char c :: nat) \<le> 122) \<or> c = CHR ''_''"

text \<open>A run of letters, digits and underscores: a number if it has digits only (both rules match all of it,
  and the first one wins), otherwise a string of at most 15 characters.\<close>

definition word_token :: "string \<Rightarrow> token res" where
  "word_token w =
     (if list_all isdigit w then rassert (int32_ok (int (dec_val w))) Int_Overflow (Inr (Number (int (dec_val w))))
      else rassert (length w < CONFIG_MAX_STR_LEN) Assert_Failed (Inr (String_Val w)))"

definition punctuation :: "char \<Rightarrow> token option" where
  "punctuation c =
     (if c = CHR ''='' then Some Equals else if c = CHR ''{'' then Some Left else if c = CHR ''}'' then Some Right
      else if c = CHR '','' then Some Comma else if c = CHR '':'' then Some Colon else None)"

text \<open>\<open>yylex\<close> returns the next token with the rest of the input, or nothing at the end.\<close>

function yylex :: "string \<Rightarrow> (token \<times> string) option res" where
  "yylex [] = Inr None"
| "yylex (c # cs) =
     (if is_blank c then yylex (dropWhile is_blank cs)
      else if c = CHR ''#'' then yylex (dropWhile (\<lambda>x. x \<noteq> CHR 0x0A) cs)
      else if word_char c then
        rbind (word_token (takeWhile word_char (c # cs))) (\<lambda>t. Inr (Some (t, dropWhile word_char cs)))
      else (case punctuation c of Some t \<Rightarrow> Inr (Some (t, cs)) | None \<Rightarrow> Inl Exited))"
  by pat_completeness auto
termination by (relation "measure length") (auto simp: less_Suc_eq_le length_dropWhile_le)

section \<open>The grammar\<close>

text \<open>The three kinds of item a file consists of.\<close>

datatype item =
    Configuration string int int string
  | Wrapping string string
  | Configuration_Size int int

datatype parsed = End_Of_File | Syntax_Error | Item item string

text \<open>Reading one token, with a syntax error when the file ends.\<close>

definition with_token :: "string \<Rightarrow> (token \<Rightarrow> string \<Rightarrow> parsed res) \<Rightarrow> parsed res" where
  "with_token s f = rbind (yylex s) (\<lambda>r. case r of None \<Rightarrow> Inr Syntax_Error | Some (t, s') \<Rightarrow> f t s')"

definition expect :: "token \<Rightarrow> string \<Rightarrow> (string \<Rightarrow> parsed res) \<Rightarrow> parsed res" where
  "expect t s f = with_token s (\<lambda>u s'. if u = t then f s' else Inr Syntax_Error)"

definition expect_number :: "string \<Rightarrow> (int \<Rightarrow> string \<Rightarrow> parsed res) \<Rightarrow> parsed res" where
  "expect_number s f = with_token s (\<lambda>u s'. case u of Number k \<Rightarrow> f k s' | _ \<Rightarrow> Inr Syntax_Error)"

definition expect_string :: "string \<Rightarrow> (string \<Rightarrow> string \<Rightarrow> parsed res) \<Rightarrow> parsed res" where
  "expect_string s f = with_token s (\<lambda>u s'. case u of String_Val w \<Rightarrow> f w s' | _ \<Rightarrow> Inr Syntax_Error)"

text \<open>\<open>configuration\<close> after its name and the equals sign.\<close>

definition parse_configuration :: "string \<Rightarrow> string \<Rightarrow> parsed res" where
  "parse_configuration name s =
     expect Left s (\<lambda>s. expect_number s (\<lambda>port s. expect Comma s (\<lambda>s. expect_number s (\<lambda>threads s.
     expect Comma s (\<lambda>s. expect_string s (\<lambda>host s. expect Right s (\<lambda>s.
       Inr (Item (Configuration name port threads host) s))))))))"

text \<open>\<open>configuration_size\<close> after the opening brace; the two words are not compared with anything.\<close>

definition parse_configuration_size :: "string \<Rightarrow> parsed res" where
  "parse_configuration_size s =
     expect_string s (\<lambda>_ s. expect Equals s (\<lambda>s. expect_number s (\<lambda>n s. expect Comma s (\<lambda>s.
     expect_string s (\<lambda>_ s. expect Equals s (\<lambda>s. expect_number s (\<lambda>k s. expect Right s (\<lambda>s.
       Inr (Item (Configuration_Size n k) s)))))))))"

definition parse_item :: "string \<Rightarrow> parsed res" where
  "parse_item s =
     rbind (yylex s) (\<lambda>r. case r of
         None \<Rightarrow> Inr End_Of_File
       | Some (String_Val w, s1) \<Rightarrow>
           with_token s1 (\<lambda>u s2. case u of
               Equals \<Rightarrow> parse_configuration w s2
             | Colon \<Rightarrow> expect_string s2 (\<lambda>v s3. Inr (Item (Wrapping w v) s3))
             | _ \<Rightarrow> Inr Syntax_Error)
       | Some (Left, s1) \<Rightarrow> parse_configuration_size s1
       | Some _ \<Rightarrow> Inr Syntax_Error)"

section \<open>The actions\<close>

text \<open>What \<open>malloc\<close> left in the new entries: any content, in string blocks of 16 bytes.\<close>

record fresh_conf =
  fresh_process :: "nat \<Rightarrow> dynpm_process_conf_entry"
  fresh_plugin :: "nat \<Rightarrow> dynpm_plugin_conf_entry"

definition allocate_dynpm_conf :: "fresh_conf \<Rightarrow> int \<Rightarrow> int \<Rightarrow> conf_state \<Rightarrow> conf_state" where
  "allocate_dynpm_conf g n k st =
     st\<lparr>dynpm_configuration := Conf \<lparr>processes = n, process_entries = map (fresh_process g) [0..<nat n],
                                    plugins = k, plugin_entries = map (fresh_plugin g) [0..<nat k]\<rparr>\<rparr>"

definition configuration_action :: "string \<Rightarrow> int \<Rightarrow> int \<Rightarrow> string \<Rightarrow> conf_state \<Rightarrow> conf_state res" where
  "configuration_action name port threads host st =
     rbind (the_conf st) (\<lambda>c. let i = process_entry st in
     rassert (i < length (process_entries c)) Out_Of_Bounds
       (let e = process_entries c ! i in
        rbind (write_str name (pe_name e)) (\<lambda>b.
        rbind (write_str host (pe_host e)) (\<lambda>h.
          Inr (st\<lparr>dynpm_configuration := Conf (c\<lparr>process_entries :=
                    (process_entries c)[i := \<lparr>pe_name = b, pe_port = port, pe_threads = threads, pe_host = h\<rparr>]\<rparr>),
                  process_entry := i + 1\<rparr>)))))"

definition wrapping_action :: "string \<Rightarrow> string \<Rightarrow> conf_state \<Rightarrow> conf_state res" where
  "wrapping_action ty name st =
     rbind (the_conf st) (\<lambda>c. let i = wrapping_entry st in
     rassert (i < length (plugin_entries c)) Out_Of_Bounds
       (let e = plugin_entries c ! i in
        rbind (write_str ty (plugin_type e)) (\<lambda>t.
        rbind (write_str name (plugin_name e)) (\<lambda>n.
          Inr (st\<lparr>dynpm_configuration := Conf (c\<lparr>plugin_entries :=
                    (plugin_entries c)[i := \<lparr>plugin_type = t, plugin_name = n\<rparr>]\<rparr>),
                  wrapping_entry := i + 1\<rparr>)))))"

fun item_action :: "fresh_conf \<Rightarrow> item \<Rightarrow> conf_state \<Rightarrow> conf_state res" where
  "item_action g (Configuration name port threads host) st = configuration_action name port threads host st"
| "item_action g (Wrapping ty name) st = wrapping_action ty name st"
| "item_action g (Configuration_Size n k) st = Inr (allocate_dynpm_conf g n k st)"

section \<open>Termination of the parser\<close>

text \<open>Every token, and so every item, shortens the input.\<close>

lemma yylex_shorter: "yylex s = Inr (Some (t, s')) \<Longrightarrow> length s' < length s"
proof (induction s arbitrary: t s' rule: yylex.induct)
  case (2 c cs)
  show ?case
  proof (cases "is_blank c \<or> c = CHR ''#''")
    case True
    then have "length s' < length cs \<or> length s' < length (c # cs)"
      using 2 length_dropWhile_le [of is_blank cs] length_dropWhile_le [of "\<lambda>x. x \<noteq> CHR 0x0A" cs]
      by (cases "is_blank c") (fastforce, fastforce)
    then show ?thesis by auto
  next
    case False
    then show ?thesis using 2(3) length_dropWhile_le [of word_char cs]
      by (auto simp: res_simps less_Suc_eq_le split: if_splits option.splits)
  qed
qed simp

lemma with_token_Item:
  assumes "with_token s f = Inr (Item i r)"
  obtains t s' where "f t s' = Inr (Item i r)" and "length s' < length s"
  using assms yylex_shorter by (force simp: with_token_def res_simps split: option.splits)

lemma expect_Item:
  assumes "expect t s f = Inr (Item i r)"
  obtains s' where "f s' = Inr (Item i r)" and "length s' < length s"
  using assms unfolding expect_def by (elim with_token_Item) (auto split: if_splits)

lemma expect_number_Item:
  assumes "expect_number s f = Inr (Item i r)"
  obtains k s' where "f k s' = Inr (Item i r)" and "length s' < length s"
  using assms unfolding expect_number_def by (elim with_token_Item) (auto split: token.splits)

lemma expect_string_Item:
  assumes "expect_string s f = Inr (Item i r)"
  obtains w s' where "f w s' = Inr (Item i r)" and "length s' < length s"
  using assms unfolding expect_string_def by (elim with_token_Item) (auto split: token.splits)

lemmas expect_Items = expect_Item expect_number_Item expect_string_Item

lemma parse_configuration_shorter: "parse_configuration w s = Inr (Item i r) \<Longrightarrow> length r < length s"
  unfolding parse_configuration_def by (elim expect_Items) auto

lemma parse_configuration_size_shorter: "parse_configuration_size s = Inr (Item i r) \<Longrightarrow> length r < length s"
  unfolding parse_configuration_size_def by (elim expect_Items) auto

lemma parse_item_shorter:
  assumes "parse_item s = Inr (Item i r)"
  shows "length r < length s"
proof -
  from assms obtain t s1 where t: "yylex s = Inr (Some (t, s1))" and p: "length s1 < length s"
    using yylex_shorter by (fastforce simp: parse_item_def res_simps split: option.splits)
  have "length r < length s1"
    using assms t unfolding parse_item_def
    by (auto split: token.splits elim!: with_token_Item expect_string_Item
        dest!: parse_configuration_shorter parse_configuration_size_shorter)
  with p show ?thesis by simp
qed

section \<open>Loading\<close>

text \<open>\<open>yyparse\<close>: items are read and their actions run until the end of the file (result 0) or a syntax error
  (result 1).\<close>

function yyparse :: "fresh_conf \<Rightarrow> string \<Rightarrow> conf_state \<Rightarrow> (int \<times> conf_state) res" where
  "yyparse g s st =
     (case parse_item s of
        Inl e \<Rightarrow> Inl e
      | Inr End_Of_File \<Rightarrow> Inr (0, st)
      | Inr Syntax_Error \<Rightarrow> Inr (1, st)
      | Inr (Item i r) \<Rightarrow> (case item_action g i st of Inl e \<Rightarrow> Inl e | Inr st' \<Rightarrow> yyparse g r st'))"
  by pat_completeness auto
termination by (relation "measure (\<lambda>(g, s, st). length s)") (auto dest: parse_item_shorter)

declare yyparse.simps [simp del] yylex.simps(2) [simp del]

text \<open>\<open>dynpm_conf_parse\<close>, with the content of the file if it can be opened. The parser's result is dropped.\<close>

definition dynpm_conf_parse :: "fresh_conf \<Rightarrow> string option \<Rightarrow> conf_state \<Rightarrow> (int \<times> conf_state) res" where
  "dynpm_conf_parse g file st =
     (case file of None \<Rightarrow> Inr (-1, st) | Some s \<Rightarrow> rbind (yyparse g s st) (\<lambda>(rc, st'). Inr (0, st')))"

definition load :: "fresh_conf \<Rightarrow> string option \<Rightarrow> conf_state \<Rightarrow> conf_state res" where
  "load g file st = rbind (dynpm_conf_parse g file st) (\<lambda>(rc, st'). Inr st')"

text \<open>\<open>free_dynpm_conf\<close>, which the destructor calls whether or not a configuration was loaded.\<close>

definition free_dynpm_conf :: "conf_state \<Rightarrow> conf_state res" where
  "free_dynpm_conf st = rbind (the_conf st) (\<lambda>c. Inr (st\<lparr>dynpm_configuration := Freed_Conf\<rparr>))"

definition unload :: "conf_state \<Rightarrow> conf_state res" where
  "unload st = free_dynpm_conf st"

section \<open>Lookup\<close>

text \<open>\<open>!strcmp(b, s)\<close> for a block \<open>b\<close> of the configuration.\<close>

fun str_matches :: "buffer \<Rightarrow> string \<Rightarrow> bool res" where
  "str_matches [] s = Inl Out_Of_Bounds"
| "str_matches (c # cs) [] = Inr (c = NUL)"
| "str_matches (c # cs) (d # ds) = (if c = d then str_matches cs ds else Inr False)"

text \<open>The index of the first block that matches.\<close>

fun find_entry :: "buffer list \<Rightarrow> string \<Rightarrow> nat option res" where
  "find_entry [] s = Inr None"
| "find_entry (b # bs) s =
     rbind (str_matches b s) (\<lambda>eq. if eq then Inr (Some 0) else rbind (find_entry bs s) (\<lambda>r. Inr (map_option Suc r)))"

definition dynpm_conf_get_process_config :: "string \<Rightarrow> conf_state \<Rightarrow> (int \<times> dynpm_process_conf_entry option) res" where
  "dynpm_conf_get_process_config name st =
     rbind (the_conf st) (\<lambda>c. rbind (find_entry (map pe_name (process_entries c)) name) (\<lambda>r.
       case r of None \<Rightarrow> Inr (-1, None) | Some i \<Rightarrow> Inr (0, Some (process_entries c ! i))))"

definition dynpm_conf_get_plugin_config :: "string \<Rightarrow> conf_state \<Rightarrow> (int \<times> dynpm_plugin_conf_entry option) res" where
  "dynpm_conf_get_plugin_config ty st =
     rbind (the_conf st) (\<lambda>c. rbind (find_entry (map plugin_type (plugin_entries c)) ty) (\<lambda>r.
       case r of None \<Rightarrow> Inr (-1, None) | Some i \<Rightarrow> Inr (0, Some (plugin_entries c ! i))))"

end
