(* ===== verification/Config_Properties.thy ===== *)
theory Config_Properties
  imports Config
begin

text \<open>
  Scanner and parser against printed configurations: a file printed from a list of items is read back
  as these items, loading fills one entry per item, lookups return the first entry of that name. The
  last part shows what the loader does not notice.
\<close>

section \<open>The scanner on printed text\<close>

lemma punctuation_char [simp]:
  "\<not> word_char (CHR ''='')" "\<not> word_char (CHR ''{'')" "\<not> word_char (CHR ''}'')" "\<not> word_char (CHR '','')"
  "\<not> word_char (CHR '':'')" "\<not> word_char (CHR '' '')" "\<not> word_char (CHR 0x0A)" "\<not> word_char NUL"
  by (simp_all add: word_char_def isdigit_def NUL_def)

lemma yylex_blank [simp]: "is_blank c \<Longrightarrow> yylex (c # s) = yylex s"
proof -
  have "yylex (dropWhile is_blank s) = yylex s" by (cases s) (simp_all add: yylex.simps)
  then show "is_blank c \<Longrightarrow> yylex (c # s) = yylex s" by (simp add: yylex.simps)
qed

lemma blanks [simp]: "is_blank (CHR '' '')" "is_blank (CHR 0x0A)"
  by (simp_all add: is_blank_def)

lemma yylex_punctuation [simp]:
  "yylex (CHR ''='' # s) = Inr (Some (Equals, s))" "yylex (CHR ''{'' # s) = Inr (Some (Left, s))"
  "yylex (CHR ''}'' # s) = Inr (Some (Right, s))" "yylex (CHR '','' # s) = Inr (Some (Comma, s))"
  "yylex (CHR '':'' # s) = Inr (Some (Colon, s))"
  by (simp_all add: yylex.simps is_blank_def punctuation_def)

lemma word_char_plain: "word_char c \<Longrightarrow> \<not> is_blank c \<and> c \<noteq> CHR ''#''"
  by (auto simp: word_char_def is_blank_def isdigit_def)

lemma yylex_word:
  assumes "w \<noteq> []" and "list_all word_char w" and "\<not> word_char d"
  shows "yylex (w @ d # r) = rbind (word_token w) (\<lambda>t. Inr (Some (t, d # r)))"
proof -
  obtain c cs where w: "w = c # cs" using assms(1) by (cases w) auto
  have "takeWhile word_char (w @ d # r) = w" "dropWhile word_char (w @ d # r) = d # r"
    using assms(2,3) by (auto simp: list_all_iff intro!: takeWhile_append_stop dropWhile_append_stop)
  moreover have "word_char c" using assms(2) w by simp
  ultimately show ?thesis using w word_char_plain [of c] by (simp add: yylex.simps)
qed

text \<open>The words the scanner takes for strings, and the numbers it takes.\<close>

definition name_ok :: "string \<Rightarrow> bool" where
  "name_ok w \<longleftrightarrow> list_all word_char w \<and> \<not> list_all isdigit w \<and> length w < CONFIG_MAX_STR_LEN"

definition number_ok :: "int \<Rightarrow> bool" where
  "number_ok k \<longleftrightarrow> 0 \<le> k \<and> int32_ok k"

lemma name_ok_NUL: "name_ok w \<Longrightarrow> NUL \<notin> set w"
  by (metis list_all_iff name_ok_def punctuation_char(8))

lemma yylex_name [simp]: "name_ok w \<Longrightarrow> \<not> word_char d \<Longrightarrow> yylex (w @ d # r) = Inr (Some (String_Val w, d # r))"
  by (subst yylex_word) (auto simp: name_ok_def word_token_def)

lemma yylex_number [simp]:
  "number_ok k \<Longrightarrow> \<not> word_char d \<Longrightarrow> yylex (show_int k @ d # r) = Inr (Some (Number k, d # r))"
proof -
  assume k: "number_ok k" and d: "\<not> word_char d"
  have s: "show_int k = show_nat (nat k)" using k by (simp add: show_int_def number_ok_def)
  have "\<forall>c \<in> set (show_nat (nat k)). isdigit c" using show_nat_digits by blast
  then have "list_all isdigit (show_nat (nat k))" "list_all word_char (show_nat (nat k))"
    by (auto simp: list_all_iff word_char_def)
  then show ?thesis unfolding s using k d by (subst yylex_word) (auto simp: word_token_def number_ok_def)
qed

section \<open>The parser on printed text\<close>

fun item_text :: "item \<Rightarrow> string" where
  "item_text (Configuration name port threads host) =
     name @ '' = { '' @ show_int port @ '', '' @ show_int threads @ '', '' @ host @ '' }'' @ [CHR 0x0A]"
| "item_text (Wrapping ty name) = ty @ '':'' @ name @ [CHR 0x0A]"
| "item_text (Configuration_Size n k) =
     ''{ processes = '' @ show_int n @ '' , plugins = '' @ show_int k @ '' }'' @ [CHR 0x0A]"

fun item_ok :: "item \<Rightarrow> bool" where
  "item_ok (Configuration name port threads host) \<longleftrightarrow> name_ok name \<and> number_ok port \<and> number_ok threads \<and> name_ok host"
| "item_ok (Wrapping ty name) \<longleftrightarrow> name_ok ty \<and> name_ok name"
| "item_ok (Configuration_Size n k) \<longleftrightarrow> number_ok n \<and> number_ok k"

lemma size_words [simp]: "name_ok ''processes''" "name_ok ''plugins''"
  by (simp_all add: name_ok_def word_char_def isdigit_def CONFIG_MAX_STR_LEN_def)

lemmas expect_defs = expect_def expect_number_def expect_string_def with_token_def

lemma parse_item_blank: "is_blank c \<Longrightarrow> parse_item (c # s) = parse_item s"
  by (simp add: parse_item_def)

lemma parse_item_text: "item_ok i \<Longrightarrow> parse_item (item_text i @ s) = Inr (Item i (CHR 0x0A # s))"
  using yylex_name [OF size_words(1)] yylex_name [OF size_words(2)]
  by (cases i) (simp_all add: parse_item_def parse_configuration_def parse_configuration_size_def expect_defs)

text \<open>Running the actions of a list of items.\<close>

fun run_items :: "fresh_conf \<Rightarrow> item list \<Rightarrow> conf_state \<Rightarrow> conf_state res" where
  "run_items g [] st = Inr st"
| "run_items g (i # is) st = rbind (item_action g i st) (run_items g is)"

lemma run_items_append: "run_items g (xs @ ys) st = rbind (run_items g xs st) (run_items g ys)"
  by (induction xs arbitrary: st) (auto simp: rbind_def split: sum.splits)

definition conf_text :: "item list \<Rightarrow> string" where
  "conf_text is = concat (map item_text is)"

lemma yyparse_blank: "yyparse g (CHR 0x0A # s) st = yyparse g s st"
  by (simp add: yyparse.simps [of g "CHR 0x0A # s"] yyparse.simps [of g s] parse_item_blank)

lemma yyparse_items:
  "list_all item_ok is \<Longrightarrow> yyparse g (conf_text is @ s) st = rbind (run_items g is st) (yyparse g s)"
proof (induction "is" arbitrary: st)
  case (Cons i "is")
  then show ?case
    by (cases "item_action g i st") (simp_all add: conf_text_def yyparse.simps [of g "item_text i @ _"] parse_item_text yyparse_blank)
qed (simp add: conf_text_def)

lemma yyparse_end: "yyparse g [] st = Inr (0, st)"
  by (simp add: yyparse.simps parse_item_def)

lemma load_items:
  "list_all item_ok is \<Longrightarrow> load g (Some (conf_text is)) st = run_items g is st"
  using yyparse_items [of "is" g "[]" st]
  by (cases "run_items g is st") (simp_all add: load_def dynpm_conf_parse_def yyparse_end)

section \<open>Entries and items\<close>

fun is_process :: "item \<Rightarrow> bool" where
  "is_process (Configuration n p t h) = True"
| "is_process i = False"

fun is_plugin :: "item \<Rightarrow> bool" where
  "is_plugin (Wrapping t n) = True"
| "is_plugin i = False"

lemma process_no_plugin: "is_process i \<Longrightarrow> \<not> is_plugin i"
  by (cases i) auto

fun process_is :: "dynpm_process_conf_entry \<Rightarrow> item \<Rightarrow> bool" where
  "process_is e (Configuration name port threads host) \<longleftrightarrow>
     c_str (pe_name e) = Inr name \<and> pe_port e = port \<and> pe_threads e = threads \<and> c_str (pe_host e) = Inr host"
| "process_is e i = False"

fun plugin_is :: "dynpm_plugin_conf_entry \<Rightarrow> item \<Rightarrow> bool" where
  "plugin_is e (Wrapping ty name) \<longleftrightarrow> c_str (plugin_type e) = Inr ty \<and> c_str (plugin_name e) = Inr name"
| "plugin_is e i = False"

text \<open>The string blocks of an entry have 16 bytes.\<close>

definition process_blocks :: "dynpm_process_conf_entry \<Rightarrow> bool" where
  "process_blocks e \<longleftrightarrow> length (pe_name e) = CONFIG_MAX_STR_LEN \<and> length (pe_host e) = CONFIG_MAX_STR_LEN"

definition plugin_blocks :: "dynpm_plugin_conf_entry \<Rightarrow> bool" where
  "plugin_blocks e \<longleftrightarrow> length (plugin_type e) = CONFIG_MAX_STR_LEN \<and> length (plugin_name e) = CONFIG_MAX_STR_LEN"

definition fresh_ok :: "fresh_conf \<Rightarrow> bool" where
  "fresh_ok g \<longleftrightarrow> (\<forall>i. process_blocks (fresh_process g i) \<and> plugin_blocks (fresh_plugin g i))"

text \<open>A table that is filled up to the items seen so far.\<close>

definition filled :: "('e \<Rightarrow> bool) \<Rightarrow> ('e \<Rightarrow> item \<Rightarrow> bool) \<Rightarrow> nat \<Rightarrow> item list \<Rightarrow> 'e list \<Rightarrow> bool" where
  "filled blocks matches n seen es \<longleftrightarrow>
     length es = n \<and> list_all blocks es \<and> list_all2 matches (take (length seen) es) seen"

lemma filled_update:
  assumes "filled blocks matches n seen es" and "length seen < n" and "matches e i" and "blocks e"
  shows "filled blocks matches n (seen @ [i]) (es[length seen := e])"
proof -
  have l: "length es = n" "list_all blocks es" "list_all2 matches (take (length seen) es) seen"
    using assms(1) by (auto simp: filled_def)
  have "take (Suc (length seen)) (es[length seen := e]) = take (length seen) es @ [e]"
    using l(1) assms(2) by (simp add: take_Suc_conv_app_nth)
  moreover have "list_all blocks (es[length seen := e])"
    using l(2) assms(4) set_update_subset_insert [of es "length seen" e] by (auto simp: list_all_iff)
  ultimately show ?thesis using l assms(3) by (simp add: filled_def list_all2_appendI)
qed

definition loaded :: "nat \<Rightarrow> nat \<Rightarrow> item list \<Rightarrow> conf_state \<Rightarrow> bool" where
  "loaded n k seen st \<longleftrightarrow>
     (\<exists>c. dynpm_configuration st = Conf c \<and> processes c = int n \<and> plugins c = int k \<and>
        process_entry st = length (filter is_process seen) \<and> wrapping_entry st = length (filter is_plugin seen) \<and>
        filled process_blocks process_is n (filter is_process seen) (process_entries c) \<and>
        filled plugin_blocks plugin_is k (filter is_plugin seen) (plugin_entries c))"

lemma loaded_start:
  assumes "fresh_ok g" and "0 \<le> n" and "0 \<le> k"
  shows "loaded (nat n) (nat k) [] (allocate_dynpm_conf g n k conf_start)"
  using assms by (auto simp: loaded_def filled_def allocate_dynpm_conf_def conf_start_def fresh_ok_def list_all_iff)

lemma write_str_name:
  assumes "name_ok w" and "length b = CONFIG_MAX_STR_LEN"
  obtains b' where "write_str w b = Inr b'" "length b' = CONFIG_MAX_STR_LEN" "c_str b' = Inr w"
proof -
  obtain b' where "write_str w b = Inr b'" using assms by (simp add: write_str_def name_ok_def)
  then show thesis using that length_write_str c_str_write_str name_ok_NUL [OF assms(1)] assms(2) by metis
qed

lemma configuration_action_loaded:
  assumes ld: "loaded n k seen st" and ok: "item_ok (Configuration name port threads host)"
    and room: "length (filter is_process seen) < n"
  shows "\<exists>st'. configuration_action name port threads host st = Inr st' \<and>
               loaded n k (seen @ [Configuration name port threads host]) st'"
proof -
  let ?p = "length (filter is_process seen)"
  from ld obtain c where c: "dynpm_configuration st = Conf c" "process_entry st = ?p"
    "wrapping_entry st = length (filter is_plugin seen)"
    "filled process_blocks process_is n (filter is_process seen) (process_entries c)"
    "filled plugin_blocks plugin_is k (filter is_plugin seen) (plugin_entries c)"
    "processes c = int n" "plugins c = int k" by (auto simp: loaded_def)
  have len: "?p < length (process_entries c)" "list_all process_blocks (process_entries c)" using c(4) room by (simp_all add: filled_def)
  then have e: "process_blocks (process_entries c ! ?p)" by (simp add: list_all_length)
  obtain b where b: "write_str name (pe_name (process_entries c ! ?p)) = Inr b" "length b = CONFIG_MAX_STR_LEN" "c_str b = Inr name"
    using write_str_name [of name] ok e by (auto simp: process_blocks_def)
  obtain h where h: "write_str host (pe_host (process_entries c ! ?p)) = Inr h" "length h = CONFIG_MAX_STR_LEN" "c_str h = Inr host"
    using write_str_name [of host] ok e by (auto simp: process_blocks_def)
  let ?e = "\<lparr>pe_name = b, pe_port = port, pe_threads = threads, pe_host = h\<rparr>"
  let ?st = "st\<lparr>dynpm_configuration := Conf (c\<lparr>process_entries := (process_entries c)[?p := ?e]\<rparr>), process_entry := ?p + 1\<rparr>"
  have "configuration_action name port threads host st = Inr ?st"
    using c(1,2) len(1) b(1) h(1) by (simp add: configuration_action_def the_conf_def Let_def)
  moreover have "loaded n k (seen @ [Configuration name port threads host]) ?st"
    using c filled_update [OF c(4) room, of ?e "Configuration name port threads host"] b h
    by (simp add: loaded_def process_blocks_def)
  ultimately show ?thesis by blast
qed

lemma wrapping_action_loaded:
  assumes ld: "loaded n k seen st" and ok: "item_ok (Wrapping ty name)"
    and room: "length (filter is_plugin seen) < k"
  shows "\<exists>st'. wrapping_action ty name st = Inr st' \<and> loaded n k (seen @ [Wrapping ty name]) st'"
proof -
  let ?p = "length (filter is_plugin seen)"
  from ld obtain c where c: "dynpm_configuration st = Conf c" "process_entry st = length (filter is_process seen)"
    "wrapping_entry st = ?p"
    "filled process_blocks process_is n (filter is_process seen) (process_entries c)"
    "filled plugin_blocks plugin_is k (filter is_plugin seen) (plugin_entries c)"
    "processes c = int n" "plugins c = int k" by (auto simp: loaded_def)
  have len: "?p < length (plugin_entries c)" "list_all plugin_blocks (plugin_entries c)" using c(5) room by (simp_all add: filled_def)
  then have e: "plugin_blocks (plugin_entries c ! ?p)" by (simp add: list_all_length)
  obtain b where b: "write_str ty (plugin_type (plugin_entries c ! ?p)) = Inr b" "length b = CONFIG_MAX_STR_LEN" "c_str b = Inr ty"
    using write_str_name [of ty] ok e by (auto simp: plugin_blocks_def)
  obtain h where h: "write_str name (plugin_name (plugin_entries c ! ?p)) = Inr h" "length h = CONFIG_MAX_STR_LEN" "c_str h = Inr name"
    using write_str_name [of name] ok e by (auto simp: plugin_blocks_def)
  let ?e = "\<lparr>plugin_type = b, plugin_name = h\<rparr>"
  let ?st = "st\<lparr>dynpm_configuration := Conf (c\<lparr>plugin_entries := (plugin_entries c)[?p := ?e]\<rparr>), wrapping_entry := ?p + 1\<rparr>"
  have "wrapping_action ty name st = Inr ?st"
    using c(1,3) len(1) b(1) h(1) by (simp add: wrapping_action_def the_conf_def Let_def)
  moreover have "loaded n k (seen @ [Wrapping ty name]) ?st"
    using c filled_update [OF c(5) room, of ?e "Wrapping ty name"] b h by (simp add: loaded_def plugin_blocks_def)
  ultimately show ?thesis by blast
qed

lemma run_items_loaded:
  assumes "loaded n k seen st" and "list_all item_ok is" and "list_all (\<lambda>i. is_process i \<or> is_plugin i) is"
    and "length (filter is_process (seen @ is)) \<le> n" and "length (filter is_plugin (seen @ is)) \<le> k"
  shows "\<exists>st'. run_items g is st = Inr st' \<and> loaded n k (seen @ is) st'"
  using assms
proof (induction "is" arbitrary: seen st)
  case (Cons i "is")
  have "\<exists>st'. item_action g i st = Inr st' \<and> loaded n k (seen @ [i]) st'"
    using Cons.prems configuration_action_loaded [OF Cons.prems(1)] wrapping_action_loaded [OF Cons.prems(1)]
    by (cases i) simp_all
  then obtain st' where st': "item_action g i st = Inr st'" "loaded n k (seen @ [i]) st'" by blast
  then show ?case using Cons.IH [OF st'(2)] Cons.prems(2-5) by simp
qed simp

section \<open>Lookups\<close>

lemma str_matches_c_str:
  "c_str b = Inr w \<Longrightarrow> NUL \<notin> set s \<Longrightarrow> str_matches b s = Inr (w = s)"
proof (induction b s arbitrary: w rule: str_matches.induct)
  case (1 s)
  then show ?case by (simp add: c_str_def)
next
  case (2 c cs)
  then show ?case by (auto simp: c_str_def split: if_splits)
next
  case (3 c cs d ds)
  show ?case
  proof (cases "c = NUL")
    case True
    then show ?thesis using 3(2,3) by (auto simp: c_str_def split: if_splits)
  next
    case False
    then obtain w' where w: "w = c # w'" "c_str cs = Inr w'" using 3(2) by (auto simp: c_str_def split: if_splits)
    show ?thesis using 3(1) [OF _ w(2)] 3(3) w(1) by auto
  qed
qed

text \<open>The search finds the position of the first item of that name.\<close>

lemma find_entry_first:
  "list_all2 (\<lambda>b i. c_str b = Inr (f i)) bs is \<Longrightarrow> NUL \<notin> set s \<Longrightarrow>
   \<exists>r. find_entry bs s = Inr r \<and>
     (case r of None \<Rightarrow> find (\<lambda>i. f i = s) is = None | Some j \<Rightarrow> j < length is \<and> find (\<lambda>i. f i = s) is = Some (is ! j))"
proof (induction bs "is" rule: list_all2_induct)
  case (Cons b bs i "is")
  have "str_matches b s = Inr (f i = s)" using str_matches_c_str Cons by blast
  then show ?case using Cons by (auto split: option.splits)
qed simp

fun item_name :: "item \<Rightarrow> string" where
  "item_name (Configuration name port threads host) = name"
| "item_name (Wrapping ty name) = ty"
| "item_name (Configuration_Size n k) = []"

lemma process_is_name: "process_is e i \<Longrightarrow> c_str (pe_name e) = Inr (item_name i)"
  by (cases i) auto

lemma plugin_is_name: "plugin_is e i \<Longrightarrow> c_str (plugin_type e) = Inr (item_name i)"
  by (cases i) auto

section \<open>Properties\<close>

text \<open>A list of process and plugin items, as many as the first line announces, and a file printed from it.\<close>

definition conf_ok :: "item list \<Rightarrow> bool" where
  "conf_ok is \<longleftrightarrow> list_all item_ok is \<and> list_all (\<lambda>i. is_process i \<or> is_plugin i) is \<and> length is < 2 ^ 31"

definition conf_file :: "item list \<Rightarrow> string" where
  "conf_file is = conf_text (Configuration_Size (int (length (filter is_process is))) (int (length (filter is_plugin is))) # is)"

lemma small_count: "length is < 2 ^ 31 \<Longrightarrow> number_ok (int (length (filter P is)))"
  using le_less_trans [OF length_filter_le, of "is" "2 ^ 31" P] by (simp add: number_ok_def int32_ok_def)

lemma conf_file_loaded:
  assumes "conf_ok is" and "fresh_ok g"
  shows "\<exists>st. load g (Some (conf_file is)) conf_start = Inr st \<and>
              loaded (length (filter is_process is)) (length (filter is_plugin is)) is st"
proof -
  let ?n = "length (filter is_process is)" and ?k = "length (filter is_plugin is)"
  have "loaded ?n ?k [] (allocate_dynpm_conf g (int ?n) (int ?k) conf_start)"
    using loaded_start [OF assms(2), of "int ?n" "int ?k"] by simp
  from run_items_loaded [OF this, of "is" g] assms(1)
  obtain st where "run_items g is (allocate_dynpm_conf g (int ?n) (int ?k) conf_start) = Inr st" "loaded ?n ?k is st"
    by (auto simp: conf_ok_def)
  moreover have "list_all item_ok (Configuration_Size (int ?n) (int ?k) # is)"
    using assms(1) small_count [of "is"] by (simp add: conf_ok_def)
  ultimately show ?thesis unfolding conf_file_def using load_items by simp
qed

lemma loaded_entries:
  assumes "loaded (length (filter is_process is)) (length (filter is_plugin is)) is st"
  obtains c where "dynpm_configuration st = Conf c" "list_all2 process_is (process_entries c) (filter is_process is)"
    "list_all2 plugin_is (plugin_entries c) (filter is_plugin is)"
  using assms by (auto simp: loaded_def filled_def)

text \<open>An example: the entries of the file that ships with the library, and the blocks \<open>malloc\<close> returned.\<close>

definition example_items :: "item list" where
  "example_items = [Configuration ''slurmctld'' 9500 16 ''slurmv'', Wrapping ''sched'' ''backfill'']"

definition example_fresh :: fresh_conf where
  "example_fresh =
     \<lparr>fresh_process = (\<lambda>_. \<lparr>pe_name = replicate 16 (CHR ''x''), pe_port = 0, pe_threads = 0, pe_host = replicate 16 (CHR ''x'')\<rparr>),
      fresh_plugin = (\<lambda>_. \<lparr>plugin_type = replicate 16 (CHR ''x''), plugin_name = replicate 16 (CHR ''x'')\<rparr>)\<rparr>"

lemma example_conf_ok [simp]: "conf_ok example_items" "fresh_ok example_fresh"
  by (simp_all add: conf_ok_def example_items_def name_ok_def number_ok_def int32_ok_def word_char_def isdigit_def
      CONFIG_MAX_STR_LEN_def fresh_ok_def example_fresh_def process_blocks_def plugin_blocks_def)

text \<open>C9: A printed configuration file is loaded completely: there is one process entry per process line and
  one plugin entry per plugin line, in the order of the file, with the values of that line.\<close>

theorem conf_file_round_trip:
  assumes "conf_ok is" and "fresh_ok g"
  shows "\<exists>st c. load g (Some (conf_file is)) conf_start = Inr st \<and> dynpm_configuration st = Conf c \<and>
    list_all2 process_is (process_entries c) (filter is_process is) \<and>
    list_all2 plugin_is (plugin_entries c) (filter is_plugin is)"
  using conf_file_loaded [OF assms] loaded_entries by metis

theorem conf_file_round_trip_witness:
  "\<exists>st c. load example_fresh (Some (conf_file example_items)) conf_start = Inr st \<and> dynpm_configuration st = Conf c \<and>
    list_all2 process_is (process_entries c) [Configuration ''slurmctld'' 9500 16 ''slurmv''] \<and>
    list_all2 plugin_is (plugin_entries c) [Wrapping ''sched'' ''backfill'']"
  using conf_file_round_trip [OF example_conf_ok] by (simp add: example_items_def)

text \<open>C16: After loading, a lookup of a process name returns the first entry of that name in the file, and -1
  when there is none.\<close>

theorem conf_process_lookup:
  assumes "conf_ok is" and "fresh_ok g" and "NUL \<notin> set name"
  shows "\<exists>st. load g (Some (conf_file is)) conf_start = Inr st \<and>
    (case find (\<lambda>i. item_name i = name) (filter is_process is) of
       None \<Rightarrow> dynpm_conf_get_process_config name st = Inr (-1, None)
     | Some i \<Rightarrow> \<exists>e. dynpm_conf_get_process_config name st = Inr (0, Some e) \<and> process_is e i)"
proof -
  obtain st c where st: "load g (Some (conf_file is)) conf_start = Inr st" and c: "dynpm_configuration st = Conf c"
    and es: "list_all2 process_is (process_entries c) (filter is_process is)"
    using conf_file_loaded [OF assms(1,2)] loaded_entries by metis
  have "list_all2 (\<lambda>b i. c_str b = Inr (item_name i)) (map pe_name (process_entries c)) (filter is_process is)"
    using es process_is_name by (auto simp: list_all2_conv_all_nth)
  from find_entry_first [OF this assms(3)] obtain r where r: "find_entry (map pe_name (process_entries c)) name = Inr r"
    "case r of None \<Rightarrow> find (\<lambda>i. item_name i = name) (filter is_process is) = None
     | Some j \<Rightarrow> j < length (filter is_process is) \<and>
         find (\<lambda>i. item_name i = name) (filter is_process is) = Some (filter is_process is ! j)" by blast
  have "case find (\<lambda>i. item_name i = name) (filter is_process is) of
       None \<Rightarrow> dynpm_conf_get_process_config name st = Inr (-1, None)
     | Some i \<Rightarrow> \<exists>e. dynpm_conf_get_process_config name st = Inr (0, Some e) \<and> process_is e i"
    using r c es by (cases r) (auto simp: dynpm_conf_get_process_config_def the_conf_def list_all2_nthD2)
  with st show ?thesis by blast
qed

theorem conf_process_lookup_witness:
  "\<exists>st e. load example_fresh (Some (conf_file example_items)) conf_start = Inr st \<and>
    dynpm_conf_get_process_config ''slurmctld'' st = Inr (0, Some e) \<and> pe_port e = 9500"
  using conf_process_lookup [OF example_conf_ok, of "''slurmctld''"] by (auto simp: example_items_def NUL_def)

text \<open>A lookup of a plugin type returns the first entry of that type.\<close>

theorem conf_plugin_lookup:
  assumes "conf_ok is" and "fresh_ok g" and "NUL \<notin> set ty"
  shows "\<exists>st. load g (Some (conf_file is)) conf_start = Inr st \<and>
    (case find (\<lambda>i. item_name i = ty) (filter is_plugin is) of
       None \<Rightarrow> dynpm_conf_get_plugin_config ty st = Inr (-1, None)
     | Some i \<Rightarrow> \<exists>e. dynpm_conf_get_plugin_config ty st = Inr (0, Some e) \<and> plugin_is e i)"
proof -
  obtain st c where st: "load g (Some (conf_file is)) conf_start = Inr st" and c: "dynpm_configuration st = Conf c"
    and es: "list_all2 plugin_is (plugin_entries c) (filter is_plugin is)"
    using conf_file_loaded [OF assms(1,2)] loaded_entries by metis
  have "list_all2 (\<lambda>b i. c_str b = Inr (item_name i)) (map plugin_type (plugin_entries c)) (filter is_plugin is)"
    using es plugin_is_name by (auto simp: list_all2_conv_all_nth)
  from find_entry_first [OF this assms(3)] obtain r where r: "find_entry (map plugin_type (plugin_entries c)) ty = Inr r"
    "case r of None \<Rightarrow> find (\<lambda>i. item_name i = ty) (filter is_plugin is) = None
     | Some j \<Rightarrow> j < length (filter is_plugin is) \<and>
         find (\<lambda>i. item_name i = ty) (filter is_plugin is) = Some (filter is_plugin is ! j)" by blast
  have "case find (\<lambda>i. item_name i = ty) (filter is_plugin is) of
       None \<Rightarrow> dynpm_conf_get_plugin_config ty st = Inr (-1, None)
     | Some i \<Rightarrow> \<exists>e. dynpm_conf_get_plugin_config ty st = Inr (0, Some e) \<and> plugin_is e i"
    using r c es by (cases r) (auto simp: dynpm_conf_get_plugin_config_def the_conf_def list_all2_nthD2)
  with st show ?thesis by blast
qed



text \<open>A file with more process lines than its first line announces makes the loader access memory past the
  table.\<close>

theorem conf_too_many_processes:
  assumes "list_all item_ok is" and "list_all is_process is" and "fresh_ok g" and "number_ok n" and "number_ok k"
    and "n < int (length is)"
  shows "load g (Some (conf_text (Configuration_Size n k # is))) conf_start = Inl Out_Of_Bounds"
proof -
  let ?m = "nat n"
  obtain i "is2" where split: "is = take ?m is @ i # is2" using assms(6) assms(4)
    by (metis id_take_nth_drop nat_less_iff number_ok_def)
  let ?a = "take ?m is"
  have all: "list_all item_ok ?a" "list_all is_process ?a" "is_process i"
    using assms(1,2) arg_cong [OF split, of "list_all item_ok"] arg_cong [OF split, of "list_all is_process"] by simp_all
  have proc: "filter is_process ?a = ?a" "filter is_plugin ?a = []"
    using all(2) process_no_plugin by (auto simp: list_all_iff filter_empty_conv)
  have len: "length ?a = ?m" using assms(4,6) by (simp add: number_ok_def)
  have "loaded ?m (nat k) [] (allocate_dynpm_conf g n k conf_start)"
    using loaded_start [OF assms(3)] assms(4,5) by (simp add: number_ok_def)
  from run_items_loaded [OF this all(1), of g] all(2) proc len
  obtain st where st: "run_items g ?a (allocate_dynpm_conf g n k conf_start) = Inr st" "loaded ?m (nat k) ?a st"
    by (auto simp: list_all_iff)
  from st(2) obtain c where "dynpm_configuration st = Conf c" "process_entry st = ?m" "length (process_entries c) = ?m"
    using proc len by (auto simp: loaded_def filled_def)
  then have "item_action g i st = Inl Out_Of_Bounds"
    using all(3) by (cases i) (auto simp: configuration_action_def the_conf_def Let_def)
  then have "run_items g is (allocate_dynpm_conf g n k conf_start) = Inl Out_Of_Bounds"
    using st(1) by (subst split) (simp add: run_items_append)
  then show ?thesis using assms(1,4,5) load_items [of "Configuration_Size n k # is"] by simp
qed

theorem conf_too_many_processes_witness:
  "load example_fresh (Some (conf_text [Configuration_Size 0 1, Configuration ''slurmctld'' 9500 16 ''slurmv''])) conf_start =
     Inl Out_Of_Bounds"
  by (rule conf_too_many_processes)
     (simp_all add: name_ok_def number_ok_def int32_ok_def word_char_def isdigit_def CONFIG_MAX_STR_LEN_def)

text \<open>Without a configuration file the library is loaded all the same; its destructor and every lookup
  then dereference a null pointer.\<close>

theorem conf_missing_file:
  "rbind (load g None conf_start) unload = Inl Null_Deref \<and>
   rbind (load g None conf_start) (dynpm_conf_get_process_config name) = Inl Null_Deref \<and>
   rbind (load g None conf_start) (dynpm_conf_get_plugin_config name) = Inl Null_Deref"
  by (simp add: load_def dynpm_conf_parse_def unload_def free_dynpm_conf_def dynpm_conf_get_process_config_def
      dynpm_conf_get_plugin_config_def the_conf_def conf_start_def)

end
