(* ===== verification/Scanner.thy ===== *)
theory Scanner
  imports Config_Properties
begin

text \<open>
  The scanner against the rules of \<open>flex.l\<close>. The rules are given as the languages of their patterns;
  the longest match decides, and among equally long ones the first rule. The function \<open>yylex\<close> of
  \<open>Config\<close> computes exactly what these rules prescribe.
\<close>

section \<open>Rules\<close>

datatype rule =
    Rule_number | Rule_string | Rule_equals | Rule_left | Rule_right | Rule_comma | Rule_colon
  | Rule_blanks | Rule_comment | Rule_any

text \<open>The place of a rule in the file.\<close>

fun place :: "rule \<Rightarrow> nat" where
  "place Rule_number = 0" | "place Rule_string = 1" | "place Rule_equals = 2" | "place Rule_left = 3"
| "place Rule_right = 4" | "place Rule_comma = 5" | "place Rule_colon = 6" | "place Rule_blanks = 7"
| "place Rule_comment = 8" | "place Rule_any = 9"

text \<open>The language of a rule's pattern.\<close>

fun matches :: "rule \<Rightarrow> string \<Rightarrow> bool" where
  "matches Rule_number w \<longleftrightarrow> w \<noteq> [] \<and> list_all isdigit w"
| "matches Rule_string w \<longleftrightarrow> list_all word_char w"
| "matches Rule_equals w \<longleftrightarrow> w = [CHR ''='']"
| "matches Rule_left w \<longleftrightarrow> w = [CHR ''{'']"
| "matches Rule_right w \<longleftrightarrow> w = [CHR ''}'']"
| "matches Rule_comma w \<longleftrightarrow> w = [CHR '','']"
| "matches Rule_colon w \<longleftrightarrow> w = [CHR '':'']"
| "matches Rule_blanks w \<longleftrightarrow> w \<noteq> [] \<and> list_all is_blank w"
| "matches Rule_comment w \<longleftrightarrow> w \<noteq> [] \<and> hd w = CHR ''#'' \<and> list_all (\<lambda>c. c \<noteq> CHR 0x0A) (tl w)"
| "matches Rule_any w \<longleftrightarrow> (\<exists>c. w = [c] \<and> c \<noteq> CHR 0x0A)"

definition best_match :: "string \<Rightarrow> rule \<Rightarrow> nat \<Rightarrow> bool" where
  "best_match s r n \<longleftrightarrow> n \<le> length s \<and> matches r (take n s) \<and>
     (\<forall>r'. place r' < place r \<longrightarrow> \<not> matches r' (take n s)) \<and>
     (\<forall>m r'. n < m \<longrightarrow> m \<le> length s \<longrightarrow> \<not> matches r' (take m s))"

text \<open>What the actions do with the matched text: a token (or a failed assertion), a new start, or the end of
  the process.\<close>

datatype action = Emit "token res" | Again | Quit

fun rule_action :: "rule \<Rightarrow> string \<Rightarrow> action" where
  "rule_action Rule_number w = Emit (rassert (int32_ok (int (dec_val w))) Int_Overflow (Inr (Number (int (dec_val w)))))"
| "rule_action Rule_string w = Emit (rassert (length w < CONFIG_MAX_STR_LEN) Assert_Failed (Inr (String_Val w)))"
| "rule_action Rule_equals w = Emit (Inr Equals)"
| "rule_action Rule_left w = Emit (Inr Left)"
| "rule_action Rule_right w = Emit (Inr Right)"
| "rule_action Rule_comma w = Emit (Inr Comma)"
| "rule_action Rule_colon w = Emit (Inr Colon)"
| "rule_action Rule_blanks w = Again"
| "rule_action Rule_comment w = Again"
| "rule_action Rule_any w = Quit"

inductive scans :: "string \<Rightarrow> (token \<times> string) option res \<Rightarrow> bool" where
  at_end: "scans [] (Inr None)"
| emits: "s \<noteq> [] \<Longrightarrow> best_match s r n \<Longrightarrow> rule_action r (take n s) = Emit t \<Longrightarrow>
    scans s (rbind t (\<lambda>x. Inr (Some (x, drop n s))))"
| again: "s \<noteq> [] \<Longrightarrow> best_match s r n \<Longrightarrow> rule_action r (take n s) = Again \<Longrightarrow> scans (drop n s) y \<Longrightarrow> scans s y"
| quits: "s \<noteq> [] \<Longrightarrow> best_match s r n \<Longrightarrow> rule_action r (take n s) = Quit \<Longrightarrow> scans s (Inl Exited)"

section \<open>The best match is unique\<close>

lemma place_inject: "place r = place r' \<longleftrightarrow> r = r'"
  by (cases r; cases r') simp_all

lemma best_match_unique:
  assumes "best_match s r n" and "best_match s r' n'"
  shows "r' = r \<and> n' = n"
proof -
  have "n' = n" using assms unfolding best_match_def by (metis linorder_neqE_nat)
  then have "\<not> place r' < place r" "\<not> place r < place r'" using assms unfolding best_match_def by metis+
  then show ?thesis using \<open>n' = n\<close> place_inject [of r' r] by simp
qed

lemma scans_deterministic: "scans s y \<Longrightarrow> scans s z \<Longrightarrow> y = z"
proof (induction arbitrary: z rule: scans.induct)
  case at_end
  from at_end.prems show ?case by (cases rule: scans.cases) auto
next
  case (emits s r n t)
  from emits.prems emits.hyps show ?case
    by (cases rule: scans.cases) (auto dest: best_match_unique [of s r n])
next
  case (again s r n y)
  from again.prems show ?case
  proof (cases rule: scans.cases)
    case (again r' n')
    then have "r' = r" "n' = n" using best_match_unique [OF again.hyps(2)] by auto
    with again again.IH show ?thesis by simp
  qed (use again.hyps in \<open>auto dest: best_match_unique [of s r n]\<close>)
next
  case (quits s r n)
  from quits.prems quits.hyps show ?case
    by (cases rule: scans.cases) (auto dest: best_match_unique [of s r n])
qed

section \<open>The best match of each kind of character\<close>

lemma take_all_takeWhile: "list_all P (take m s) \<Longrightarrow> m \<le> length s \<Longrightarrow> m \<le> length (takeWhile P s)"
proof (induction s arbitrary: m)
  case (Cons c s)
  then show ?case by (cases m) auto
qed simp

lemma takeWhile_take_length [simp]: "take (length (takeWhile P s)) s = takeWhile P s"
  by (metis takeWhile_eq_take)

lemma drop_takeWhile_length [simp]: "drop (length (takeWhile P s)) s = dropWhile P s"
  by (metis dropWhile_eq_drop)

lemma all_takeWhile [simp]: "list_all P (takeWhile P s)"
  by (auto simp: list_all_iff dest: set_takeWhileD)


lemma best_matchI:
  assumes "k \<le> length cs" and "matches r (c # take k cs)"
    and "\<And>r'. place r' < place r \<Longrightarrow> \<not> matches r' (c # take k cs)"
    and "\<And>m r'. k < m \<Longrightarrow> m \<le> length cs \<Longrightarrow> \<not> matches r' (c # take m cs)"
  shows "best_match (c # cs) r (Suc k)"
  unfolding best_match_def
proof (intro conjI allI impI)
  fix m r'
  assume m: "Suc k < m" "m \<le> length (c # cs)"
  then obtain j where "m = Suc j" "k < j" "j \<le> length cs" by (cases m) auto
  then show "\<not> matches r' (take m (c # cs))" using assms(4) [of j r'] by simp
qed (use assms in simp_all)

lemma no_longer_run:
  assumes "length (takeWhile P cs) < m" and "m \<le> length cs"
  shows "\<not> list_all P (take m cs)"
  using take_all_takeWhile [of P m cs] assms by linarith

lemma take_nonempty: "0 < m \<Longrightarrow> m \<le> length cs \<Longrightarrow> take m cs \<noteq> []"
  by auto

text \<open>What excludes a rule for a given first character.\<close>

lemma symbol_chars:
  "is_blank c \<Longrightarrow> \<not> word_char c \<and> c \<notin> set ''={},:#''"
  "word_char c \<Longrightarrow> c \<notin> set ''={},:#'' \<and> \<not> is_blank c"
  "isdigit c \<Longrightarrow> word_char c"
  by (auto simp: is_blank_def word_char_def isdigit_def)

lemma best_blanks:
  assumes "is_blank c"
  shows "best_match (c # cs) Rule_blanks (Suc (length (takeWhile is_blank cs)))"
proof (rule best_matchI)
  fix r' assume "place r' < place Rule_blanks"
  then show "\<not> matches r' (c # take (length (takeWhile is_blank cs)) cs)"
    using symbol_chars(1) [OF assms] symbol_chars(3) [of c] by (cases r') auto
next
  fix m r' assume "length (takeWhile is_blank cs) < m" "m \<le> length cs"
  then show "\<not> matches r' (c # take m cs)"
    using symbol_chars(1) [OF assms] symbol_chars(3) [of c] no_longer_run [of is_blank cs m] take_nonempty [of m cs]
    by (cases r') auto
qed (use assms in \<open>auto simp: length_takeWhile_le\<close>)

lemma best_comment:
  "best_match (CHR ''#'' # cs) Rule_comment (Suc (length (takeWhile (\<lambda>x. x \<noteq> CHR 0x0A) cs)))"
proof -
  have h: "\<not> word_char (CHR ''#'')" "\<not> isdigit (CHR ''#'')" "\<not> is_blank (CHR ''#'')"
    by (simp_all add: word_char_def isdigit_def is_blank_def)
  show ?thesis
  proof (rule best_matchI)
    fix r' assume "place r' < place Rule_comment"
    then show "\<not> matches r' (CHR ''#'' # take (length (takeWhile (\<lambda>x. x \<noteq> CHR 0x0A) cs)) cs)" using h by (cases r') auto
  next
    fix m r' assume "length (takeWhile (\<lambda>x. x \<noteq> CHR 0x0A) cs) < m" "m \<le> length cs"
    then show "\<not> matches r' (CHR ''#'' # take m cs)"
      using h no_longer_run [of "\<lambda>x. x \<noteq> CHR 0x0A" cs m] take_nonempty [of m cs] by (cases r') auto
  qed (auto simp: length_takeWhile_le)
qed

lemma best_word:
  assumes "word_char c"
  shows "best_match (c # cs) (if list_all isdigit (c # takeWhile word_char cs) then Rule_number else Rule_string)
           (Suc (length (takeWhile word_char cs)))"
proof (rule best_matchI)
  fix r' assume "place r' < place (if list_all isdigit (c # takeWhile word_char cs) then Rule_number else Rule_string)"
  then show "\<not> matches r' (c # take (length (takeWhile word_char cs)) cs)" by (cases r') (auto split: if_splits)
next
  fix m r' assume "length (takeWhile word_char cs) < m" "m \<le> length cs"
  moreover have "list_all isdigit (take m cs) \<Longrightarrow> list_all word_char (take m cs)"
    using symbol_chars(3) by (auto simp: list_all_iff)
  ultimately show "\<not> matches r' (c # take m cs)"
    using symbol_chars(2) [OF assms] no_longer_run [of word_char cs m] take_nonempty [of m cs]
    by (cases r') auto
qed (use assms in \<open>auto simp: length_takeWhile_le\<close>)

text \<open>The rule of a single character that starts no run.\<close>

definition char_rule :: "char \<Rightarrow> rule" where
  "char_rule c =
     (if c = CHR ''='' then Rule_equals else if c = CHR ''{'' then Rule_left else if c = CHR ''}'' then Rule_right
      else if c = CHR '','' then Rule_comma else if c = CHR '':'' then Rule_colon else Rule_any)"

lemma best_char:
  assumes "\<not> word_char c" and "\<not> is_blank c" and "c \<noteq> CHR ''#''"
  shows "best_match (c # cs) (char_rule c) (Suc 0)"
proof (rule best_matchI)
  have n: "\<not> isdigit c" "c \<noteq> CHR 0x0A" using assms(1,2) symbol_chars(3) by (auto simp: is_blank_def)
  show "matches (char_rule c) (c # take 0 cs)" using n(2) by (simp add: char_rule_def)
  fix r' assume "place r' < place (char_rule c)"
  then show "\<not> matches r' (c # take 0 cs)"
    using assms n by (cases r') (auto simp: char_rule_def split: if_splits)
next
  fix m r' assume "0 < m" "m \<le> length cs"
  then show "\<not> matches r' (c # take m cs)"
    using assms symbol_chars(3) [of c] take_nonempty [of m cs] by (cases r') auto
qed simp

section \<open>The scanner implements the rules\<close>

lemma scans_yylex: "scans s (yylex s)"
proof (induction s rule: yylex.induct)
  case 1
  then show ?case by (simp add: at_end)
next
  case (2 c cs)
  consider (blank) "is_blank c" | (comment) "\<not> is_blank c" "c = CHR ''#''"
    | (word) "\<not> is_blank c" "c \<noteq> CHR ''#''" "word_char c"
    | (other) "\<not> is_blank c" "c \<noteq> CHR ''#''" "\<not> word_char c" by blast
  then show ?case
  proof cases
    case blank
    with again [OF _ best_blanks [OF blank, of cs]] 2(1) show ?thesis by (simp add: yylex.simps)
  next
    case comment
    with again [OF _ best_comment [of cs]] 2(2) show ?thesis by (simp add: yylex.simps)
  next
    case word
    with emits [OF _ best_word [OF word(3), of cs]] show ?thesis by (auto simp: yylex.simps word_token_def)
  next
    case other
    note b = best_char [OF other(3,1,2), of cs]
    show ?thesis
    proof (cases "punctuation c")
      case None
      then have "char_rule c = Rule_any" by (auto simp: punctuation_def char_rule_def split: if_splits)
      with quits [OF _ b] other None show ?thesis by (simp add: yylex.simps)
    next
      case (Some t)
      then have "rule_action (char_rule c) [c] = Emit (Inr t)" by (auto simp: punctuation_def char_rule_def split: if_splits)
      with emits [OF _ b] other Some show ?thesis by (simp add: yylex.simps)
    qed
  qed
qed

text \<open>C7: The scanner returns exactly what the rules of the specification prescribe: the longest match, the
  first rule among equally long ones, blanks and comments skipped, any other character fatal.\<close>

theorem yylex_implements_rules: "scans s y \<longleftrightarrow> y = yylex s"
  using scans_yylex scans_deterministic by blast

end
