(* ===== verification/Printing.thy ===== *)
theory Printing
  imports Config_Properties Server
begin

text \<open>
  What the library prints: the configuration (\<open>dynpm_conf_print\<close> of \<open>src/config/config.c\<close>, and the
  tool \<open>src/print/print.c\<close> whose main function is one call of it) and the connections of a client and of
  a server. The connection functions hand one text per line to the logger; the text of a pointer
  (\<open>%x\<close>) is an argument of the model.
\<close>

section \<open>Fields of a fixed width\<close>

definition pad_left :: "nat \<Rightarrow> string \<Rightarrow> string" where
  "pad_left w s = replicate (w - length s) (CHR '' '') @ s"

definition pad_right :: "nat \<Rightarrow> string \<Rightarrow> string" where
  "pad_right w s = s @ replicate (w - length s) (CHR '' '')"

section \<open>The configuration\<close>

definition process_report :: "nat \<Rightarrow> string \<Rightarrow> int \<Rightarrow> int \<Rightarrow> string \<Rightarrow> string" where
  "process_report i name port threads host =
     ''process: '' @ pad_left 2 (show_int (int i)) @ '': '' @ pad_right 12 name @ '': port: '' @ pad_left 5 (show_int port) @
     ''; threads: '' @ pad_left 2 (show_int threads) @ ''; host: '' @ host @ '';'' @ [CHR 0x0A]"

definition plugin_report :: "nat \<Rightarrow> string \<Rightarrow> string \<Rightarrow> string" where
  "plugin_report i ty name =
     ''wrapper: '' @ pad_left 2 (show_int (int i)) @ '': '' @ pad_left 12 ty @ '':'' @ pad_right 12 name @ [CHR 0x0A]"

text \<open>The loops over the entries, \<open>n\<close> of them left from entry \<open>i\<close> on.\<close>

fun print_processes :: "dynpm_process_conf_entry list \<Rightarrow> nat \<Rightarrow> nat \<Rightarrow> string res" where
  "print_processes es i 0 = Inr []"
| "print_processes es i (Suc n) =
     rassert (i < length es) Out_Of_Bounds
       (rbind (c_str (pe_name (es ! i))) (\<lambda>name. rbind (c_str (pe_host (es ! i))) (\<lambda>host.
        rbind (print_processes es (Suc i) n) (\<lambda>rest.
          Inr (process_report i name (pe_port (es ! i)) (pe_threads (es ! i)) host @ rest)))))"

fun print_plugins :: "dynpm_plugin_conf_entry list \<Rightarrow> nat \<Rightarrow> nat \<Rightarrow> string res" where
  "print_plugins es i 0 = Inr []"
| "print_plugins es i (Suc n) =
     rassert (i < length es) Out_Of_Bounds
       (rbind (c_str (plugin_type (es ! i))) (\<lambda>ty. rbind (c_str (plugin_name (es ! i))) (\<lambda>name.
        rbind (print_plugins es (Suc i) n) (\<lambda>rest. Inr (plugin_report i ty name @ rest)))))"

definition dynpm_conf_print :: "conf_state \<Rightarrow> string res" where
  "dynpm_conf_print st =
     rbind (the_conf st) (\<lambda>c.
     rbind (print_processes (process_entries c) 0 (nat (processes c))) (\<lambda>ps.
     rbind (print_plugins (plugin_entries c) 0 (nat (plugins c))) (\<lambda>ws.
       Inr (''processes: '' @ show_int (processes c) @ [CHR 0x0A] @ ps @
            ''plugins: '' @ show_int (plugins c) @ [CHR 0x0A] @ ws))))"

text \<open>The tool: the library's constructor runs before the main function, its destructor after it.\<close>

definition print_main :: "fresh_conf \<Rightarrow> string option \<Rightarrow> (string \<times> conf_state) res" where
  "print_main g file =
     rbind (load g file conf_start) (\<lambda>st. rbind (dynpm_conf_print st) (\<lambda>out. rbind (unload st) (\<lambda>st'. Inr (out, st'))))"

section \<open>The connections\<close>

definition dynpm_print_server_connections :: "client_state \<Rightarrow> string list" where
  "dynpm_print_server_connections s =
     (if dynpm_client_initialized s then [] else [''trying to print connections before libdynpm client was initialized'']) @
     map (\<lambda>i. ''connection '' @ show_int (int i) @ '' is set'')
       (filter (\<lambda>i. server_connections s ! i \<noteq> None) [0..<length (server_connections s)])"

definition print_client_connection :: "(addr \<Rightarrow> string) \<Rightarrow> addr \<Rightarrow> server_connection \<Rightarrow> string res" where
  "print_client_connection hex a x =
     (case (sc_pid x, sc_host x) of
        (Some pid, Some host) \<Rightarrow>
          Inr ('' ### addr: '' @ hex a @ ''; fd: '' @ show_int (sc_fd x) @ ''; pid: '' @ fmt_d pid @ ''; host: '' @ host @ '';'')
      | _ \<Rightarrow> Inl Uninitialised)"

partial_function (option) print_connections ::
    "(addr \<Rightarrow> string) \<Rightarrow> (addr \<rightharpoonup> server_connection) \<Rightarrow> addr option \<Rightarrow> string list res option" where
  "print_connections hex h p =
     (case p of None \<Rightarrow> Some (Inr [])
      | Some a \<Rightarrow>
          (case h a of None \<Rightarrow> Some (Inl Wild_Pointer)
           | Some x \<Rightarrow>
               (case print_client_connection hex a x of Inl e \<Rightarrow> Some (Inl e)
                | Inr line \<Rightarrow>
                    Option.bind (print_connections hex h (sc_le_next x)) (\<lambda>r. Some (map_sum id (\<lambda>ls. line # ls) r)))))"

definition dynpm_print_client_connections :: "(addr \<Rightarrow> string) \<Rightarrow> server_state \<Rightarrow> string list res" where
  "dynpm_print_client_connections hex s =
     rbind (settle (print_connections hex (cl_heap (sv_list s)) (cl_head (sv_list s)))) (\<lambda>ls.
       Inr ('' ###  ###  connections  ### ###'' # ls))"

section \<open>Lemmas\<close>

text \<open>The report of a list of items, from number \<open>i\<close> on.\<close>

fun item_report :: "nat \<Rightarrow> item \<Rightarrow> string" where
  "item_report i (Configuration name port threads host) = process_report i name port threads host"
| "item_report i (Wrapping ty name) = plugin_report i ty name"
| "item_report i (Configuration_Size n k) = []"

definition report :: "nat \<Rightarrow> item list \<Rightarrow> string" where
  "report i is = concat (map (\<lambda>(j, x). item_report j x) (enumerate i is))"

lemma report_simps [simp]: "report i [] = []" "report i (x # is) = item_report i x @ report (Suc i) is"
  by (simp_all add: report_def)

lemma print_processes_report:
  "list_all2 process_is (drop i es) is \<Longrightarrow> print_processes es i (length is) = Inr (report i is)"
proof (induction "is" arbitrary: i)
  case (Cons x "is")
  then have i: "i < length es" by (metis drop_eq_Nil2 list.distinct(1) list_all2_Nil not_le_imp_less)
  then have "drop i es = es ! i # drop (Suc i) es" by (simp add: Cons_nth_drop_Suc)
  with Cons i show ?case by (cases x) auto
qed simp

lemma print_plugins_report:
  "list_all2 plugin_is (drop i es) is \<Longrightarrow> print_plugins es i (length is) = Inr (report i is)"
proof (induction "is" arbitrary: i)
  case (Cons x "is")
  then have i: "i < length es" by (metis drop_eq_Nil2 list.distinct(1) list_all2_Nil not_le_imp_less)
  then have "drop i es = es ! i # drop (Suc i) es" by (simp add: Cons_nth_drop_Suc)
  with Cons i show ?case by (cases x) auto
qed simp

definition connection_line :: "(addr \<Rightarrow> string) \<Rightarrow> conn_list \<Rightarrow> addr \<Rightarrow> string" where
  "connection_line hex l a =
     (case cl_heap l a of None \<Rightarrow> [] | Some x \<Rightarrow> (case print_client_connection hex a x of Inl _ \<Rightarrow> [] | Inr line \<Rightarrow> line))"

lemma print_connections_list:
  "dlinked h pl p as \<Longrightarrow>
   print_connections hex h p =
     Some (if \<forall>a \<in> set as. \<exists>x line. h a = Some x \<and> print_client_connection hex a x = Inr line
           then Inr (map (connection_line hex \<lparr>cl_heap = h, cl_head = p\<rparr>) as) else Inl Uninitialised)"
proof (induction as arbitrary: pl p)
  case Nil
  then show ?case by (simp add: print_connections.simps)
next
  case (Cons a as)
  then obtain x where x: "p = Some a" "h a = Some x" "dlinked h (Next_Field a) (sc_le_next x) as" by (auto split: option.splits)
  have line: "connection_line hex \<lparr>cl_heap = h, cl_head = q\<rparr> = connection_line hex \<lparr>cl_heap = h, cl_head = p\<rparr>" for q
    by (simp add: connection_line_def fun_eq_iff)
  show ?case
  proof (cases "print_client_connection hex a x")
    case (Inl e)
    then have "e = Uninitialised" by (auto simp: print_client_connection_def split: option.splits)
    with Inl x show ?thesis by (simp add: print_connections.simps [of hex h "Some a"])
  next
    case (Inr l)
    then show ?thesis using x Cons.IH [OF x(3)] line [of "sc_le_next x"]
      by (auto simp: print_connections.simps [of hex h "Some a"] connection_line_def)
  qed
qed

section \<open>Properties\<close>

text \<open>C35: The printing tool reports a configuration file completely and in its order: the number of processes, a line for each
  with its values, the number of plugins, and a line for each of them; the configuration is then freed.\<close>

theorem print_tool_reports_file:
  assumes "conf_ok is" and "fresh_ok g"
  shows "\<exists>st. print_main g (Some (conf_file is)) =
    Inr (''processes: '' @ show_int (int (length (filter is_process is))) @ [CHR 0x0A] @ report 0 (filter is_process is) @
         ''plugins: '' @ show_int (int (length (filter is_plugin is))) @ [CHR 0x0A] @ report 0 (filter is_plugin is), st) \<and>
    dynpm_configuration st = Freed_Conf"
proof -
  obtain st where st: "load g (Some (conf_file is)) conf_start = Inr st"
    "loaded (length (filter is_process is)) (length (filter is_plugin is)) is st"
    using conf_file_loaded [OF assms] by blast
  then obtain c where c: "dynpm_configuration st = Conf c" "processes c = int (length (filter is_process is))"
    "plugins c = int (length (filter is_plugin is))"
    "list_all2 process_is (process_entries c) (filter is_process is)" "list_all2 plugin_is (plugin_entries c) (filter is_plugin is)"
    by (auto simp: loaded_def filled_def)
  then show ?thesis using st(1) print_processes_report [of 0 "process_entries c" "filter is_process is"]
      print_plugins_report [of 0 "plugin_entries c" "filter is_plugin is"]
    by (simp add: print_main_def dynpm_conf_print_def the_conf_def unload_def free_dynpm_conf_def)
qed

theorem print_tool_reports_file_witness:
  "\<exists>st. print_main example_fresh (Some (conf_file example_items)) =
    Inr (''processes: '' @ show_int 1 @ [CHR 0x0A] @ process_report 0 ''slurmctld'' 9500 16 ''slurmv'' @
         ''plugins: '' @ show_int 1 @ [CHR 0x0A] @ plugin_report 0 ''sched'' ''backfill'', st) \<and> dynpm_configuration st = Freed_Conf"
  using print_tool_reports_file [OF example_conf_ok] by (simp add: example_items_def)

text \<open>Printing the connections of a server lists them in the order of the list, unless one of them has not registered
  yet: the host name of such a connection has never been set, and the print follows an indeterminate
  pointer.\<close>

theorem print_client_connections_registered:
  assumes "conn_list_holds (sv_list s) as"
  shows "dynpm_print_client_connections hex s =
    (if all_registered (sv_list s) as
     then Inr ('' ###  ###  connections  ### ###'' # map (connection_line hex (sv_list s)) as) else Inl Uninitialised)"
proof -
  have l: "dlinked (cl_heap (sv_list s)) Head_Field (cl_head (sv_list s)) as" using assms by (simp add: conn_list_holds_def)
  have "(\<exists>x line. cl_heap (sv_list s) a = Some x \<and> print_client_connection hex a x = Inr line) \<longleftrightarrow>
      (\<exists>pid host. registered (sv_list s) a pid host)" for a
    by (auto simp: print_client_connection_def registered_def split: option.splits)
  then have "all_registered (sv_list s) as \<longleftrightarrow>
      (\<forall>a \<in> set as. \<exists>x line. cl_heap (sv_list s) a = Some x \<and> print_client_connection hex a x = Inr line)"
    by (simp only: all_registered_def)
  moreover have "connection_line hex \<lparr>cl_heap = cl_heap (sv_list s), cl_head = cl_head (sv_list s)\<rparr> a = connection_line hex (sv_list s) a" for a
    by (simp add: connection_line_def)
  ultimately show ?thesis
    using print_connections_list [OF l, of hex] by (simp only: dynpm_print_client_connections_def) simp
qed

end
