(* ===== verification/Spec2Isabelle.thy ===== *)
theory Spec2Isabelle
  imports Protocol_Properties Network Dispatch Server_Life Client_Threads Tbon Work_Pool Release Logger Shm_Steps Scanner Printing
begin

text \<open>
  \<^bold>\<open>libdynpm\<close>, a C library for dynamic process managers. Programs of a cluster (scheduler, node managers,
  process managers, launchers) use it to exchange messages of a fixed size over TCP, to build a
  tree-based overlay network, to pass messages between a process manager and the processes of an
  application through shared memory, and to read a common configuration file. File names below are
  relative to the root of the repository.

  \<^bold>\<open>Parts and how they interact.\<close> A client (\<open>src/network/client.c\<close>) keeps a table of 64 connections to servers.
  Opening a connection starts an event thread, waits for it and queues a registration message; senders
  serialise a message (\<open>src/network/protocol.c\<close>) and append it to the connection's queue, which the
  callbacks of the event thread drain into the socket. A server (\<open>src/network/server.c\<close>) accepts
  clients, cuts the byte stream into messages of 4096 bytes and hands each to the work queue
  (\<open>src/network/queue.c\<close>), whose threads run the handlers; registrations end in the list of
  connections. When a client leaves, the server closes the connections that were opened on its behalf.
  The overlay network (\<open>src/network/tbon.c\<close>) computes the edges of a tree from positions and forwards
  messages to the children through client connections. The channel of \<open>src/shm/shm.c\<close> and the
  configuration (\<open>src/config/\<close>) are independent of the network; \<open>src/print/print.c\<close> prints the latter.

  \<^bold>\<open>Conventions.\<close> Every undefined behaviour, failed assertion, process exit and wait that cannot end is a value
  of the type \<open>error\<close> of \<open>Prelude\<close>, and an operation returns \<open>error + result\<close> (\<open>res\<close>). 32-bit integers are
  words; \<open>int\<close> variables whose overflow matters are integers with the range test written out. Memory
  is explicit where links or lifetimes matter: a heap of queue nodes, of connection records, of
  messages. Locks are fields; locking a lock that is held is the error \<open>Blocked\<close>. What comes from
  outside (addresses from \<open>malloc\<close>, indeterminate contents, answers of the system and of libevent,
  the pieces in which bytes arrive) is an argument of the operation. Walks along links that may be
  cyclic are partial functions with values in \<open>option\<close>; everything else is total, and no fuel is used.

  \<^bold>\<open>Theories, their source, and what is shown.\<close>
  \<^item> \<open>Prelude\<close>: results and errors, collections of rewrite rules, shared lemmas.
  \<^item> \<open>C_Text\<close>: strings in buffers, \<open>sprintf\<close>, \<open>sscanf\<close>, \<open>strcat\<close>, \<open>strtok\<close>, \<open>memcpy\<close> as far as the library uses
    them; what is printed by one format is scanned back by a matching one.
  \<^item> \<open>Messages\<close>, \<open>Protocol\<close>, \<open>Registration\<close>, \<open>Protocol_Properties\<close>: the message structures of
    \<open>include/dynpm_network.h\<close> and every serialiser and deserialiser of \<open>protocol.c\<close>. The locale
    \<open>wire_codec\<close> is the contract of a pair of them; each pair is an interpretation. Messages arrive
    unchanged, with the exact bounds under which they do; the uninitialised loop variable, the
    truncated times, trusted lengths and destroyed input are shown as such.
  \<^item> \<open>Dispatch\<close>: the switches by message type are type-safe when header and message agree.
  \<^item> \<open>Release\<close>: the functions that free messages and tree vertices, on a memory of blocks with pointers.
    The locale \<open>releaser\<close>: exactly the blocks owned by a message are freed, each once.
  \<^item> \<open>Fifo\<close>: the linked queues of \<open>client.c\<close> and \<open>queue.c\<close> refine a list (locales \<open>linked_nodes\<close>, \<open>fifo\<close>); an
    append fails to return exactly when it meets a cycle.
  \<^item> \<open>Client\<close>, \<open>Client_Events\<close>, \<open>Client_Properties\<close>: the client's table, opening, closing, sending and the
    event callbacks; the invariant of the table, order of delivery, reassembly, error paths.
  \<^item> \<open>Client_Threads\<close>: interleavings at one connection: a lost message, a deadlock while a connection opens
    (exactly characterised), a race of sending and disconnecting, and what the event thread frees.
  \<^item> \<open>Server_List\<close>, \<open>Server\<close>, \<open>Server_Life\<close>: the doubly linked list of connections with its macros, handlers,
    reassembly, callbacks, cascade, sending, starting, accepting and finalising.
  \<^item> \<open>Network\<close>: a registration from the client's call to the server's search.
  \<^item> \<open>Work_Pool\<close>: the worker threads as steps of a relation: order of jobs, no lost wake-up.
  \<^item> \<open>Tbon\<close>: the edges form one tree that spans all nodes; vertices, forwarding, deadlines of timed waits.
  \<^item> \<open>Shm\<close>, \<open>Shm_Session\<close>, \<open>Shm_Properties\<close>, \<open>Shm_Steps\<close>: the shared-memory channel, first with each call as
    one step, then with the steps of all calls interleaved; the calls are shown to be runs of these
    steps. Delivery in order and once, also when the 32-bit counters wrap around; calls do not wait for
    each other; what goes wrong when a control line is stored word by word.
  \<^item> \<open>Config\<close>, \<open>Config_Properties\<close>, \<open>Scanner\<close>: the scanner \<open>flex.l\<close>, the grammar \<open>bison.y\<close> with its actions,
    loading, lookups and release. The scanner function computes what the longest-match rules
    prescribe; a file printed from a list of items is loaded back; errors in a file.
  \<^item> \<open>Logger\<close>, \<open>Printing\<close>: the log files, the printed reports and the printing tool.

  \<^bold>\<open>Not modelled.\<close> The event loop of libevent and the scheduling of threads by the system: which callback runs
  when is left open, by arguments or by step relations. Socket options, names of threads, and DNS. The
  functions that print a single buffer or a control block, which nothing calls. The file
  \<open>src/shm/pmix.c\<close>, which is empty. Spurious wake-ups are steps of the work pool, but not of the opening
  of a connection. The steps of \<open>Shm_Steps\<close> leave out the manager's query of modes, and assume that
  stores become visible in program order.
\<close>

end
